(* ===== verification/Py_Prelude.thy ===== *)
theory Py_Prelude
  imports Complex_Main "HOL-Library.AList" "HOL-Library.Multiset"
begin

text \<open>
  Shared vocabulary of the development: the exceptions the Python sources raise, results that
  may be exceptions, insertion-ordered dictionaries, dynamically typed values (JSON bodies and
  YAML configurations), and the generic facts on lists and multisets the components share.

  \<^item> Python floats are modelled by \<^typ>\<open>real\<close> (no rounding, no NaN), Python integers by
    \<^typ>\<open>int\<close>, counters that only grow by \<^typ>\<open>nat\<close>.
  \<^item> A \<^verbatim>\<open>dict\<close> is an association list in insertion order: storing to an existing key keeps
    its position, storing a new key appends it, which is what \<^const>\<open>AList.update\<close> does.
  \<^item> A call that may raise returns \<open>pyexn + 'a\<close>, the exception on the left.
\<close>

section \<open>Collections of facts\<close>

named_theorems dict_simps \<open>rewriting of dictionary lookups, stores and deletions\<close>
named_theorems inv_intros \<open>every operation keeps its component's invariant\<close>
named_theorems frame_simps \<open>fields an operation leaves alone\<close>

section \<open>Exceptions and results\<close>

datatype pyexn =
    IndexError
  | KeyError string
  | ValueError string
  | TypeError
  | AttributeError
  | AssertionError
  | TimeoutError
  | OtherError string

type_synonym 'a pyres = "pyexn + 'a"

definition bind_res :: "'a pyres \<Rightarrow> ('a \<Rightarrow> 'b pyres) \<Rightarrow> 'b pyres" where
  "bind_res r f = (case r of Inl e \<Rightarrow> Inl e | Inr x \<Rightarrow> f x)"

lemma bind_res_simps [simp]:
  "bind_res (Inl e) f = Inl e"
  "bind_res (Inr x) f = f x"
  by (simp_all add: bind_res_def)

lemma bind_res_Inr_iff:
  "bind_res r f = Inr y \<longleftrightarrow> (\<exists>x. r = Inr x \<and> f x = Inr y)"
  by (cases r) auto

section \<open>Dictionaries in insertion order\<close>

type_synonym ('k, 'v) dict = "('k \<times> 'v) list"

abbreviation dict_get :: "('k, 'v) dict \<Rightarrow> 'k \<Rightarrow> 'v option" where
  "dict_get \<equiv> map_of"

abbreviation dict_set :: "'k \<Rightarrow> 'v \<Rightarrow> ('k, 'v) dict \<Rightarrow> ('k, 'v) dict" where
  "dict_set \<equiv> AList.update"

abbreviation dict_pop :: "'k \<Rightarrow> ('k, 'v) dict \<Rightarrow> ('k, 'v) dict" where
  "dict_pop \<equiv> AList.delete"

abbreviation dict_keys :: "('k, 'v) dict \<Rightarrow> 'k set" where
  "dict_keys d \<equiv> fst ` set d"

definition dict_wf :: "('k, 'v) dict \<Rightarrow> bool" where
  "dict_wf d \<longleftrightarrow> distinct (map fst d)"

lemma dict_get_set [dict_simps]:
  "dict_get (dict_set k v d) k' = (if k' = k then Some v else dict_get d k')"
  by (simp add: update_conv')

lemma dict_get_pop [dict_simps]:
  "dict_get (dict_pop k d) k' = (if k' = k then None else dict_get d k')"
  by (simp add: delete_conv' restrict_map_def)

lemma dict_wf_set [intro, simp]: "dict_wf d \<Longrightarrow> dict_wf (dict_set k v d)"
  by (simp add: dict_wf_def distinct_update)

lemma dict_wf_pop [intro, simp]: "dict_wf d \<Longrightarrow> dict_wf (dict_pop k d)"
  by (simp add: dict_wf_def distinct_delete)

lemma dict_wf_Nil [simp]: "dict_wf []"
  by (simp add: dict_wf_def)

lemma dict_get_None_iff: "dict_get d k = None \<longleftrightarrow> k \<notin> dict_keys d"
  by (simp add: map_of_eq_None_iff)

lemma dict_keys_dom: "dict_keys d = dom (dict_get d)"
  by (simp add: dom_map_of_conv_image_fst)

section \<open>Dynamically typed values\<close>

text \<open>Request bodies and configurations: what \<^verbatim>\<open>json\<close> and \<^verbatim>\<open>yaml\<close> produce.\<close>

datatype pyval =
    PNone
  | PBool bool
  | PInt int
  | PFloat real
  | PStr string
  | PList "pyval list"
  | PDict "(string \<times> pyval) list"

text \<open>Truth value testing, \<^verbatim>\<open>bool(v)\<close>.\<close>

fun truthy :: "pyval \<Rightarrow> bool" where
  "truthy PNone = False"
| "truthy (PBool b) = b"
| "truthy (PInt i) = (i \<noteq> 0)"
| "truthy (PFloat x) = (x \<noteq> 0)"
| "truthy (PStr s) = (s \<noteq> [])"
| "truthy (PList vs) = (vs \<noteq> [])"
| "truthy (PDict d) = (d \<noteq> [])"

text \<open>\<^verbatim>\<open>v.get(key, default)\<close>: a dictionary's method; no other value has it.\<close>

fun py_get :: "pyval \<Rightarrow> string \<Rightarrow> pyval \<Rightarrow> pyval pyres" where
  "py_get (PDict d) k dflt = Inr (case map_of d k of None \<Rightarrow> dflt | Some v \<Rightarrow> v)"
| "py_get _ k dflt = Inl AttributeError"

text \<open>\<^verbatim>\<open>v[key]\<close> with a string as the key: only a dictionary can be indexed like this.\<close>

fun py_index :: "pyval \<Rightarrow> string \<Rightarrow> pyval pyres" where
  "py_index (PDict d) k = (case dict_get d k of None \<Rightarrow> Inl (KeyError k) | Some v \<Rightarrow> Inr v)"
| "py_index _ k = Inl TypeError"

text \<open>\<^verbatim>\<open>float(v)\<close> on numbers; the text form is parsed by the caller's parameter.\<close>

fun py_float :: "(string \<Rightarrow> real option) \<Rightarrow> pyval \<Rightarrow> real pyres" where
  "py_float parse (PBool b) = Inr (if b then 1 else 0)"
| "py_float parse (PInt i) = Inr (real_of_int i)"
| "py_float parse (PFloat x) = Inr x"
| "py_float parse (PStr s) =
     (case parse s of None \<Rightarrow> Inl (ValueError ''could not convert string to float'')
      | Some x \<Rightarrow> Inr x)"
| "py_float parse _ = Inl TypeError"

text \<open>\<^verbatim>\<open>int(v)\<close>: truncation towards zero on floats; text again through a parameter.\<close>

definition trunc :: "real \<Rightarrow> int" where
  "trunc x = (if x < 0 then \<lceil>x\<rceil> else \<lfloor>x\<rfloor>)"

fun py_int :: "(string \<Rightarrow> int option) \<Rightarrow> pyval \<Rightarrow> int pyres" where
  "py_int parse (PBool b) = Inr (if b then 1 else 0)"
| "py_int parse (PInt i) = Inr i"
| "py_int parse (PFloat x) = Inr (trunc x)"
| "py_int parse (PStr s) =
     (case parse s of None \<Rightarrow> Inl (ValueError ''invalid literal for int()'')
      | Some i \<Rightarrow> Inr i)"
| "py_int parse _ = Inl TypeError"

lemma trunc_of_int [simp]: "trunc (real_of_int i) = i"
  by (simp add: trunc_def)

lemma trunc_nonneg: "0 \<le> x \<Longrightarrow> trunc x = \<lfloor>x\<rfloor>"
  by (simp add: trunc_def)

section \<open>Lists and multisets\<close>

lemma mset_swap_hole:
  assumes "i < length xs" "j < length xs" "i \<noteq> j"
  shows "mset ((xs[i := xs ! j])[j := x]) = mset (xs[i := x])"
proof -
  have "(xs[i := xs ! j])[j := x] = (xs[i := x])[j := xs[i := x] ! i, i := xs[i := x] ! j]"
    using assms by (intro nth_equalityI) (auto simp: nth_list_update)
  then show ?thesis
    using assms by (simp only: mset_swap length_list_update)
qed

lemma mset_update_add:
  "i < length xs \<Longrightarrow> add_mset (xs ! i) (mset (xs[i := x])) = add_mset x (mset xs)"
  by (simp add: mset_update)

end
