(* ===== verification/Py_Heapq.thy ===== *)
theory Py_Heapq
  imports Py_Prelude
begin

text \<open>
  The standard library's binary heap, as \<^verbatim>\<open>scheduler/priority_queue.py\<close> uses it:
  \<^verbatim>\<open>heapq.heappush\<close> and \<^verbatim>\<open>heapq.heappop\<close> with their loops \<^verbatim>\<open>_siftdown\<close> and
  \<^verbatim>\<open>_siftup\<close>. The array is a list, the comparison \<^verbatim>\<open>__lt__\<close> of the items an argument.
  The locale \<open>weak_order\<close> states what the algorithms rely on (a strict weak order: two
  items may be equivalent without being equal) and holds the correctness lemmas: the heap
  property is kept, no item is lost or invented, and the popped item is a minimal one.
\<close>

section \<open>The algorithms\<close>

definition parent :: "nat \<Rightarrow> nat" where
  "parent i = (i - 1) div 2"

lemma parent_less: "0 < i \<Longrightarrow> parent i < i"
  unfolding parent_def by (metis Suc_pred' div_le_dividend le_imp_less_Suc)

text \<open>\<^verbatim>\<open>_siftdown\<close>: move \<open>newitem\<close> towards the root until its parent is not larger.\<close>

function siftdown_loop ::
  "('a \<Rightarrow> 'a \<Rightarrow> bool) \<Rightarrow> 'a list \<Rightarrow> nat \<Rightarrow> nat \<Rightarrow> 'a \<Rightarrow> 'a list" where
  "siftdown_loop lt heap startpos pos newitem =
     (if startpos < pos \<and> lt newitem (heap ! parent pos)
      then siftdown_loop lt (heap[pos := heap ! parent pos]) startpos (parent pos) newitem
      else heap[pos := newitem])"
  by pat_completeness auto
termination
  by (relation "measure (\<lambda>(lt, heap, startpos, pos, newitem). pos)") (auto simp: parent_less)

declare siftdown_loop.simps [simp del]

definition siftdown :: "('a \<Rightarrow> 'a \<Rightarrow> bool) \<Rightarrow> 'a list \<Rightarrow> nat \<Rightarrow> nat \<Rightarrow> 'a list" where
  "siftdown lt heap startpos pos = siftdown_loop lt heap startpos pos (heap ! pos)"

text \<open>
  \<^verbatim>\<open>_siftup\<close>: bubble the smaller child up until the hole is at a leaf, put the item there,
  then sift it towards the root.
\<close>

definition smaller_child :: "('a \<Rightarrow> 'a \<Rightarrow> bool) \<Rightarrow> 'a list \<Rightarrow> nat \<Rightarrow> nat" where
  "smaller_child lt heap pos =
     (let childpos = 2 * pos + 1; rightpos = childpos + 1
      in if rightpos < length heap \<and> \<not> lt (heap ! childpos) (heap ! rightpos)
         then rightpos else childpos)"

function siftup_loop :: "('a \<Rightarrow> 'a \<Rightarrow> bool) \<Rightarrow> 'a list \<Rightarrow> nat \<Rightarrow> 'a list \<times> nat" where
  "siftup_loop lt heap pos =
     (if 2 * pos + 1 < length heap
      then siftup_loop lt (heap[pos := heap ! smaller_child lt heap pos]) (smaller_child lt heap pos)
      else (heap, pos))"
  by pat_completeness auto
termination
  by (relation "measure (\<lambda>(lt, heap, pos). length heap - pos)") (auto simp: smaller_child_def Let_def)

declare siftup_loop.simps [simp del]

definition siftup :: "('a \<Rightarrow> 'a \<Rightarrow> bool) \<Rightarrow> 'a list \<Rightarrow> nat \<Rightarrow> 'a list" where
  "siftup lt heap pos =
     (case siftup_loop lt heap pos of (h, p) \<Rightarrow> siftdown lt (h[p := heap ! pos]) pos p)"

definition heappush :: "('a \<Rightarrow> 'a \<Rightarrow> bool) \<Rightarrow> 'a list \<Rightarrow> 'a \<Rightarrow> 'a list" where
  "heappush lt heap item = siftdown lt (heap @ [item]) 0 (length heap)"

definition heappop :: "('a \<Rightarrow> 'a \<Rightarrow> bool) \<Rightarrow> 'a list \<Rightarrow> ('a \<times> 'a list) pyres" where
  "heappop lt heap =
     (if heap = [] then Inl IndexError
      else let lastelt = last heap; rest = butlast heap
           in if rest \<noteq> [] then Inr (rest ! 0, siftup lt (rest[0 := lastelt]) 0)
              else Inr (lastelt, []))"

definition is_heap :: "('a \<Rightarrow> 'a \<Rightarrow> bool) \<Rightarrow> 'a list \<Rightarrow> bool" where
  "is_heap lt h \<longleftrightarrow> (\<forall>i < length h. 0 < i \<longrightarrow> \<not> lt (h ! i) (h ! parent i))"

section \<open>No item is lost: lengths and multisets\<close>

lemma parent_children: "i < length h \<Longrightarrow> 0 < i \<Longrightarrow> parent i = p \<longleftrightarrow> i = 2 * p + 1 \<or> i = 2 * p + 2"
  unfolding parent_def by arith

lemma parent_child [simp]: "parent (2 * p + 1) = p" "parent (2 * p + 2) = p"
  "parent (Suc (2 * p)) = p" "parent (Suc (Suc (2 * p))) = p"
  unfolding parent_def by simp_all

lemma length_siftdown_loop [simp]: "length (siftdown_loop lt h s p x) = length h"
  by (induction lt h s p x rule: siftdown_loop.induct) (subst siftdown_loop.simps, simp)

lemma mset_siftdown_loop:
  "p < length h \<Longrightarrow> mset (siftdown_loop lt h s p x) = mset (h[p := x])"
proof (induction lt h s p x rule: siftdown_loop.induct)
  case (1 lt h s p x)
  then have "parent p < length h" if "s < p"
    using that parent_less [of p] by simp
  with 1 show ?case
    using parent_less [of p] by (subst siftdown_loop.simps) (auto simp: mset_swap_hole)
qed

lemma length_siftdown [simp]: "length (siftdown lt h s p) = length h"
  by (simp add: siftdown_def)

lemma mset_siftdown: "p < length h \<Longrightarrow> mset (siftdown lt h s p) = mset h"
  by (simp add: siftdown_def mset_siftdown_loop)

lemma smaller_child_cases:
  assumes "2 * pos + 1 < length h"
  shows "smaller_child lt h pos < length h" and "pos < smaller_child lt h pos"
    and "parent (smaller_child lt h pos) = pos"
  using assms by (auto simp: smaller_child_def Let_def)

lemma siftup_loop_shape:
  "p < length h \<Longrightarrow> siftup_loop lt h p = (h', q) \<Longrightarrow>
     length h' = length h \<and> q < length h \<and> length h \<le> 2 * q + 1
     \<and> (\<forall>x. mset (h'[q := x]) = mset (h[p := x]))"
proof (induction lt h p arbitrary: h' q rule: siftup_loop.induct)
  case (1 lt h p)
  show ?case
  proof (cases "2 * p + 1 < length h")
    case True
    note c = smaller_child_cases [OF True, of lt]
    let ?c = "smaller_child lt h p"
    have "siftup_loop lt (h[p := h ! ?c]) ?c = (h', q)"
      using "1.prems"(2) True by (subst (asm) siftup_loop.simps) simp
    from "1.IH" [OF True _ this] c "1.prems"(1) show ?thesis
      by (simp add: mset_swap_hole)
  next
    case False
    with "1.prems"(2) have "h' = h" "q = p"
      by (auto simp: siftup_loop.simps [of lt h p])
    with False "1.prems"(1) show ?thesis by simp
  qed
qed

lemma siftup_mset_length:
  assumes "p < length h"
  shows "length (siftup lt h p) = length h \<and> mset (siftup lt h p) = mset h"
proof -
  obtain h' q where e: "siftup_loop lt h p = (h', q)" by force
  from siftup_loop_shape [OF assms e]
  have "length h' = length h" "q < length h" "mset (h'[q := h ! p]) = mset (h[p := h ! p])"
    by blast+
  then show ?thesis by (simp add: siftup_def e mset_siftdown)
qed

lemmas length_siftup [simp] = siftup_mset_length [THEN conjunct1]
lemmas mset_siftup = siftup_mset_length [THEN conjunct2]

lemma mset_heappush: "mset (heappush lt h x) = add_mset x (mset h)"
  by (simp add: heappush_def mset_siftdown)

lemma length_heappush [simp]: "length (heappush lt h x) = Suc (length h)"
  by (simp add: heappush_def)

lemma set_heappush: "set (heappush lt h x) = insert x (set h)"
  using arg_cong [OF mset_heappush, of set_mset] by simp

lemma heappush_not_Nil [simp]: "heappush lt h x \<noteq> []"
  using length_heappush [of lt h x] by (metis list.size(3) nat.distinct(1))

lemma mset_butlast_hole:
  "butlast h \<noteq> [] \<Longrightarrow> add_mset (butlast h ! 0) (mset ((butlast h)[0 := last h])) = mset h"
proof -
  assume ne: "butlast h \<noteq> []"
  then have "mset h = add_mset (last h) (mset (butlast h))"
    by (metis append_butlast_last_id butlast.simps(1) mset.simps(1,2) mset_append
        add_mset_add_single)
  moreover have "0 < length (butlast h)" using ne by (rule length_greater_0_conv [THEN iffD2])
  ultimately show ?thesis
    by (simp only: mset_update_add)
qed

lemma heappop_cases:
  assumes "heappop lt h = Inr (x, h')"
  shows "h \<noteq> []" and "mset h = add_mset x (mset h')" and "x = h ! 0"
proof -
  show ne: "h \<noteq> []" using assms by (auto simp: heappop_def)
  show "mset h = add_mset x (mset h')"
  proof (cases "butlast h = []")
    case True
    with ne have "h = [last h]" by (metis append_butlast_last_id append_Nil)
    with assms ne True show ?thesis by (auto simp: heappop_def Let_def)
  next
    case False
    with assms ne have x: "x = butlast h ! 0" and h': "h' = siftup lt ((butlast h)[0 := last h]) 0"
      by (auto simp: heappop_def Let_def)
    have "mset h' = mset ((butlast h)[0 := last h])"
      using False unfolding h' by (intro mset_siftup) (metis length_list_update length_greater_0_conv)
    then show ?thesis using mset_butlast_hole [OF False] x by simp
  qed
  show "x = h ! 0"
  proof (cases "butlast h = []")
    case True
    with ne have "h = [last h]" by (metis append_butlast_last_id append_Nil)
    then show ?thesis using assms ne True by (auto simp: heappop_def Let_def)
  next
    case False
    then have "butlast h ! 0 = h ! 0"
      by (intro nth_butlast) (metis length_greater_0_conv)
    with False show ?thesis using assms ne by (auto simp: heappop_def Let_def)
  qed
qed

lemma heappop_Inr: "h \<noteq> [] \<Longrightarrow> \<exists>x h'. heappop lt h = Inr (x, h')"
  by (auto simp: heappop_def Let_def)

lemma length_heappop: "heappop lt h = Inr (x, h') \<Longrightarrow> length h = Suc (length h')"
  by (drule heappop_cases(2)) (metis size_add_mset size_mset)

section \<open>The heap property\<close>

text \<open>
  \<open>hole_inv h p\<close>: the array is a heap except at the hole \<open>p\<close>, whose content does not count,
  and the hole's parent is no larger than the hole's children. Both loops move the hole and
  keep this; \<^verbatim>\<open>_siftdown\<close> moreover keeps that the new item is no larger than the children.
\<close>

definition hole_inv :: "('a \<Rightarrow> 'a \<Rightarrow> bool) \<Rightarrow> 'a list \<Rightarrow> nat \<Rightarrow> bool" where
  "hole_inv lt h p \<longleftrightarrow>
     (\<forall>i < length h. 0 < i \<longrightarrow> i \<noteq> p \<longrightarrow> parent i \<noteq> p \<longrightarrow> \<not> lt (h ! i) (h ! parent i)) \<and>
     (\<forall>i < length h. 0 < i \<longrightarrow> parent i = p \<longrightarrow> 0 < p \<longrightarrow> \<not> lt (h ! i) (h ! parent p))"

definition above_children :: "('a \<Rightarrow> 'a \<Rightarrow> bool) \<Rightarrow> 'a list \<Rightarrow> nat \<Rightarrow> 'a \<Rightarrow> bool" where
  "above_children lt h p x \<longleftrightarrow> (\<forall>i < length h. 0 < i \<longrightarrow> parent i = p \<longrightarrow> \<not> lt (h ! i) x)"

locale weak_order =
  fixes lt :: "'a \<Rightarrow> 'a \<Rightarrow> bool"
  assumes asym: "lt a b \<Longrightarrow> \<not> lt b a"
    and neg_trans: "\<not> lt b a \<Longrightarrow> \<not> lt c b \<Longrightarrow> \<not> lt c a"
begin

lemma irrefl: "\<not> lt a a"
  using asym by blast

lemma hole_fill:
  assumes "hole_inv lt h p" and "above_children lt h p x" and "p < length h"
    and "p = 0 \<or> \<not> lt x (h ! parent p)"
  shows "is_heap lt (h[p := x])"
  unfolding is_heap_def
proof (intro allI impI)
  fix i assume i: "i < length (h[p := x])" "0 < i"
  have "parent i \<noteq> i" using i parent_less [of i] by simp
  then show "\<not> lt (h[p := x] ! i) (h[p := x] ! parent i)"
    using assms i unfolding hole_inv_def above_children_def
    by (cases "i = p"; cases "parent i = p") auto
qed

lemma hole_up:
  assumes h: "hole_inv lt h p" "above_children lt h p x" "p < length h" "0 < p"
    and lt: "lt x (h ! parent p)"
  shows "hole_inv lt (h[p := h ! parent p]) (parent p)"
    and "above_children lt (h[p := h ! parent p]) (parent p) x"
proof -
  let ?q = "parent p" and ?h = "h[p := h ! parent p]"
  have q: "?q < p" using h(4) by (rule parent_less)
  have qq: "\<not> lt (h ! ?q) (h ! parent ?q)" if "0 < ?q"
    using that h q parent_less [of ?q] unfolding hole_inv_def by auto
  have child: "\<not> lt (h ! i) (h ! ?q)" if "i < length h" "0 < i" "parent i = ?q" "i \<noteq> p" for i
    using that h q unfolding hole_inv_def by auto
  show "hole_inv lt ?h ?q"
    unfolding hole_inv_def
  proof (intro conjI allI impI)
    fix i assume i: "i < length ?h" "0 < i" "i \<noteq> ?q" "parent i \<noteq> ?q"
    then have "i \<noteq> p" by auto
    then show "\<not> lt (?h ! i) (?h ! parent i)"
      using i h unfolding hole_inv_def by (cases "parent i = p") auto
  next
    fix i assume i: "i < length ?h" "0 < i" "parent i = ?q" "0 < ?q"
    have "parent ?q \<noteq> p" using q parent_less [OF i(4)] by simp
    moreover have "\<not> lt (?h ! i) (h ! parent ?q)"
      using i qq child [of i] neg_trans [OF qq] by (cases "i = p") auto
    ultimately show "\<not> lt (?h ! i) (?h ! parent ?q)" by simp
  qed
  show "above_children lt ?h ?q x"
    unfolding above_children_def
  proof (intro allI impI)
    fix i assume i: "i < length ?h" "0 < i" "parent i = ?q"
    have "\<not> lt (h ! ?q) x" using lt by (rule asym)
    then show "\<not> lt (?h ! i) x"
      using i h(3) child [of i] neg_trans by (cases "i = p") auto
  qed
qed

lemma siftdown_loop_heap:
  "hole_inv lt h p \<Longrightarrow> above_children lt h p x \<Longrightarrow> p < length h \<Longrightarrow>
     is_heap lt (siftdown_loop lt h 0 p x)"
proof (induction p arbitrary: h rule: less_induct)
  case (less p)
  show ?case
  proof (cases "0 < p \<and> lt x (h ! parent p)")
    case True
    with less hole_up [of h p x] parent_less [of p] show ?thesis
      by (subst siftdown_loop.simps) simp
  next
    case False
    with less hole_fill [of h p x] show ?thesis
      by (subst siftdown_loop.simps) auto
  qed
qed

lemma hole_down:
  assumes h: "hole_inv lt h p" and c: "2 * p + 1 < length h"
  shows "hole_inv lt (h[p := h ! smaller_child lt h p]) (smaller_child lt h p)"
proof -
  let ?c = "smaller_child lt h p" and ?h = "h[p := h ! smaller_child lt h p]"
  note sc = smaller_child_cases [OF c, of lt]
  have min: "\<not> lt (h ! i) (h ! ?c)" if "i < length h" "0 < i" "parent i = p" for i
    using that parent_children [OF that(1,2), of p] irrefl
    by (auto simp: smaller_child_def Let_def dest: asym split: if_splits)
  have below: "\<not> lt (h ! i) (h ! ?c)" if "i < length h" "0 < i" "parent i = ?c" for i
    using that h sc parent_less [of i] unfolding hole_inv_def by auto
  show ?thesis
    unfolding hole_inv_def
  proof (intro conjI allI impI)
    fix i assume i: "i < length ?h" "0 < i" "i \<noteq> ?c" "parent i \<noteq> ?c"
    have "\<not> lt (h ! ?c) (h ! parent p)" if "0 < p"
      using h sc that unfolding hole_inv_def by auto
    then show "\<not> lt (?h ! i) (?h ! parent i)"
      using i h min [of i] sc parent_less [of i] unfolding hole_inv_def
      by (cases "i = p"; cases "parent i = p") auto
  next
    fix i assume "i < length ?h" "0 < i" "parent i = ?c" "0 < ?c"
    then show "\<not> lt (?h ! i) (?h ! parent ?c)"
      using below [of i] sc parent_less [of i] by auto
  qed
qed

lemma siftup_loop_hole:
  "hole_inv lt h p \<Longrightarrow> siftup_loop lt h p = (h', q) \<Longrightarrow> hole_inv lt h' q"
proof (induction "length h - p" arbitrary: h p rule: less_induct)
  case less
  show ?case
  proof (cases "2 * p + 1 < length h")
    case True
    let ?c = "smaller_child lt h p"
    have "siftup_loop lt (h[p := h ! ?c]) ?c = (h', q)"
      using less.prems(2) True by (subst (asm) siftup_loop.simps) simp
    moreover have "length (h[p := h ! ?c]) - ?c < length h - p"
      using smaller_child_cases [OF True, of lt] by simp
    ultimately show ?thesis
      using less.hyps hole_down [OF less.prems(1) True] by blast
  next
    case False
    with less.prems show ?thesis by (auto simp: siftup_loop.simps [of lt h p])
  qed
qed

lemma siftup_heap:
  assumes "hole_inv lt h 0" "h \<noteq> []"
  shows "is_heap lt (siftup lt h 0)"
proof -
  have 0: "0 < length h" using assms(2) by simp
  obtain h' q where e: "siftup_loop lt h 0 = (h', q)" by force
  note shape = siftup_loop_shape [OF 0 e]
  have leaf: "\<not> (i < length h' \<and> 0 < i \<and> parent i = q)" for i
    using shape parent_children [of i h' q] by auto
  let ?h = "h'[q := h ! 0]"
  have "hole_inv lt ?h q"
    using siftup_loop_hole [OF assms(1) e] leaf parent_less unfolding hole_inv_def
    by (auto simp: nth_list_update)
  moreover have "above_children lt ?h q (h ! 0)"
    using leaf unfolding above_children_def by auto
  ultimately show ?thesis
    using shape by (simp add: siftup_def e siftdown_def siftdown_loop_heap)
qed

lemma heappush_heap:
  assumes "is_heap lt h"
  shows "is_heap lt (heappush lt h x)"
proof -
  let ?h = "h @ [x]" and ?n = "length h"
  have "\<not> lt (?h ! i) (?h ! parent i)" if "i < ?n" "0 < i" for i
    using assms that parent_less [of i] by (simp add: is_heap_def nth_append)
  moreover have "parent i \<noteq> ?n" if "i < length ?h" "0 < i" for i
    using that parent_less [of i] by auto
  ultimately have "hole_inv lt ?h ?n" and "above_children lt ?h ?n x"
    unfolding hole_inv_def above_children_def by (auto simp: less_Suc_eq)
  then show ?thesis
    by (simp add: heappush_def siftdown_def siftdown_loop_heap)
qed

lemma is_heap_butlast:
  assumes "is_heap lt h"
  shows "is_heap lt (butlast h)"
  unfolding is_heap_def
proof (intro allI impI)
  fix i assume i: "i < length (butlast h)" "0 < i"
  then have "parent i < length (butlast h)" using parent_less [of i] by simp
  with i assms show "\<not> lt (butlast h ! i) (butlast h ! parent i)"
    by (simp add: nth_butlast is_heap_def del: length_butlast) simp
qed

lemma heappop_heap:
  assumes "is_heap lt h" and "heappop lt h = Inr (x, h')"
  shows "is_heap lt h'"
proof (cases "butlast h = []")
  case True
  with assms(2) show ?thesis by (auto simp: heappop_def is_heap_def split: if_splits)
next
  case False
  let ?r = "(butlast h)[0 := last h]"
  have "hole_inv lt ?r 0"
    using is_heap_butlast [OF assms(1)] unfolding hole_inv_def is_heap_def by auto
  then have "is_heap lt (siftup lt ?r 0)"
    using False by (intro siftup_heap) auto
  moreover have "h' = siftup lt ?r 0"
    using assms(2) False by (auto simp: heappop_def Let_def split: if_splits)
  ultimately show ?thesis by simp
qed

lemma heap_root_min: "is_heap lt h \<Longrightarrow> i < length h \<Longrightarrow> \<not> lt (h ! i) (h ! 0)"
proof (induction i rule: less_induct)
  case (less i)
  show ?case
  proof (cases "i = 0")
    case True
    then show ?thesis by (simp add: irrefl)
  next
    case False
    with less parent_less [of i] have "\<not> lt (h ! parent i) (h ! 0)" "\<not> lt (h ! i) (h ! parent i)"
      by (auto simp: is_heap_def)
    then show ?thesis by (rule neg_trans)
  qed
qed

lemma heappop_min:
  assumes "is_heap lt h" and "heappop lt h = Inr (x, h')" and "y \<in> set h"
  shows "\<not> lt y x"
  using heap_root_min [OF assms(1)] heappop_cases(3) [OF assms(2)] assms(3)
  by (auto simp: in_set_conv_nth)

end

end
