(* ===== verification/QueueSpec.thy ===== *)
theory QueueSpec
  imports Py_Prelude
begin

text \<open>
  The contract a shortest-job-first queue offers the schedulers, as the locale
  \<open>job_queue\<close>: its abstract state is the multiset \<open>live\<close> of the jobs that can still be handed
  out, \<open>known\<close> the ids it still remembers (a cancelled job is remembered until it is purged).
  The client-side consequences (what draining the queue yields, what a cancelled job can do)
  are proved once from the contract; theory \<open>PriorityQueue\<close> discharges it for the code.
\<close>

section \<open>Draining\<close>

text \<open>
  Dequeue until the queue reports nothing, at most \<open>n\<close> times. With \<open>n\<close> at least the number
  of live jobs the bound is not reached (\<open>drain_exhausts\<close>).
\<close>

fun drain :: "('q \<Rightarrow> 'i option \<times> 'q) \<Rightarrow> nat \<Rightarrow> 'q \<Rightarrow> 'i list \<times> 'q" where
  "drain deq 0 q = ([], q)"
| "drain deq (Suc n) q =
     (case deq q of
        (None, q') \<Rightarrow> ([], q')
      | (Some it, q') \<Rightarrow> (case drain deq n q' of (its, q'') \<Rightarrow> (it # its, q'')))"

locale drainable =
  fixes inv :: "'q \<Rightarrow> bool"
    and live :: "'q \<Rightarrow> 'i multiset"
    and lt :: "'i \<Rightarrow> 'i \<Rightarrow> bool"
    and deq :: "'q \<Rightarrow> 'i option \<times> 'q"
  assumes deq_inv: "inv q \<Longrightarrow> inv (snd (deq q))"
    and deq_None: "inv q \<Longrightarrow> deq q = (None, q') \<Longrightarrow> live q = {#} \<and> live q' = {#}"
    and deq_Some: "inv q \<Longrightarrow> deq q = (Some it, q') \<Longrightarrow>
          live q = add_mset it (live q') \<and> (\<forall>y \<in># live q. \<not> lt y it)"
begin

lemma deq_Some_inv: "inv q \<Longrightarrow> deq q = (Some it, q') \<Longrightarrow> inv q'"
  using deq_inv [of q] by simp

lemma drain_exhausts:
  assumes "inv q" and "size (live q) \<le> n"
  shows "mset (fst (drain deq n q)) = live q \<and> live (snd (drain deq n q)) = {#}
     \<and> sorted_wrt (\<lambda>a b. \<not> lt b a) (fst (drain deq n q))"
  using assms
proof (induction n arbitrary: q)
  case 0
  then show ?case by simp
next
  case (Suc n)
  obtain r q' where d: "deq q = (r, q')" by force
  show ?case
  proof (cases r)
    case None
    with d deq_None [OF Suc.prems(1)] show ?thesis by simp
  next
    case (Some it)
    note s = deq_Some [OF Suc.prems(1) d [unfolded Some]]
    have "inv q'" "size (live q') \<le> n"
      using deq_Some_inv [OF Suc.prems(1) d [unfolded Some]] s Suc.prems(2) by simp_all
    note IH = Suc.IH [OF this]
    have "set (fst (drain deq n q')) = set_mset (live q')"
      using IH by (metis set_mset_mset)
    with IH s d Some show ?thesis by (auto split: prod.splits)
  qed
qed

lemma drained_live: "inv q \<Longrightarrow> set (fst (drain deq n q)) \<subseteq> set_mset (live q)"
proof (induction n arbitrary: q)
  case 0
  then show ?case by simp
next
  case (Suc n)
  then show ?case
    using deq_Some [of q] deq_Some_inv [of q] by (fastforce split: prod.splits option.splits)
qed

end

text \<open>The full contract: fresh jobs may be added, and an id may be cancelled.\<close>

locale job_queue = drainable inv live lt deq
  for inv :: "'q \<Rightarrow> bool"
    and live :: "'q \<Rightarrow> 'i multiset"
    and lt :: "'i \<Rightarrow> 'i \<Rightarrow> bool"
    and deq :: "'q \<Rightarrow> 'i option \<times> 'q" +
  fixes known :: "'q \<Rightarrow> string set"
    and ident :: "'i \<Rightarrow> string"
    and enq :: "'i \<Rightarrow> 'q \<Rightarrow> 'q"
    and cancel :: "string \<Rightarrow> 'q \<Rightarrow> bool \<times> 'q"
  assumes live_known: "inv q \<Longrightarrow> it \<in># live q \<Longrightarrow> ident it \<in> known q"
    and enq_ok: "inv q \<Longrightarrow> ident it \<notin> known q \<Longrightarrow>
          inv (enq it q) \<and> live (enq it q) = add_mset it (live q)"
    and cancel_ok: "inv q \<Longrightarrow> inv (snd (cancel k q)) \<and>
          live (snd (cancel k q)) = filter_mset (\<lambda>it. ident it \<noteq> k) (live q)"
begin

lemma enq_drained:
  assumes "inv q" and "ident it \<notin> known q" and "size (live q) < n"
  shows "mset (fst (drain deq n (enq it q))) = add_mset it (mset (fst (drain deq n q)))"
  using drain_exhausts [of "enq it q" n] drain_exhausts [of q n] enq_ok [of q it] assms by simp

lemma cancelled_not_drained:
  assumes "inv q" and "it \<in> set (fst (drain deq n (snd (cancel k q))))"
  shows "ident it \<noteq> k"
  using assms drained_live [of "snd (cancel k q)" n] cancel_ok [OF assms(1), of k] by fastforce

end

end
