(* ===== verification/PriorityQueue.thy ===== *)
theory PriorityQueue
  imports Py_Heapq QueueSpec
begin

text \<open>
  The asynchronous priority queue of \<^verbatim>\<open>python/scheduler/priority_queue.py\<close>. Every operation
  of the class holds the queue's lock from its first to its last statement and suspends only
  inside \<^verbatim>\<open>Condition.wait\<close>, so each operation is one atomic function on the state; the
  suspension of \<^verbatim>\<open>dequeue\<close> is the result \<open>DqWait\<close> (the waiting tasks themselves are in
  theory \<open>QueueWaiters\<close>). Readings of \<^verbatim>\<open>time.monotonic()\<close> are arguments.
\<close>

section \<open>Data\<close>

record 'p pitem =
  pi_priority :: real
  pi_enqueue_time :: real
  pi_request_id :: string
  pi_payload :: 'p

text \<open>\<^verbatim>\<open>@dataclass(order=True)\<close>: the comparable fields as a tuple, lexicographically.\<close>

definition pitem_lt :: "'p pitem \<Rightarrow> 'p pitem \<Rightarrow> bool" where
  "pitem_lt a b \<longleftrightarrow>
     pi_priority a < pi_priority b \<or>
     (pi_priority a = pi_priority b \<and> pi_enqueue_time a < pi_enqueue_time b)"

record pq_stats_rec =
  qs_depth :: nat
  qs_total_enqueued :: nat
  qs_total_dequeued :: nat
  qs_total_cancelled :: nat
  qs_avg_wait_ms :: real
  qs_max_wait_ms :: real

record 'p pqueue =
  pq_heap :: "'p pitem list"
  pq_cancelled :: "string set"
  pq_pending :: "(string, 'p pitem) dict"
  pq_total_enqueued :: nat
  pq_total_dequeued :: nat
  pq_total_cancelled :: nat
  pq_wait_times :: "real list"

section \<open>Operations\<close>

definition pq_init :: "'p pqueue" where
  "pq_init = \<lparr>pq_heap = [], pq_cancelled = {}, pq_pending = [], pq_total_enqueued = 0,
     pq_total_dequeued = 0, pq_total_cancelled = 0, pq_wait_times = []\<rparr>"

definition pq_enqueue :: "real \<Rightarrow> string \<Rightarrow> real \<Rightarrow> 'p \<Rightarrow> 'p pqueue \<Rightarrow> 'p pqueue" where
  "pq_enqueue now rid prio pl q =
     (let item = \<lparr>pi_priority = prio, pi_enqueue_time = now, pi_request_id = rid, pi_payload = pl\<rparr>
      in q\<lparr>pq_heap := heappush pitem_lt (pq_heap q) item,
           pq_pending := dict_set rid item (pq_pending q),
           pq_total_enqueued := pq_total_enqueued q + 1\<rparr>)"

text \<open>The wait-time window: append, then keep the last 5000 once there are more than 10000.\<close>

definition push_wait :: "real list \<Rightarrow> real \<Rightarrow> real list" where
  "push_wait ws w =
     (let ws' = ws @ [w] in if 10000 < length ws' then drop (length ws' - 5000) ws' else ws')"

text \<open>
  The inner loop \<^verbatim>\<open>while self._heap\<close> of \<^verbatim>\<open>dequeue\<close>: entries whose id is cancelled are
  dropped, the first other entry is taken.
\<close>

definition drop_cancelled :: "'p pitem \<Rightarrow> 'p pitem list \<Rightarrow> 'p pqueue \<Rightarrow> 'p pqueue" where
  "drop_cancelled item h q =
     q\<lparr>pq_heap := h, pq_cancelled := pq_cancelled q - {pi_request_id item},
       pq_pending := dict_pop (pi_request_id item) (pq_pending q),
       pq_total_cancelled := pq_total_cancelled q + 1\<rparr>"

definition take_item :: "real \<Rightarrow> 'p pitem \<Rightarrow> 'p pitem list \<Rightarrow> 'p pqueue \<Rightarrow> 'p pqueue" where
  "take_item now item h q =
     q\<lparr>pq_heap := h,
       pq_wait_times := push_wait (pq_wait_times q) ((now - pi_enqueue_time item) * 1000),
       pq_pending := dict_pop (pi_request_id item) (pq_pending q),
       pq_total_dequeued := pq_total_dequeued q + 1\<rparr>"

lemma pq_heap_drop_cancelled [simp]: "pq_heap (drop_cancelled item h q) = h"
  by (simp add: drop_cancelled_def)

lemma pq_heap_take_item [simp]: "pq_heap (take_item now item h q) = h"
  by (simp add: take_item_def)

function dequeue_loop :: "real \<Rightarrow> 'p pqueue \<Rightarrow> 'p pitem option \<times> 'p pqueue" where
  "dequeue_loop now q =
     (case heappop pitem_lt (pq_heap q) of
        Inl e \<Rightarrow> (None, q)
      | Inr (item, h) \<Rightarrow>
          if pi_request_id item \<in> pq_cancelled q
          then dequeue_loop now (drop_cancelled item h q)
          else (Some item, take_item now item h q))"
  by pat_completeness auto
termination
  by (relation "measure (\<lambda>(now, q). length (pq_heap q))") (auto dest: length_heappop)

declare dequeue_loop.simps [simp del]

datatype 'p dq_result = DqItem "'p pitem" | DqTimeout | DqWait "real option"

text \<open>\<^verbatim>\<open>deadline = time.monotonic() + timeout if timeout else None\<close>.\<close>

definition dq_deadline :: "real \<Rightarrow> real option \<Rightarrow> real option" where
  "dq_deadline t0 timeout =
     (case timeout of None \<Rightarrow> None | Some t \<Rightarrow> if t \<noteq> 0 then Some (t0 + t) else None)"

text \<open>
  One iteration of the outer \<^verbatim>\<open>while True\<close> of \<^verbatim>\<open>dequeue\<close>: \<open>now\<close> is the clock at the
  returned item, \<open>t1\<close> and \<open>t2\<close> the readings of the two deadline tests. \<open>DqWait\<close> is the
  suspension on the condition, with the time limit it waits under.
\<close>

definition dequeue_iter ::
  "real \<Rightarrow> real \<Rightarrow> real \<Rightarrow> real option \<Rightarrow> 'p pqueue \<Rightarrow> 'p dq_result \<times> 'p pqueue" where
  "dequeue_iter now t1 t2 deadline q =
     (case dequeue_loop now q of
        (Some item, q') \<Rightarrow> (DqItem item, q')
      | (None, q') \<Rightarrow>
          (case deadline of
             None \<Rightarrow> (DqWait None, q')
           | Some d \<Rightarrow>
               if d \<noteq> 0 \<and> d \<le> t1 then (DqTimeout, q')
               else if d - t2 \<le> 0 then (DqTimeout, q')
               else (DqWait (Some (d - t2)), q')))"

definition pq_cancel :: "string \<Rightarrow> 'p pqueue \<Rightarrow> bool \<times> 'p pqueue" where
  "pq_cancel rid q =
     (if dict_get (pq_pending q) rid \<noteq> None
      then (True, q\<lparr>pq_cancelled := insert rid (pq_cancelled q)\<rparr>)
      else (False, q))"

definition pq_update_priority :: "string \<Rightarrow> real \<Rightarrow> 'p pqueue \<Rightarrow> bool \<times> 'p pqueue" where
  "pq_update_priority rid new_priority q =
     (case dict_get (pq_pending q) rid of
        None \<Rightarrow> (False, q)
      | Some item \<Rightarrow>
          (let c = insert rid (pq_cancelled q);
               new_item = \<lparr>pi_priority = new_priority, pi_enqueue_time = pi_enqueue_time item,
                           pi_request_id = rid, pi_payload = pi_payload item\<rparr>
           in (True, q\<lparr>pq_heap := heappush pitem_lt (pq_heap q) new_item,
                       pq_pending := dict_set rid new_item (pq_pending q),
                       pq_cancelled := c - {rid}\<rparr>)))"

definition pq_stats :: "'p pqueue \<Rightarrow> pq_stats_rec" where
  "pq_stats q =
     (let waits = pq_wait_times q
      in \<lparr>qs_depth = length (pq_heap q),
          qs_total_enqueued = pq_total_enqueued q,
          qs_total_dequeued = pq_total_dequeued q,
          qs_total_cancelled = pq_total_cancelled q,
          qs_avg_wait_ms = (if waits \<noteq> [] then sum_list waits / real (length waits) else 0),
          qs_max_wait_ms = (case waits of [] \<Rightarrow> 0 | w # ws \<Rightarrow> fold max ws w)\<rparr>)"

definition pq_depth :: "'p pqueue \<Rightarrow> nat" where
  "pq_depth q = length (pq_heap q)"

section \<open>The order of the entries\<close>

interpretation item_heap: weak_order pitem_lt
  by unfold_locales (auto simp: pitem_lt_def)

lemmas heap_facts =
  item_heap.heappush_heap item_heap.heappop_heap mset_heappush set_heappush

section \<open>The invariant of every queue\<close>

text \<open>
  What holds after any sequence of operations, priority updates included: the array is a heap,
  every pending entry is in it under its own id, only pending ids are marked cancelled, and the
  window of wait times is bounded.
\<close>

definition pq_safe :: "'p pqueue \<Rightarrow> bool" where
  "pq_safe q \<longleftrightarrow>
     is_heap pitem_lt (pq_heap q) \<and> dict_wf (pq_pending q) \<and>
     (\<forall>k it. dict_get (pq_pending q) k = Some it \<longrightarrow> it \<in> set (pq_heap q) \<and> pi_request_id it = k) \<and>
     (\<forall>k \<in> pq_cancelled q. dict_get (pq_pending q) k \<noteq> None) \<and>
     length (pq_wait_times q) \<le> 10000"

lemma length_push_wait: "length ws \<le> 10000 \<Longrightarrow> length (push_wait ws w) \<le> 10000"
  by (simp add: push_wait_def Let_def)

lemma pq_safe_init [inv_intros, simp]: "pq_safe pq_init"
  by (simp add: pq_safe_def pq_init_def is_heap_def)

lemma pq_safe_enqueue [inv_intros]: "pq_safe q \<Longrightarrow> pq_safe (pq_enqueue now rid prio pl q)"
  by (auto simp: pq_safe_def pq_enqueue_def Let_def heap_facts dict_simps)

lemma pq_safe_cancel [inv_intros]: "pq_safe q \<Longrightarrow> pq_safe (snd (pq_cancel rid q))"
  by (auto simp: pq_safe_def pq_cancel_def)

lemma pq_safe_update_priority [inv_intros]:
  "pq_safe q \<Longrightarrow> pq_safe (snd (pq_update_priority rid p q))"
  by (auto simp: pq_safe_def pq_update_priority_def Let_def heap_facts dict_simps split: option.splits)

lemma heappop_pending:
  assumes "heappop pitem_lt (pq_heap q) = Inr (item, h)"
    and "dict_get (pq_pending q) k = Some it" and "k \<noteq> pi_request_id item" and "pq_safe q"
  shows "it \<in> set h \<and> pi_request_id it = k"
proof -
  have "it \<in># mset (pq_heap q)" "pi_request_id it = k"
    using assms(2,4) by (auto simp: pq_safe_def)
  with heappop_cases(2) [OF assms(1)] assms(3) show ?thesis by auto
qed

lemma pq_safe_drop_cancelled:
  assumes "heappop pitem_lt (pq_heap q) = Inr (item, h)" and "pq_safe q"
  shows "pq_safe (drop_cancelled item h q)"
  using assms(2) heappop_pending [OF assms(1) _ _ assms(2)] item_heap.heappop_heap [OF _ assms(1)]
  by (auto simp: pq_safe_def drop_cancelled_def dict_simps)

lemma pq_safe_take_item:
  assumes "heappop pitem_lt (pq_heap q) = Inr (item, h)" and "pq_safe q"
    and "pi_request_id item \<notin> pq_cancelled q"
  shows "pq_safe (take_item now item h q)"
  using assms(2,3) heappop_pending [OF assms(1) _ _ assms(2)] item_heap.heappop_heap [OF _ assms(1)]
  by (auto simp: pq_safe_def take_item_def dict_simps length_push_wait)

text \<open>The three ways an iteration of the inner loop can go, as an induction rule.\<close>

lemma dequeue_loop_unfold:
  "pq_heap q = [] \<Longrightarrow> dequeue_loop now q = (None, q)"
  "heappop pitem_lt (pq_heap q) = Inr (item, h) \<Longrightarrow> pi_request_id item \<in> pq_cancelled q \<Longrightarrow>
     dequeue_loop now q = dequeue_loop now (drop_cancelled item h q)"
  "heappop pitem_lt (pq_heap q) = Inr (item, h) \<Longrightarrow> pi_request_id item \<notin> pq_cancelled q \<Longrightarrow>
     dequeue_loop now q = (Some item, take_item now item h q)"
  by (simp_all add: dequeue_loop.simps [of now q]) (simp add: heappop_def)

lemma dequeue_loop_rule [consumes 1, case_names Empty Cancelled Taken]:
  assumes "dequeue_loop now q = (r, q')"
    and Empty: "\<And>q. pq_heap q = [] \<Longrightarrow> P q None q"
    and Cancelled: "\<And>q item h r q'. heappop pitem_lt (pq_heap q) = Inr (item, h) \<Longrightarrow>
      pi_request_id item \<in> pq_cancelled q \<Longrightarrow> P (drop_cancelled item h q) r q' \<Longrightarrow> P q r q'"
    and Taken: "\<And>q item h. heappop pitem_lt (pq_heap q) = Inr (item, h) \<Longrightarrow>
      pi_request_id item \<notin> pq_cancelled q \<Longrightarrow> P q (Some item) (take_item now item h q)"
  shows "P q r q'"
  using assms(1)
proof (induction "length (pq_heap q)" arbitrary: q rule: less_induct)
  case less
  show ?case
  proof (cases "pq_heap q = []")
    case True
    with less.prems Empty show ?thesis by (simp add: dequeue_loop_unfold)
  next
    case False
    then obtain item h where pop: "heappop pitem_lt (pq_heap q) = Inr (item, h)"
      using heappop_Inr by blast
    then have "length h < length (pq_heap q)" by (simp add: length_heappop)
    with less pop Taken Cancelled show ?thesis
      by (cases "pi_request_id item \<in> pq_cancelled q") (auto simp: dequeue_loop_unfold)
  qed
qed

lemma pq_safe_dequeue_loop [inv_intros]: "pq_safe q \<Longrightarrow> pq_safe (snd (dequeue_loop now q))"
proof -
  obtain r q' where e: "dequeue_loop now q = (r, q')" by force
  from e have "pq_safe q \<longrightarrow> pq_safe q'"
    by (induction rule: dequeue_loop_rule) (blast intro: pq_safe_drop_cancelled pq_safe_take_item)+
  with e show "pq_safe q \<Longrightarrow> pq_safe (snd (dequeue_loop now q))" by simp
qed

lemma pq_safe_dequeue_iter [inv_intros]:
  "pq_safe q \<Longrightarrow> pq_safe (snd (dequeue_iter now t1 t2 d q))"
  using pq_safe_dequeue_loop [of q now]
  by (auto simp: dequeue_iter_def split: prod.splits option.splits)

section \<open>Queues without priority updates: unique entries\<close>

text \<open>
  While no priority is updated and enqueued ids are fresh, every id has one entry: the
  pending dictionary and the heap hold the same entries, and the counters account for all of
  them. The abstract state is the multiset of \<open>live\<close> entries, those not marked cancelled.
\<close>

definition pq_live :: "'p pqueue \<Rightarrow> 'p pitem multiset" where
  "pq_live q = filter_mset (\<lambda>it. pi_request_id it \<notin> pq_cancelled q) (mset (pq_heap q))"

definition pq_ids :: "'p pqueue \<Rightarrow> string set" where
  "pq_ids q = pi_request_id ` set (pq_heap q)"

definition pq_ok :: "'p pqueue \<Rightarrow> bool" where
  "pq_ok q \<longleftrightarrow>
     pq_safe q \<and> inj_on pi_request_id (set (pq_heap q)) \<and> distinct (pq_heap q) \<and>
     (\<forall>it \<in> set (pq_heap q). dict_get (pq_pending q) (pi_request_id it) = Some it) \<and>
     pq_total_enqueued q = pq_total_dequeued q + pq_total_cancelled q + length (pq_heap q)"

lemma pq_ok_safe: "pq_ok q \<Longrightarrow> pq_safe q"
  by (simp add: pq_ok_def)

lemma pq_ok_init [inv_intros, simp]: "pq_ok pq_init"
  by (simp add: pq_ok_def) (simp add: pq_init_def)

lemma pq_ok_enqueue [inv_intros]:
  assumes "pq_ok q" and "rid \<notin> pq_ids q"
  shows "pq_ok (pq_enqueue now rid prio pl q)"
proof -
  let ?it = "\<lparr>pi_priority = prio, pi_enqueue_time = now, pi_request_id = rid, pi_payload = pl\<rparr>"
  let ?h = "heappush pitem_lt (pq_heap q) ?it"
  have new: "?it \<notin> set (pq_heap q)" using assms(2) by (force simp: pq_ids_def)
  then have "distinct ?h"
    using assms(1) by (metis distinct.simps(2) mset.simps(2) mset_eq_imp_distinct_iff
        mset_heappush pq_ok_def)
  with assms new show ?thesis
    using pq_safe_enqueue [OF pq_ok_safe [OF assms(1)], of now rid prio pl]
    by (auto simp: pq_ok_def pq_ids_def pq_enqueue_def Let_def heap_facts dict_simps inj_on_def)
qed

lemma pq_ok_cancel [inv_intros]: "pq_ok q \<Longrightarrow> pq_ok (snd (pq_cancel rid q))"
  using pq_safe_cancel [of q rid] by (auto simp: pq_ok_def pq_cancel_def)

lemma heappop_distinct:
  assumes "heappop pitem_lt (pq_heap q) = Inr (item, h)" and "pq_ok q"
  shows "distinct h" and "inj_on pi_request_id (set h)" and "set h = set (pq_heap q) - {item}"
    and "item \<in> set (pq_heap q)" and "\<And>it. it \<in> set h \<Longrightarrow> pi_request_id it \<noteq> pi_request_id item"
proof -
  note m = heappop_cases(2) [OF assms(1)]
  have s: "set (pq_heap q) = insert item (set h)"
    using arg_cong [OF m, of set_mset] by simp
  have "distinct (item # h)"
    using m assms(2) by (metis mset.simps(2) mset_eq_imp_distinct_iff pq_ok_def)
  with s show "distinct h" "set h = set (pq_heap q) - {item}" "item \<in> set (pq_heap q)" by auto
  show "inj_on pi_request_id (set h)"
    using assms(2) s by (auto simp: pq_ok_def)
  show "pi_request_id it \<noteq> pi_request_id item" if "it \<in> set h" for it
    using that assms(2) s \<open>distinct (item # h)\<close> by (auto simp: pq_ok_def inj_on_def)
qed

lemma pq_ok_pop:
  assumes pop: "heappop pitem_lt (pq_heap q) = Inr (item, h)" and "pq_ok q"
  shows "pq_ok (drop_cancelled item h q)"
    and "pi_request_id item \<notin> pq_cancelled q \<Longrightarrow> pq_ok (take_item now item h q)"
proof -
  note d = heappop_distinct [OF assms] and s = pq_ok_safe [OF assms(2)]
  have other: "dict_get (pq_pending q) (pi_request_id it) = Some it \<and> pi_request_id it \<noteq> pi_request_id item"
    if "it \<in> set h" for it
    using that d(3) d(5) [OF that] assms(2) by (simp add: pq_ok_def)
  have len: "pq_total_enqueued q = pq_total_dequeued q + pq_total_cancelled q + Suc (length h)"
    using assms(2) length_heappop [OF pop] by (simp add: pq_ok_def)
  show "pq_ok (drop_cancelled item h q)"
    unfolding pq_ok_def using pq_safe_drop_cancelled [OF pop s] d(1,2) other len
    by (simp add: drop_cancelled_def dict_simps)
  show "pq_ok (take_item now item h q)" if "pi_request_id item \<notin> pq_cancelled q"
    unfolding pq_ok_def using pq_safe_take_item [OF pop s that] d(1,2) other len
    by (simp add: take_item_def dict_simps)
qed

lemma pq_ok_dequeue_loop [inv_intros]: "pq_ok q \<Longrightarrow> pq_ok (snd (dequeue_loop now q))"
proof -
  obtain r q' where e: "dequeue_loop now q = (r, q')" by force
  from e have "pq_ok q \<longrightarrow> pq_ok q'"
    by (induction rule: dequeue_loop_rule) (blast intro: pq_ok_pop)+
  with e show "pq_ok q \<Longrightarrow> pq_ok (snd (dequeue_loop now q))" by simp
qed

text \<open>
  For what a dequeue returns, less is enough: only the ids marked cancelled need a single
  entry. This is \<open>pq_mid\<close>; it also holds after a priority update of an uncancelled id.
\<close>

definition pq_mid :: "'p pqueue \<Rightarrow> bool" where
  "pq_mid q \<longleftrightarrow> pq_safe q \<and>
     (\<forall>k \<in> pq_cancelled q. size (filter_mset (\<lambda>it. pi_request_id it = k) (mset (pq_heap q))) = 1)"

lemma pq_ok_single:
  assumes "pq_ok q" and "it \<in> set (pq_heap q)"
  shows "filter_mset (\<lambda>i. pi_request_id i = pi_request_id it) (mset (pq_heap q)) = {#it#}"
proof -
  have "filter_mset (\<lambda>i. pi_request_id i = pi_request_id it) (mset (pq_heap q))
      = filter_mset (\<lambda>i. i = it) (mset (pq_heap q))"
    using assms by (intro filter_mset_cong) (auto simp: pq_ok_def inj_on_def)
  also have "\<dots> = {#it#}"
    using assms by (simp add: filter_eq_replicate_mset pq_ok_def distinct_count_atmost_1)
  finally show ?thesis .
qed

lemma pq_ok_mid: "pq_ok q \<Longrightarrow> pq_mid q"
proof -
  assume ok: "pq_ok q"
  have "size (filter_mset (\<lambda>it. pi_request_id it = k) (mset (pq_heap q))) = 1"
    if c: "k \<in> pq_cancelled q" for k
  proof -
    obtain it where "dict_get (pq_pending q) k = Some it"
      using c ok by (auto simp: pq_ok_def pq_safe_def)
    then have "it \<in> set (pq_heap q)" "pi_request_id it = k"
      using ok by (simp_all add: pq_ok_def pq_safe_def)
    then show ?thesis using pq_ok_single [OF ok] by auto
  qed
  with ok show "pq_mid q" by (simp add: pq_mid_def pq_ok_def)
qed

lemma pq_mid_drop_cancelled:
  assumes pop: "heappop pitem_lt (pq_heap q) = Inr (item, h)" and "pq_mid q"
    and c: "pi_request_id item \<in> pq_cancelled q"
  shows "pq_mid (drop_cancelled item h q)" and "pq_live (drop_cancelled item h q) = pq_live q"
proof -
  note m = heappop_cases(2) [OF pop]
  have none: "pi_request_id it \<noteq> pi_request_id item" if "it \<in> set h" for it
  proof -
    have "size (filter_mset (\<lambda>i. pi_request_id i = pi_request_id item) (mset h)) = 0"
      using assms(2) c by (auto simp: pq_mid_def m)
    with that show ?thesis by auto
  qed
  then have "filter_mset (\<lambda>i. pi_request_id i = k) (mset h) =
      filter_mset (\<lambda>i. pi_request_id i = k) (mset (pq_heap q))" if "k \<noteq> pi_request_id item" for k
    using that by (simp add: m)
  then show "pq_mid (drop_cancelled item h q)"
    using assms(2) pq_safe_drop_cancelled [OF pop] unfolding pq_mid_def
    by (simp add: drop_cancelled_def)
  show "pq_live (drop_cancelled item h q) = pq_live q"
    using c none by (simp add: pq_live_def drop_cancelled_def m) (rule filter_mset_cong, auto)
qed

lemma pq_mid_take_item:
  assumes pop: "heappop pitem_lt (pq_heap q) = Inr (item, h)" and "pq_mid q"
    and "pi_request_id item \<notin> pq_cancelled q"
  shows "pq_mid (take_item now item h q)"
    and "pq_live q = add_mset item (pq_live (take_item now item h q))"
    and "\<forall>y \<in># pq_live q. \<not> pitem_lt y item"
proof -
  note m = heappop_cases(2) [OF pop]
  have "filter_mset (\<lambda>i. pi_request_id i = k) (mset (pq_heap q)) =
      filter_mset (\<lambda>i. pi_request_id i = k) (mset h)" if "k \<in> pq_cancelled q" for k
    using that assms(3) by (auto simp: m)
  then show "pq_mid (take_item now item h q)"
    using assms(2,3) pq_safe_take_item [OF pop, of now] unfolding pq_mid_def
    by (simp add: take_item_def)
  show "pq_live q = add_mset item (pq_live (take_item now item h q))"
    using assms(3) by (simp add: pq_live_def take_item_def m)
  show "\<forall>y \<in># pq_live q. \<not> pitem_lt y item"
    using item_heap.heappop_min [OF _ pop] assms(2)
    by (auto simp: pq_live_def pq_mid_def pq_safe_def)
qed

lemma dequeue_loop_mid:
  assumes "dequeue_loop now q = (r, q')" and "pq_mid q"
  shows "pq_mid q'"
    and "r = None \<Longrightarrow> pq_live q = {#} \<and> pq_heap q' = []"
    and "r = Some it \<Longrightarrow> pq_live q = add_mset it (pq_live q') \<and> (\<forall>y \<in># pq_live q. \<not> pitem_lt y it)"
proof -
  have "pq_mid q \<longrightarrow> pq_mid q' \<and> (r = None \<longrightarrow> pq_live q = {#} \<and> pq_heap q' = []) \<and>
      (\<forall>it. r = Some it \<longrightarrow> pq_live q = add_mset it (pq_live q') \<and> (\<forall>y \<in># pq_live q. \<not> pitem_lt y it))"
    using assms(1)
  proof (induction rule: dequeue_loop_rule)
    case (Empty q)
    then show ?case by (simp add: pq_live_def)
  next
    case (Cancelled q item h r q')
    show ?case
    proof
      assume "pq_mid q"
      note d = pq_mid_drop_cancelled [OF Cancelled(1) this Cancelled(2)]
      from Cancelled.IH d(1) show "pq_mid q' \<and> (r = None \<longrightarrow> pq_live q = {#} \<and> pq_heap q' = []) \<and>
          (\<forall>it. r = Some it \<longrightarrow> pq_live q = add_mset it (pq_live q') \<and> (\<forall>y \<in># pq_live q. \<not> pitem_lt y it))"
        unfolding d(2) by blast
    qed
  next
    case (Taken q item h)
    then show ?case using pq_mid_take_item [OF Taken(1)] by blast
  qed
  with assms(2) show "pq_mid q'"
    and "r = None \<Longrightarrow> pq_live q = {#} \<and> pq_heap q' = []"
    and "r = Some it \<Longrightarrow> pq_live q = add_mset it (pq_live q') \<and> (\<forall>y \<in># pq_live q. \<not> pitem_lt y it)"
    by blast+
qed

lemma pq_live_enqueue:
  assumes "pq_ok q" and "rid \<notin> pq_ids q"
  shows "pq_live (pq_enqueue now rid prio pl q) =
    add_mset \<lparr>pi_priority = prio, pi_enqueue_time = now, pi_request_id = rid, pi_payload = pl\<rparr> (pq_live q)"
proof -
  have "rid \<notin> pq_cancelled q"
    using assms by (force simp: pq_ok_def pq_safe_def pq_ids_def)
  then show ?thesis by (simp add: pq_live_def pq_enqueue_def Let_def mset_heappush)
qed

lemma pq_ok_pending_iff:
  assumes "pq_ok q"
  shows "dict_get (pq_pending q) rid \<noteq> None \<longleftrightarrow> rid \<in> pq_ids q"
proof
  assume "dict_get (pq_pending q) rid \<noteq> None"
  then obtain it where "dict_get (pq_pending q) rid = Some it" by auto
  with assms have "it \<in> set (pq_heap q)" "pi_request_id it = rid"
    by (simp_all add: pq_ok_def pq_safe_def)
  then show "rid \<in> pq_ids q" unfolding pq_ids_def by blast
next
  assume "rid \<in> pq_ids q"
  then obtain it where "it \<in> set (pq_heap q)" "rid = pi_request_id it" by (auto simp: pq_ids_def)
  with assms show "dict_get (pq_pending q) rid \<noteq> None" by (simp add: pq_ok_def)
qed

lemma pq_live_cancel:
  assumes "pq_ok q"
  shows "pq_live (snd (pq_cancel rid q)) = filter_mset (\<lambda>it. pi_request_id it \<noteq> rid) (pq_live q)"
    and "fst (pq_cancel rid q) \<longleftrightarrow> rid \<in> pq_ids q"
proof -
  note iff = pq_ok_pending_iff [OF assms, of rid]
  then show "fst (pq_cancel rid q) \<longleftrightarrow> rid \<in> pq_ids q" by (simp add: pq_cancel_def)
  show "pq_live (snd (pq_cancel rid q)) = filter_mset (\<lambda>it. pi_request_id it \<noteq> rid) (pq_live q)"
  proof (cases "rid \<in> pq_ids q")
    case True
    with iff have "snd (pq_cancel rid q) = q\<lparr>pq_cancelled := insert rid (pq_cancelled q)\<rparr>"
      by (simp add: pq_cancel_def)
    then show ?thesis by (simp add: pq_live_def filter_filter_mset conj_commute)
  next
    case False
    then have "pi_request_id it \<noteq> rid" if "it \<in># pq_live q" for it
      using that by (auto simp: pq_live_def pq_ids_def)
    then have "filter_mset (\<lambda>it. pi_request_id it \<noteq> rid) (pq_live q) = filter_mset (\<lambda>_. True) (pq_live q)"
      by (intro filter_mset_cong) simp_all
    moreover have "snd (pq_cancel rid q) = q" using False iff by (simp add: pq_cancel_def)
    ultimately show ?thesis by simp
  qed
qed

section \<open>The queue implements the contract\<close>

definition pq_enq_item :: "'p pitem \<Rightarrow> 'p pqueue \<Rightarrow> 'p pqueue" where
  "pq_enq_item it = pq_enqueue (pi_enqueue_time it) (pi_request_id it) (pi_priority it) (pi_payload it)"

interpretation mid_queue: drainable pq_mid pq_live pitem_lt "dequeue_loop now" for now
proof unfold_locales
  fix q q' :: "'p pqueue" and it
  show "pq_mid q \<Longrightarrow> pq_mid (snd (dequeue_loop now q))"
    using dequeue_loop_mid(1) [of now q] by (cases "dequeue_loop now q") simp
  show "pq_mid q \<Longrightarrow> dequeue_loop now q = (None, q') \<Longrightarrow> pq_live q = {#} \<and> pq_live q' = {#}"
    using dequeue_loop_mid(2) [of now q None q'] by (simp add: pq_live_def)
  show "pq_mid q \<Longrightarrow> dequeue_loop now q = (Some it, q') \<Longrightarrow>
      pq_live q = add_mset it (pq_live q') \<and> (\<forall>y \<in># pq_live q. \<not> pitem_lt y it)"
    using dequeue_loop_mid(3) [of now q "Some it" q' it] by simp
qed

interpretation sjf_queue: job_queue pq_ok pq_live pitem_lt "dequeue_loop now" pq_ids pi_request_id
  pq_enq_item pq_cancel for now
proof unfold_locales
  fix q q' :: "'p pqueue" and it k
  show "pq_ok q \<Longrightarrow> pq_ok (snd (dequeue_loop now q))"
    by (rule pq_ok_dequeue_loop)
  show "pq_ok q \<Longrightarrow> dequeue_loop now q = (None, q') \<Longrightarrow> pq_live q = {#} \<and> pq_live q' = {#}"
    by (rule mid_queue.deq_None [OF pq_ok_mid])
  show "pq_ok q \<Longrightarrow> dequeue_loop now q = (Some it, q') \<Longrightarrow>
      pq_live q = add_mset it (pq_live q') \<and> (\<forall>y \<in># pq_live q. \<not> pitem_lt y it)"
    by (rule mid_queue.deq_Some [OF pq_ok_mid])
  show "pq_ok q \<Longrightarrow> it \<in># pq_live q \<Longrightarrow> pi_request_id it \<in> pq_ids q"
    by (auto simp: pq_live_def pq_ids_def)
  show "pq_ok q \<Longrightarrow> pi_request_id it \<notin> pq_ids q \<Longrightarrow>
      pq_ok (pq_enq_item it q) \<and> pq_live (pq_enq_item it q) = add_mset it (pq_live q)"
    by (simp add: pq_enq_item_def pq_ok_enqueue pq_live_enqueue)
  show "pq_ok q \<Longrightarrow> pq_ok (snd (pq_cancel k q)) \<and>
      pq_live (snd (pq_cancel k q)) = filter_mset (\<lambda>it. pi_request_id it \<noteq> k) (pq_live q)"
    by (simp add: pq_ok_cancel pq_live_cancel)
qed

lemma dequeue_loop_heap_subset: "dequeue_loop now q = (r, q') \<Longrightarrow> set (pq_heap q') \<subseteq> set (pq_heap q)"
proof (induction rule: dequeue_loop_rule)
  case (Cancelled q item h r q')
  then show ?case using heappop_cases(2) [OF Cancelled(1)] by (metis Un_iff pq_heap_drop_cancelled
      set_mset_add_mset_insert set_mset_mset subset_eq subset_insertI)
next
  case (Taken q item h)
  then show ?case using heappop_cases(2) [OF Taken(1)]
    by (metis pq_heap_take_item set_mset_add_mset_insert set_mset_mset subset_insertI)
qed simp

lemma dequeue_iter_ok:
  assumes "dequeue_iter now t1 t2 d q = (r, q')" and "pq_ok q"
  shows "pq_ok q'" and "set (pq_heap q') \<subseteq> set (pq_heap q)"
    and "case r of
        DqItem it \<Rightarrow> pq_live q = add_mset it (pq_live q') \<and> (\<forall>y \<in># pq_live q. \<not> pitem_lt y it)
      | _ \<Rightarrow> pq_live q = {#} \<and> pq_live q' = {#}"
proof -
  obtain a q0 where l: "dequeue_loop now q = (a, q0)" by force
  with assms(1) have q: "q' = q0" "(case a of None \<Rightarrow> \<forall>it. r \<noteq> DqItem it | Some it \<Rightarrow> r = DqItem it)"
    by (auto simp: dequeue_iter_def split: option.splits if_splits)
  show "pq_ok q'" using pq_ok_dequeue_loop [OF assms(2), of now] l q by simp
  show "set (pq_heap q') \<subseteq> set (pq_heap q)" using dequeue_loop_heap_subset [OF l] q by simp
  show "case r of
      DqItem it \<Rightarrow> pq_live q = add_mset it (pq_live q') \<and> (\<forall>y \<in># pq_live q. \<not> pitem_lt y it)
    | _ \<Rightarrow> pq_live q = {#} \<and> pq_live q' = {#}"
    using sjf_queue.deq_None [OF assms(2), of now q0] sjf_queue.deq_Some [OF assms(2), of now _ q0] l q
    by (cases a) (auto split: dq_result.split)
qed

section \<open>Histories\<close>

text \<open>
  Any interleaving of the tasks that share a queue is a sequence of its atomic operations.
  \<open>pq_run\<close> performs such a history and lists the entries it handed out, in order.
\<close>

datatype 'p pq_op =
    Enqueue real string real 'p
  | Dequeue real
  | Cancel string
  | UpdatePriority string real

fun pq_step :: "'p pq_op \<Rightarrow> 'p pqueue \<Rightarrow> 'p pitem option \<times> 'p pqueue" where
  "pq_step (Enqueue now rid prio pl) q = (None, pq_enqueue now rid prio pl q)"
| "pq_step (Dequeue now) q = dequeue_loop now q"
| "pq_step (Cancel rid) q = (None, snd (pq_cancel rid q))"
| "pq_step (UpdatePriority rid p) q = (None, snd (pq_update_priority rid p q))"

fun pq_run :: "'p pq_op list \<Rightarrow> 'p pqueue \<Rightarrow> 'p pitem list \<times> 'p pqueue" where
  "pq_run [] q = ([], q)"
| "pq_run (x # xs) q =
     (case pq_step x q of (r, q') \<Rightarrow> case pq_run xs q' of (its, q'') \<Rightarrow>
        ((case r of None \<Rightarrow> its | Some it \<Rightarrow> it # its), q''))"

fun enq_ids :: "'p pq_op list \<Rightarrow> string list" where
  "enq_ids [] = []"
| "enq_ids (Enqueue now rid prio pl # xs) = rid # enq_ids xs"
| "enq_ids (_ # xs) = enq_ids xs"

fun no_updates :: "'p pq_op list \<Rightarrow> bool" where
  "no_updates [] = True"
| "no_updates (UpdatePriority rid p # xs) = False"
| "no_updates (_ # xs) = no_updates xs"

definition fresh_history :: "'p pq_op list \<Rightarrow> 'p pqueue \<Rightarrow> bool" where
  "fresh_history ops q \<longleftrightarrow>
     no_updates ops \<and> distinct (enq_ids ops) \<and> set (enq_ids ops) \<inter> pq_ids q = {}"

lemma pq_safe_step: "pq_safe q \<Longrightarrow> pq_safe (snd (pq_step x q))"
  by (cases x) (simp_all add: inv_intros)

lemma pq_safe_run: "pq_safe q \<Longrightarrow> pq_safe (snd (pq_run ops q))"
proof (induction ops arbitrary: q)
  case Nil
  then show ?case by simp
next
  case (Cons x xs)
  obtain r q' where "pq_step x q = (r, q')" by force
  with Cons.IH [of q'] Cons.prems pq_safe_step [of q x] show ?case by (auto split: prod.split)
qed

lemma pq_ids_pop:
  assumes "heappop pitem_lt (pq_heap q) = Inr (item, h)"
  shows "pi_request_id ` set h \<subseteq> pq_ids q" and "pi_request_id item \<in> pq_ids q"
  using arg_cong [OF heappop_cases(2) [OF assms], of set_mset] by (auto simp: pq_ids_def)

lemma pq_ids_dequeue_loop:
  "dequeue_loop now q = (r, q') \<Longrightarrow>
     pq_ids q' \<subseteq> pq_ids q \<and> (\<forall>it. r = Some it \<longrightarrow> pi_request_id it \<in> pq_ids q)"
proof (induction rule: dequeue_loop_rule)
  case (Empty q)
  then show ?case by simp
next
  case (Cancelled q item h r q')
  have "pq_ids (drop_cancelled item h q) = pi_request_id ` set h" by (simp add: pq_ids_def)
  with Cancelled pq_ids_pop [OF Cancelled(1)] show ?case by blast
next
  case (Taken q item h)
  have "pq_ids (take_item now item h q) = pi_request_id ` set h" by (simp add: pq_ids_def take_item_def)
  with pq_ids_pop [OF Taken(1)] show ?case by blast
qed

lemma dequeue_loop_ok_removed:
  assumes "pq_ok q" and "dequeue_loop now q = (Some it, q')"
  shows "pi_request_id it \<notin> pq_ids q'"
  using assms(2,1)
proof (induction q "Some it" q' rule: dequeue_loop_rule)
  case (Cancelled q item h q')
  then show ?case using pq_ok_pop(1) by blast
next
  case (Taken q h)
  then show ?case using heappop_distinct(5) [OF Taken(1)] by (force simp: pq_ids_def take_item_def)
qed

lemma pq_ids_enqueue [simp]: "pq_ids (pq_enqueue now rid prio pl q) = insert rid (pq_ids q)"
  by (simp add: pq_ids_def pq_enqueue_def Let_def set_heappush)

lemma pq_ids_cancel [simp]: "pq_ids (snd (pq_cancel rid q)) = pq_ids q"
  by (simp add: pq_ids_def pq_cancel_def)

lemma fresh_history_step:
  assumes "fresh_history (x # xs) q" and "pq_ok q" and "pq_step x q = (r, q')"
  shows "pq_ok q'" and "fresh_history xs q'"
proof -
  show "pq_ok q'"
  proof (cases x)
    case (Dequeue now)
    with assms pq_ok_dequeue_loop [of q now] show ?thesis by simp
  qed (use assms pq_ok_cancel [of q] pq_ok_enqueue [of q] in \<open>auto simp: fresh_history_def\<close>)
  show "fresh_history xs q'"
  proof (cases x)
    case (Dequeue now)
    with assms pq_ids_dequeue_loop [of now q r q'] show ?thesis by (auto simp: fresh_history_def)
  qed (use assms in \<open>auto simp: fresh_history_def\<close>)
qed

lemma pq_ok_run:
  "pq_ok q \<Longrightarrow> fresh_history ops q \<Longrightarrow> pq_ok (snd (pq_run ops q))"
proof (induction ops arbitrary: q)
  case Nil
  then show ?case by simp
next
  case (Cons x xs)
  obtain r q' where s: "pq_step x q = (r, q')" by force
  from Cons.IH [OF fresh_history_step [OF Cons.prems(2,1) s]] s show ?case
    by (auto split: prod.split)
qed

lemma pq_run_handed_out:
  assumes "pq_ok q" and "fresh_history ops q"
  shows "pi_request_id ` set (fst (pq_run ops q)) \<subseteq> pq_ids q \<union> set (enq_ids ops)"
    and "distinct (map pi_request_id (fst (pq_run ops q)))"
proof -
  have "pi_request_id ` set (fst (pq_run ops q)) \<subseteq> pq_ids q \<union> set (enq_ids ops) \<and>
      distinct (map pi_request_id (fst (pq_run ops q)))"
    using assms
  proof (induction ops arbitrary: q)
    case Nil
    then show ?case by simp
  next
    case (Cons x xs)
    obtain r q' where s: "pq_step x q = (r, q')" by force
    note f = fresh_history_step [OF Cons.prems(2,1) s]
    note IH = Cons.IH [OF f]
    obtain its q'' where run: "pq_run xs q' = (its, q'')" by force
    show ?case
    proof (cases x)
      case (Dequeue now)
      with s have d: "dequeue_loop now q = (r, q')" by simp
      have ids: "enq_ids (x # xs) = enq_ids xs" using Dequeue by simp
      show ?thesis
      proof (cases r)
        case None
        with pq_ids_dequeue_loop [OF d] IH run s ids show ?thesis by auto
      next
        case (Some it)
        have "pi_request_id it \<in> pq_ids q" using pq_ids_dequeue_loop [OF d] Some by simp
        moreover have "pi_request_id it \<notin> pq_ids q'"
          using dequeue_loop_ok_removed [OF Cons.prems(1)] d Some by simp
        moreover have "pi_request_id it \<notin> set (enq_ids xs)"
          using calculation(1) Cons.prems(2) ids by (auto simp: fresh_history_def)
        ultimately show ?thesis
          using pq_ids_dequeue_loop [OF d] IH run s ids Some by auto
      qed
    qed (use IH run s Cons.prems(2) in \<open>auto simp: fresh_history_def\<close>)
  qed
  then show "pi_request_id ` set (fst (pq_run ops q)) \<subseteq> pq_ids q \<union> set (enq_ids ops)"
    and "distinct (map pi_request_id (fst (pq_run ops q)))" by blast+
qed

text \<open>Cancelled ids stay out of the live entries until they are enqueued again.\<close>

lemma pq_run_never_hands_out:
  "pq_ok q \<Longrightarrow> fresh_history ops q \<Longrightarrow> k \<notin> set (enq_ids ops) \<Longrightarrow>
     \<forall>it \<in># pq_live q. pi_request_id it \<noteq> k \<Longrightarrow>
     k \<notin> pi_request_id ` set (fst (pq_run ops q))"
proof (induction ops arbitrary: q)
  case Nil
  then show ?case by simp
next
  case (Cons x xs)
  obtain r q' where s: "pq_step x q = (r, q')" by force
  obtain its q'' where run: "pq_run xs q' = (its, q'')" by force
  note f = fresh_history_step [OF Cons.prems(2,1) s]
  have "(\<forall>it \<in># pq_live q'. pi_request_id it \<noteq> k) \<and> (\<forall>it. r = Some it \<longrightarrow> pi_request_id it \<noteq> k)"
  proof (cases x)
    case (Dequeue now)
    with s have "dequeue_loop now q = (r, q')" by simp
    with Cons.prems(1,4) sjf_queue.deq_None [of q now] sjf_queue.deq_Some [of q now] show ?thesis
      by (cases r) auto
  next
    case (Enqueue now rid prio pl)
    with s Cons.prems show ?thesis by (auto simp: pq_live_enqueue fresh_history_def)
  next
    case (Cancel rid)
    with s Cons.prems show ?thesis by (auto simp: pq_live_cancel)
  next
    case (UpdatePriority rid p)
    with Cons.prems(2) show ?thesis by (simp add: fresh_history_def)
  qed
  moreover have "k \<notin> set (enq_ids xs)" using Cons.prems(3) by (cases x) auto
  ultimately show ?case using Cons.IH [OF f] s run by (auto split: option.split)
qed

text \<open>Accounting over arbitrary histories, priority updates included.\<close>

fun upd_count :: "'p pq_op list \<Rightarrow> 'p pqueue \<Rightarrow> nat" where
  "upd_count [] q = 0"
| "upd_count (UpdatePriority rid p # xs) q =
     (if fst (pq_update_priority rid p q) then 1 else 0)
     + upd_count xs (snd (pq_update_priority rid p q))"
| "upd_count (x # xs) q = upd_count xs (snd (pq_step x q))"

definition pq_balance :: "'p pqueue \<Rightarrow> int" where
  "pq_balance q = int (pq_total_dequeued q) + int (pq_total_cancelled q) + int (length (pq_heap q))
     - int (pq_total_enqueued q)"

lemma dequeue_loop_balance:
  "dequeue_loop now q = (r, q') \<Longrightarrow> pq_balance q' = pq_balance q \<and>
     pq_total_dequeued q' = pq_total_dequeued q + (if r = None then 0 else 1)"
proof (induction rule: dequeue_loop_rule)
  case (Cancelled q item h r q')
  then show ?case using length_heappop [OF Cancelled(1)] by (simp add: pq_balance_def drop_cancelled_def)
next
  case (Taken q item h)
  then show ?case using length_heappop [OF Taken(1)] by (simp add: pq_balance_def take_item_def)
qed simp

lemma pq_balance_run:
  "pq_balance (snd (pq_run ops q)) = pq_balance q + int (upd_count ops q) \<and>
     pq_total_dequeued (snd (pq_run ops q)) = pq_total_dequeued q + length (fst (pq_run ops q))"
proof (induction ops arbitrary: q)
  case Nil
  then show ?case by simp
next
  case (Cons x xs)
  obtain r q' where s: "pq_step x q = (r, q')" by force
  obtain its q'' where run: "pq_run xs q' = (its, q'')" by force
  note IH = Cons.IH [of q']
  show ?case
  proof (cases x)
    case (Dequeue now)
    with s dequeue_loop_balance [of now q r q'] IH run show ?thesis by (auto split: option.split)
  next
    case (UpdatePriority rid p)
    with s IH run show ?thesis
      by (auto simp: pq_balance_def pq_update_priority_def Let_def split: option.splits)
  qed (use s IH run in \<open>auto simp: pq_balance_def pq_enqueue_def pq_cancel_def Let_def\<close>)
qed

section \<open>Priority updates\<close>

text \<open>An update adds an entry for the id; the entry it means to replace stays in the heap.\<close>

lemma pq_mid_update_priority:
  assumes "pq_ok q" and "dict_get (pq_pending q) k = Some it" and "k \<notin> pq_cancelled q"
  shows "pq_mid (snd (pq_update_priority k p q))"
    and "pq_live (snd (pq_update_priority k p q)) =
      add_mset \<lparr>pi_priority = p, pi_enqueue_time = pi_enqueue_time it, pi_request_id = k,
                pi_payload = pi_payload it\<rparr> (pq_live q)"
proof -
  let ?q = "snd (pq_update_priority k p q)"
  have c: "pq_cancelled ?q = pq_cancelled q"
    using assms(2,3) by (auto simp: pq_update_priority_def Let_def)
  have h: "mset (pq_heap ?q) = add_mset \<lparr>pi_priority = p, pi_enqueue_time = pi_enqueue_time it,
      pi_request_id = k, pi_payload = pi_payload it\<rparr> (mset (pq_heap q))"
    using assms(2) by (simp add: pq_update_priority_def Let_def mset_heappush)
  show "pq_mid ?q"
    using pq_ok_mid [OF assms(1)] pq_safe_update_priority [OF pq_ok_safe [OF assms(1)], of k p] assms(3)
    unfolding pq_mid_def c h by auto
  show "pq_live ?q = add_mset \<lparr>pi_priority = p, pi_enqueue_time = pi_enqueue_time it,
      pi_request_id = k, pi_payload = pi_payload it\<rparr> (pq_live q)"
    unfolding pq_live_def c h using assms(3) by simp
qed

lemma filter_id_live:
  assumes "pq_ok q" and "dict_get (pq_pending q) k = Some it" and "k \<notin> pq_cancelled q"
  shows "filter_mset (\<lambda>i. pi_request_id i = k) (pq_live q) = {#it#}"
proof -
  have it: "it \<in> set (pq_heap q)" "pi_request_id it = k"
    using assms(1,2) by (simp_all add: pq_ok_def pq_safe_def)
  have "filter_mset (\<lambda>i. pi_request_id i = k) (pq_live q) =
      filter_mset (\<lambda>i. pi_request_id i = k) (mset (pq_heap q))"
    using assms(3) by (auto simp: pq_live_def filter_filter_mset intro!: filter_mset_cong)
  with pq_ok_single [OF assms(1) it(1)] it(2) show ?thesis by simp
qed

section \<open>Properties\<close>

lemmas pq_ok_reached = pq_ok_run [OF pq_ok_init]

lemma drain_after_update:
  assumes "pq_ok q" and "dict_get (pq_pending q) k = Some it" and "k \<notin> pq_cancelled q"
    and "q' = snd (pq_update_priority k p q)"
  shows "size {#i \<in># mset (fst (drain (dequeue_loop now) (pq_depth q') q')). pi_request_id i = k#} = 2"
proof -
  note u = pq_mid_update_priority [OF assms(1-3), of p, folded assms(4)]
  have "size (pq_live q') \<le> pq_depth q'"
    by (metis pq_depth_def pq_live_def size_filter_mset_lesseq size_mset)
  from mid_queue.drain_exhausts [OF u(1) this]
  have "mset (fst (drain (dequeue_loop now) (pq_depth q') q')) = pq_live q'" by simp
  then show ?thesis using u(2) filter_id_live [OF assms(1-3)] by simp
qed

definition sample_ops :: "unit pq_op list" where
  "sample_ops = [Enqueue 0 ''a'' 10 (), Enqueue 1 ''b'' 3 (), Enqueue 2 ''c'' 3 ()]"

lemma sample_ops_fresh: "fresh_history sample_ops pq_init"
  by (simp add: fresh_history_def pq_ids_def pq_init_def sample_ops_def)

lemma sample_ops_dequeue:
  "fst (dequeue_loop 4 (snd (pq_run sample_ops pq_init)))
     = Some \<lparr>pi_priority = 3, pi_enqueue_time = 1, pi_request_id = ''b'', pi_payload = ()\<rparr>"
  by code_simp

text \<open>
  C1: shortest job first. After any history of enqueues with fresh ids, dequeues and
  cancellations, a dequeue that returns an entry returns a live (not cancelled) one, removes
  exactly that entry, and no other live entry has a smaller predicted length, nor the same
  length and an earlier enqueue time.
\<close>

theorem dequeue_shortest_first:
  assumes "fresh_history ops pq_init" and "q = snd (pq_run ops pq_init)"
    and "dequeue_loop now q = (Some it, q')"
  shows "pq_live q = add_mset it (pq_live q') \<and>
    (\<forall>y \<in># pq_live q. pi_priority it < pi_priority y \<or>
       pi_priority it = pi_priority y \<and> pi_enqueue_time it \<le> pi_enqueue_time y)"
proof -
  have "pq_ok q" using assms(1) unfolding assms(2) by (rule pq_ok_reached)
  from sjf_queue.deq_Some [OF this assms(3)] show ?thesis by (force simp: pitem_lt_def)
qed

theorem dequeue_shortest_first_witness:
  "\<exists>it q'. dequeue_loop 4 (snd (pq_run sample_ops pq_init)) = (Some it, q') \<and> pi_request_id it = ''b'' \<and>
     pq_live (snd (pq_run sample_ops pq_init)) = add_mset it (pq_live q')"
proof -
  obtain r q' where d: "dequeue_loop 4 (snd (pq_run sample_ops pq_init)) = (r, q')" by force
  with sample_ops_dequeue obtain it where r: "r = Some it" "pi_request_id it = ''b''" by auto
  from dequeue_shortest_first [OF sample_ops_fresh refl d [unfolded r(1)]] d r show ?thesis by blast
qed

text \<open>
  C2: draining sorts. From any such queue, repeated dequeues return every live entry exactly
  once, ordered by predicted length and, among equal lengths, by enqueue time; the queue is
  then empty of live entries.
\<close>

theorem drain_is_sorted:
  assumes "fresh_history ops pq_init" and "q = snd (pq_run ops pq_init)"
    and "drain (dequeue_loop now) (pq_depth q) q = (its, q')"
  shows "mset its = pq_live q \<and> pq_live q' = {#} \<and>
    sorted_wrt (\<lambda>a b. pi_priority a < pi_priority b \<or>
      pi_priority a = pi_priority b \<and> pi_enqueue_time a \<le> pi_enqueue_time b) its"
proof -
  have ok: "pq_ok q" using assms(1) unfolding assms(2) by (rule pq_ok_reached)
  have "size (pq_live q) \<le> pq_depth q"
    by (metis pq_depth_def pq_live_def size_filter_mset_lesseq size_mset)
  from sjf_queue.drain_exhausts [OF ok this] assms(3)
  have "mset its = pq_live q" "pq_live q' = {#}" "sorted_wrt (\<lambda>a b. \<not> pitem_lt b a) its"
    by (metis fst_conv snd_conv)+
  then show ?thesis by (auto simp: pitem_lt_def elim!: sorted_wrt_mono_rel [rotated])
qed

theorem drain_is_sorted_witness:
  "\<exists>its q'. drain (dequeue_loop 4) 3 (snd (pq_run sample_ops pq_init)) = (its, q') \<and>
     map pi_request_id its = [''b'', ''c'', ''a''] \<and> mset its = pq_live (snd (pq_run sample_ops pq_init))"
proof -
  let ?q = "snd (pq_run sample_ops pq_init)"
  obtain its q' where d: "drain (dequeue_loop 4) (pq_depth ?q) ?q = (its, q')" by force
  have n: "pq_depth ?q = 3" by code_simp
  have "map pi_request_id (fst (drain (dequeue_loop 4) 3 ?q)) = [''b'', ''c'', ''a'']" by code_simp
  with drain_is_sorted [OF sample_ops_fresh refl d] d n show ?thesis by auto
qed

text \<open>
  No request is handed out twice and none is invented: in any history without priority
  updates whose enqueued ids are pairwise different, the ids handed out are pairwise
  different and were all enqueued.
\<close>

theorem handed_out_once:
  assumes "no_updates ops" and "distinct (enq_ids ops)"
  shows "distinct (map pi_request_id (fst (pq_run ops pq_init))) \<and>
    pi_request_id ` set (fst (pq_run ops pq_init)) \<subseteq> set (enq_ids ops)"
proof -
  have "fresh_history ops pq_init"
    using assms by (simp add: fresh_history_def pq_ids_def pq_init_def)
  from pq_run_handed_out [OF pq_ok_init this] show ?thesis
    by (simp add: pq_ids_def) (simp add: pq_init_def)
qed

theorem handed_out_once_witness:
  "distinct (map pi_request_id (fst (pq_run (sample_ops @ [Dequeue 5, Cancel ''c'', Dequeue 6]) pq_init)))
   \<and> map pi_request_id (fst (pq_run (sample_ops @ [Dequeue 5, Cancel ''c'', Dequeue 6]) pq_init))
     = [''b'', ''a'']"
proof -
  let ?ops = "sample_ops @ [Dequeue 5, Cancel ''c'', Dequeue 6]"
  have "no_updates ?ops" "distinct (enq_ids ?ops)" by (simp_all add: sample_ops_def)
  from handed_out_once [OF this]
  show ?thesis by (intro conjI) (blast, code_simp)
qed



text \<open>
  C12: whatever the history (repeated ids and priority updates included), the queue's state is
  consistent: the array is a heap, every pending entry is in the heap under its own id, only
  pending ids are marked cancelled, the window of wait times holds at most 10000 values, and
  the counters account for every entry: dequeued, cancelled and still queued entries add up
  to the enqueued ones plus one for each successful priority update.
\<close>

theorem queue_always_consistent:
  "pq_safe (snd (pq_run ops pq_init)) \<and>
   pq_total_enqueued (snd (pq_run ops pq_init)) + upd_count ops pq_init
     = pq_total_dequeued (snd (pq_run ops pq_init)) + pq_total_cancelled (snd (pq_run ops pq_init))
       + pq_depth (snd (pq_run ops pq_init)) \<and>
   pq_total_dequeued (snd (pq_run ops pq_init)) = length (fst (pq_run ops pq_init))"
proof -
  have "pq_balance (pq_init :: 'a pqueue) = 0" "pq_total_dequeued (pq_init :: 'a pqueue) = 0"
    by (simp_all add: pq_balance_def pq_init_def)
  with pq_balance_run [of ops pq_init] pq_safe_run [OF pq_safe_init, of ops] show ?thesis
    by (auto simp: pq_balance_def pq_depth_def)
qed

text \<open>
  A priority update duplicates the request. When an id with one uncancelled entry is
  re-prioritised, draining the queue hands the id out twice, once at the new and once at the
  old priority: \<^verbatim>\<open>update_priority\<close> adds the id to the cancelled set and removes it again
  before any dequeue can see it, so the stale entry is never dropped.
\<close>

theorem update_priority_duplicates:
  assumes "fresh_history ops pq_init" and "q = snd (pq_run ops pq_init)"
    and "dict_get (pq_pending q) k = Some it" and "k \<notin> pq_cancelled q"
    and "q' = snd (pq_update_priority k p q)"
  shows "size {#i \<in># mset (fst (drain (dequeue_loop now) (pq_depth q') q')). pi_request_id i = k#} = 2"
  using drain_after_update [OF pq_ok_reached [OF assms(1)], folded assms(2), OF assms(3,4)] assms(5) by simp

theorem update_priority_duplicates_witness:
  "size {#i \<in># mset (fst (drain (dequeue_loop 9) (pq_depth (snd (pq_update_priority ''a'' 1
       (snd (pq_run sample_ops pq_init))))) (snd (pq_update_priority ''a'' 1 (snd (pq_run sample_ops pq_init)))))).
     pi_request_id i = ''a''#} = 2"
proof -
  let ?q = "snd (pq_run sample_ops pq_init)"
  have p: "dict_get (pq_pending ?q) ''a'' =
      Some \<lparr>pi_priority = 10, pi_enqueue_time = 0, pi_request_id = ''a'', pi_payload = ()\<rparr>" by code_simp
  have c: "''a'' \<notin> pq_cancelled ?q" by code_simp
  show ?thesis by (rule update_priority_duplicates [OF sample_ops_fresh refl p c refl])
qed

text \<open>
  A request cancelled after its priority was updated is still handed out: the single
  cancellation mark is spent on the new entry, and the stale entry is then taken as live.
\<close>

theorem cancel_after_update_is_lost:
  "fst (pq_cancel ''a'' (snd (pq_run [Enqueue 0 ''a'' 10 (), UpdatePriority ''a'' 5] pq_init))) \<and>
   map pi_request_id (fst (pq_run [Enqueue 0 ''a'' 10 (), UpdatePriority ''a'' 5, Cancel ''a'', Dequeue 1]
     pq_init)) = [''a'']"
  by (intro conjI) code_simp+

text \<open>
  The outcome of one pass of \<^verbatim>\<open>dequeue\<close> on a queue with unique ids. An entry is returned
  exactly when a live one exists; otherwise the caller without a deadline waits without limit,
  the caller whose deadline has passed gets \<^verbatim>\<open>TimeoutError\<close>, and every other caller waits for
  exactly the positive time left to its deadline.
\<close>

theorem dequeue_outcome:
  assumes "fresh_history ops pq_init" and "q = snd (pq_run ops pq_init)" and "t1 \<le> t2"
    and "dequeue_iter now t1 t2 deadline q = (r, q')"
  shows "(pq_live q \<noteq> {#} \<longleftrightarrow> (\<exists>it. r = DqItem it)) \<and>
    (r = DqTimeout \<longleftrightarrow> pq_live q = {#} \<and> (\<exists>d. deadline = Some d \<and> d \<le> t2)) \<and>
    (\<forall>w. r = DqWait (Some w) \<longleftrightarrow> pq_live q = {#} \<and> (\<exists>d. deadline = Some d \<and> t2 < d \<and> w = d - t2)) \<and>
    (r = DqWait None \<longleftrightarrow> pq_live q = {#} \<and> deadline = None)"
proof -
  have ok: "pq_ok q" using assms(1) unfolding assms(2) by (rule pq_ok_reached)
  obtain r0 q0 where d: "dequeue_loop now q = (r0, q0)" by force
  show ?thesis
  proof (cases r0)
    case None
    with sjf_queue.deq_None [OF ok, of now q0] d have "pq_live q = {#}" by simp
    with None d assms(3,4) show ?thesis
      by (auto simp: dequeue_iter_def split: option.splits if_splits)
  next
    case (Some it)
    with sjf_queue.deq_Some [OF ok, of now it q0] d have "pq_live q \<noteq> {#}" by simp
    with Some d assms(4) show ?thesis by (auto simp: dequeue_iter_def)
  qed
qed

theorem dequeue_outcome_witness:
  "fst (dequeue_iter 0 5 6 (Some 8) (pq_init :: unit pqueue)) = DqWait (Some 2)"
proof -
  obtain r q' where e: "dequeue_iter 0 5 6 (Some 8) (pq_init :: unit pqueue) = (r, q')" by force
  have f: "fresh_history [] (pq_init :: unit pqueue)" by (simp add: fresh_history_def)
  have "pq_live (pq_init :: unit pqueue) = {#}" by (simp add: pq_live_def pq_init_def)
  with dequeue_outcome [OF f _ _ e] have "r = DqWait (Some 2)" by simp
  with e show ?thesis by simp
qed

end
