(* ===== verification/QueueWaiters.thy ===== *)
theory QueueWaiters
  imports PriorityQueue
begin

text \<open>
  The tasks that share one queue (\<^verbatim>\<open>python/scheduler/priority_queue.py\<close>): a \<^verbatim>\<open>dequeue\<close> that finds
  the heap empty suspends in \<^verbatim>\<open>Condition.wait\<close>, \<^verbatim>\<open>enqueue\<close> and a successful
  \<^verbatim>\<open>update_priority\<close> call \<^verbatim>\<open>notify()\<close>, which wakes the longest waiting task; the woken task
  runs its loop again when it gets the lock, which may be after other tasks have run. The
  steps of the system are a relation, so every interleaving of the tasks is covered.
\<close>

section \<open>The system of tasks\<close>

text \<open>
  A waiting task is its number and its deadline. \<open>sys_waiting\<close> are the waiters not yet
  notified, oldest first; \<open>sys_woken\<close> those notified that have not run again; \<open>sys_got\<close> the
  entries handed to tasks so far and \<open>sys_expired\<close> the tasks that left with
  \<^verbatim>\<open>TimeoutError\<close>.
\<close>

type_synonym waiter = "nat \<times> real option"

record 'p pq_sys =
  sys_q :: "'p pqueue"
  sys_waiting :: "waiter list"
  sys_woken :: "waiter list"
  sys_got :: "(nat \<times> 'p pitem) list"
  sys_expired :: "nat list"

definition sys_init :: "'p pq_sys" where
  "sys_init = \<lparr>sys_q = pq_init, sys_waiting = [], sys_woken = [], sys_got = [], sys_expired = []\<rparr>"

definition notify_one :: "'p pq_sys \<Rightarrow> 'p pq_sys" where
  "notify_one s =
     (case sys_waiting s of
        [] \<Rightarrow> s
      | w # ws \<Rightarrow> s\<lparr>sys_waiting := ws, sys_woken := sys_woken s @ [w]\<rparr>)"

text \<open>What becomes of the task after one pass of its loop.\<close>

definition settle :: "nat \<Rightarrow> real option \<Rightarrow> 'p dq_result \<Rightarrow> 'p pq_sys \<Rightarrow> 'p pq_sys" where
  "settle tid deadline r s =
     (case r of
        DqItem it \<Rightarrow> s\<lparr>sys_got := sys_got s @ [(tid, it)]\<rparr>
      | DqTimeout \<Rightarrow> s\<lparr>sys_expired := sys_expired s @ [tid]\<rparr>
      | DqWait _ \<Rightarrow> s\<lparr>sys_waiting := sys_waiting s @ [(tid, deadline)]\<rparr>)"

inductive sys_step :: "'p pq_sys \<Rightarrow> 'p pq_sys \<Rightarrow> bool" where
  enqueue: "sys_step s (notify_one (s\<lparr>sys_q := pq_enqueue now rid prio pl (sys_q s)\<rparr>))"
| update: "pq_update_priority rid p (sys_q s) = (True, q') \<Longrightarrow>
    sys_step s (notify_one (s\<lparr>sys_q := q'\<rparr>))"
| cancel: "sys_step s (s\<lparr>sys_q := snd (pq_cancel rid (sys_q s))\<rparr>)"
| call: "dequeue_iter now t1 t2 (dq_deadline t0 timeout) (sys_q s) = (r, q') \<Longrightarrow>
    sys_step s (settle tid (dq_deadline t0 timeout) r (s\<lparr>sys_q := q'\<rparr>))"
| resume: "sys_woken s = xs @ (tid, d) # ys \<Longrightarrow> dequeue_iter now t1 t2 d (sys_q s) = (r, q') \<Longrightarrow>
    sys_step s (settle tid d r (s\<lparr>sys_q := q', sys_woken := xs @ ys\<rparr>))"
| expire: "sys_waiting s = xs @ (tid, Some d) # ys \<Longrightarrow>
    sys_step s (s\<lparr>sys_waiting := xs @ ys, sys_expired := sys_expired s @ [tid]\<rparr>)"

inductive sys_reach :: "'p pq_sys \<Rightarrow> bool" where
  start: "sys_reach sys_init"
| step: "sys_reach s \<Longrightarrow> sys_step s t \<Longrightarrow> sys_reach t"

section \<open>No wake-up is lost\<close>

text \<open>
  While some task waits un-notified, there are at least as many notified tasks on their way
  as there are entries in the heap.
\<close>

definition no_lost_wakeup :: "'p pq_sys \<Rightarrow> bool" where
  "no_lost_wakeup s \<longleftrightarrow>
     sys_waiting s \<noteq> [] \<longrightarrow> length (pq_heap (sys_q s)) \<le> length (sys_woken s)"

lemma dequeue_loop_length:
  "dequeue_loop now q = (r, q') \<Longrightarrow>
     (r = None \<longrightarrow> pq_heap q' = []) \<and> (r \<noteq> None \<longrightarrow> length (pq_heap q') < length (pq_heap q))"
proof (induction rule: dequeue_loop_rule)
  case (Cancelled q item h r q')
  then show ?case using length_heappop [OF Cancelled(1)] by auto
next
  case (Taken q item h)
  then show ?case using length_heappop [OF Taken(1)] by (simp add: take_item_def)
qed simp

lemma dequeue_iter_length:
  assumes "dequeue_iter now t1 t2 d q = (r, q')"
  shows "case r of DqItem it \<Rightarrow> length (pq_heap q') < length (pq_heap q) | _ \<Rightarrow> pq_heap q' = []"
proof -
  obtain x q0 where e: "dequeue_loop now q = (x, q0)" by force
  from dequeue_loop_length [OF e] assms show ?thesis
    by (cases x) (auto simp: dequeue_iter_def e split: option.splits if_splits)
qed

lemma settle_fields [frame_simps]:
  "sys_q (settle tid d r s) = sys_q s"
  "sys_woken (settle tid d r s) = sys_woken s"
  "sys_waiting (settle tid d r s) =
     sys_waiting s @ (case r of DqWait _ \<Rightarrow> [(tid, d)] | _ \<Rightarrow> [])"
  by (simp_all add: settle_def split: dq_result.split)

lemma notify_fields [frame_simps]: "sys_q (notify_one s) = sys_q s"
  by (simp add: notify_one_def split: list.split)

lemma notify_no_lost_wakeup:
  "no_lost_wakeup s \<Longrightarrow> length (pq_heap q') \<le> Suc (length (pq_heap (sys_q s))) \<Longrightarrow>
     no_lost_wakeup (notify_one (s\<lparr>sys_q := q'\<rparr>))"
  by (auto simp: no_lost_wakeup_def notify_one_def split: list.split)

lemma settle_no_lost_wakeup:
  assumes "dequeue_iter now t1 t2 d (sys_q s) = (r, q')" and "no_lost_wakeup s"
    and "length (sys_woken s) \<le> Suc (length w)"
    and "w = sys_woken s \<or> length (sys_woken s) = Suc (length w)"
  shows "no_lost_wakeup (settle tid d' r (s\<lparr>sys_q := q', sys_woken := w\<rparr>))"
  using dequeue_iter_length [OF assms(1)] assms(2-)
  by (cases r) (auto simp: no_lost_wakeup_def frame_simps)

lemma sys_step_no_lost_wakeup: "sys_step s t \<Longrightarrow> no_lost_wakeup s \<Longrightarrow> no_lost_wakeup t"
proof (induction rule: sys_step.induct)
  case (enqueue s now rid prio pl)
  then show ?case by (intro notify_no_lost_wakeup) (simp_all add: pq_enqueue_def Let_def)
next
  case (update rid p s q')
  then show ?case
    by (intro notify_no_lost_wakeup)
       (auto simp: pq_update_priority_def Let_def split: option.splits)
next
  case (cancel s rid)
  then show ?case by (simp add: no_lost_wakeup_def pq_cancel_def)
next
  case (call now t1 t2 t0 timeout s r q' tid)
  from settle_no_lost_wakeup [OF call(1,2), of "sys_woken s"] show ?case by simp
next
  case (resume s xs tid d ys now t1 t2 r q')
  from settle_no_lost_wakeup [OF resume(2,3), of "xs @ ys"] resume(1) show ?case by simp
next
  case (expire s xs tid d ys)
  then show ?case by (auto simp: no_lost_wakeup_def)
qed

lemma sys_reach_no_lost_wakeup: "sys_reach s \<Longrightarrow> no_lost_wakeup s"
proof (induction rule: sys_reach.induct)
  case start
  show ?case by (simp add: no_lost_wakeup_def sys_init_def)
next
  case (step s t)
  then show ?case by (blast intro: sys_step_no_lost_wakeup)
qed

text \<open>An uncancelled entry is never skipped: a pass over the heap then returns an entry.\<close>

lemma dequeue_loop_finds:
  "dequeue_loop now q = (r, q') \<Longrightarrow>
     (\<exists>it \<in> set (pq_heap q). pi_request_id it \<notin> pq_cancelled q) \<longrightarrow> r \<noteq> None"
proof (induction rule: dequeue_loop_rule)
  case (Cancelled q item h r q')
  have "set (pq_heap q) = insert item (set h)"
    using arg_cong [OF heappop_cases(2) [OF Cancelled(1)], of set_mset] by simp
  with Cancelled show ?case by (auto simp: drop_cancelled_def)
qed simp_all

lemma dequeue_iter_finds:
  assumes "it \<in> set (pq_heap q)" and "pi_request_id it \<notin> pq_cancelled q"
  shows "\<exists>it q'. dequeue_iter now t1 t2 d q = (DqItem it, q')"
proof -
  obtain r q' where e: "dequeue_loop now q = (r, q')" by force
  with dequeue_loop_finds [OF e] assms obtain it where "r = Some it" by auto
  with e show ?thesis by (simp add: dequeue_iter_def)
qed

section \<open>Property\<close>


text \<open>Two tasks call \<^verbatim>\<open>dequeue\<close> on the empty queue, then one entry is enqueued.\<close>

definition two_waiters :: "unit pq_sys" where
  "two_waiters = \<lparr>sys_q = pq_enqueue 0 ''a'' 7 () pq_init, sys_waiting = [(2, None)],
     sys_woken = [(1, None)], sys_got = [], sys_expired = []\<rparr>"

lemma two_waiters_reach: "sys_reach two_waiters"
proof -
  let ?w1 = "sys_init\<lparr>sys_waiting := [(1, None)]\<rparr> :: unit pq_sys"
  let ?w2 = "sys_init\<lparr>sys_waiting := [(1, None), (2, None)]\<rparr> :: unit pq_sys"
  have it: "dequeue_iter 0 0 0 None (pq_init :: unit pqueue) = (DqWait None, pq_init)"
    by (simp add: dequeue_iter_def dequeue_loop_unfold pq_init_def)
  have 1: "sys_step sys_init ?w1"
    using sys_step.call [of 0 0 0 0 None "sys_init :: unit pq_sys", where tid = 1] it
    by (simp add: dq_deadline_def settle_def sys_init_def)
  have 2: "sys_step ?w1 ?w2"
    using sys_step.call [of 0 0 0 0 None ?w1, where tid = 2] it
    by (simp add: dq_deadline_def settle_def sys_init_def)
  have 3: "sys_step ?w2 two_waiters"
    using sys_step.enqueue [of ?w2 0 "''a''" 7 "()"]
    by (simp add: two_waiters_def notify_one_def sys_init_def)
  show ?thesis by (rule sys_reach.intros 1 2 3)+
qed


end
