(* ===== verification/Aging.thy ===== *)
theory Aging
  imports Py_Prelude
begin

text \<open>
  The aging policies of \<^verbatim>\<open>python/scheduler/aging.py\<close>: how far a waiting request's priority
  value is lowered. A configuration built from YAML is not type-checked by the code, so its
  fields are dynamic values and a wrong one is a \<^verbatim>\<open>TypeError\<close> when the policy computes with
  it. The enum \<^verbatim>\<open>AgingPolicy\<close> derives from \<^verbatim>\<open>str\<close>: its members are equal to their values, so
  a plain string selects a policy as well.
\<close>

section \<open>Configuration\<close>

datatype aging_policy = LINEAR | LOGARITHMIC | EXPONENTIAL

fun policy_value :: "aging_policy \<Rightarrow> string" where
  "policy_value LINEAR = ''linear''"
| "policy_value LOGARITHMIC = ''logarithmic''"
| "policy_value EXPONENTIAL = ''exponential''"

record aging_config =
  ac_policy :: pyval
  ac_factor :: pyval
  ac_max_boost :: pyval
  ac_base_priority :: pyval

definition default_aging_config :: aging_config where
  "default_aging_config =
     \<lparr>ac_policy = PStr (policy_value LINEAR), ac_factor = PFloat (1 / 1000),
      ac_max_boost = PFloat 500, ac_base_priority = PFloat 0\<rparr>"

text \<open>\<^verbatim>\<open>AgingConfig(**kwargs)\<close>: an unknown keyword is a \<^verbatim>\<open>TypeError\<close>.\<close>

definition set_aging_field :: "string \<Rightarrow> pyval \<Rightarrow> aging_config \<Rightarrow> aging_config pyres" where
  "set_aging_field k v c =
     (if k = ''policy'' then Inr (c\<lparr>ac_policy := v\<rparr>)
      else if k = ''factor'' then Inr (c\<lparr>ac_factor := v\<rparr>)
      else if k = ''max_boost'' then Inr (c\<lparr>ac_max_boost := v\<rparr>)
      else if k = ''base_priority'' then Inr (c\<lparr>ac_base_priority := v\<rparr>)
      else Inl TypeError)"

fun aging_config_of :: "(string \<times> pyval) list \<Rightarrow> aging_config \<Rightarrow> aging_config pyres" where
  "aging_config_of [] c = Inr c"
| "aging_config_of ((k, v) # kvs) c = bind_res (set_aging_field k v c) (aging_config_of kvs)"

text \<open>\<^verbatim>\<open>AgingConfig(**v)\<close> for a value read from a configuration.\<close>

fun mk_aging_config :: "pyval \<Rightarrow> aging_config pyres" where
  "mk_aging_config (PDict d) = aging_config_of d default_aging_config"
| "mk_aging_config _ = Inl TypeError"

section \<open>Policies\<close>

datatype aging_fn =
    LinearAging aging_config
  | LogarithmicAging aging_config
  | ExponentialAging aging_config

text \<open>The operands of float arithmetic: numbers only.\<close>

fun as_num :: "pyval \<Rightarrow> real pyres" where
  "as_num (PBool b) = Inr (if b then 1 else 0)"
| "as_num (PInt i) = Inr (real_of_int i)"
| "as_num (PFloat x) = Inr x"
| "as_num _ = Inl TypeError"

definition linear_boost :: "aging_config \<Rightarrow> real \<Rightarrow> real \<Rightarrow> real pyres" where
  "linear_boost c wait base =
     bind_res (as_num (ac_factor c)) (\<lambda>f.
       let boost = f * wait
       in bind_res (as_num (ac_max_boost c)) (\<lambda>m. Inr (base - min boost m)))"

text \<open>\<^verbatim>\<open>math.log1p\<close> is defined above \<open>-1\<close> only.\<close>

definition logarithmic_boost :: "aging_config \<Rightarrow> real \<Rightarrow> real \<Rightarrow> real pyres" where
  "logarithmic_boost c wait base =
     (if wait \<le> -1 then Inl (ValueError ''math domain error'')
      else bind_res (as_num (ac_factor c)) (\<lambda>f.
        let boost = f * ln (1 + wait) * 100
        in bind_res (as_num (ac_max_boost c)) (\<lambda>m. Inr (base - min boost m))))"

definition exponential_boost :: "aging_config \<Rightarrow> real \<Rightarrow> real \<Rightarrow> real pyres" where
  "exponential_boost c wait base =
     bind_res (as_num (ac_factor c)) (\<lambda>f.
       let boost = f * (exp (min wait 10 / 5) - 1) * 50
       in bind_res (as_num (ac_max_boost c)) (\<lambda>m. Inr (base - min boost m)))"

fun aging_boost :: "aging_fn \<Rightarrow> real \<Rightarrow> real \<Rightarrow> real pyres" where
  "aging_boost (LinearAging c) = linear_boost c"
| "aging_boost (LogarithmicAging c) = logarithmic_boost c"
| "aging_boost (ExponentialAging c) = exponential_boost c"

text \<open>\<^verbatim>\<open>mapping[config.policy](config)\<close>; lists and dictionaries are unhashable keys.\<close>

definition create_aging :: "aging_config \<Rightarrow> aging_fn pyres" where
  "create_aging c =
     (case ac_policy c of
        PStr s \<Rightarrow>
          (if s = policy_value LINEAR then Inr (LinearAging c)
           else if s = policy_value LOGARITHMIC then Inr (LogarithmicAging c)
           else if s = policy_value EXPONENTIAL then Inr (ExponentialAging c)
           else Inl (KeyError s))
      | PList vs \<Rightarrow> Inl TypeError
      | PDict d \<Rightarrow> Inl TypeError
      | _ \<Rightarrow> Inl (KeyError []))"

section \<open>Facts\<close>

fun aging_cfg :: "aging_fn \<Rightarrow> aging_config" where
  "aging_cfg (LinearAging c) = c"
| "aging_cfg (LogarithmicAging c) = c"
| "aging_cfg (ExponentialAging c) = c"

text \<open>The uncapped boost of each policy, as a function of the factor.\<close>

fun raw_boost :: "aging_fn \<Rightarrow> real \<Rightarrow> real \<Rightarrow> real" where
  "raw_boost (LinearAging c) f w = f * w"
| "raw_boost (LogarithmicAging c) f w = f * ln (1 + w) * 100"
| "raw_boost (ExponentialAging c) f w = f * (exp (min w 10 / 5) - 1) * 50"

lemma aging_boost_eq:
  assumes "as_num (ac_factor (aging_cfg a)) = Inr f" and "as_num (ac_max_boost (aging_cfg a)) = Inr m"
    and "0 \<le> w"
  shows "aging_boost a w base = Inr (base - min (raw_boost a f w) m)"
  using assms
  by (cases a) (simp_all add: linear_boost_def logarithmic_boost_def exponential_boost_def)

lemma raw_boost_mono:
  assumes "0 \<le> f" and "0 \<le> v" and "v \<le> w"
  shows "raw_boost a f v \<le> raw_boost a f w"
proof (cases a)
  case (LinearAging c)
  with assms show ?thesis by (simp add: mult_left_mono)
next
  case (LogarithmicAging c)
  have "ln (1 + v) \<le> ln (1 + w)" using assms by simp
  with LogarithmicAging assms show ?thesis by (simp add: mult_left_mono)
next
  case (ExponentialAging c)
  have "exp (min v 10 / 5) \<le> exp (min w 10 / 5)" using assms by simp
  with ExponentialAging assms show ?thesis by (simp add: mult_left_mono)
qed

lemma raw_boost_nonneg: "0 \<le> f \<Longrightarrow> 0 \<le> w \<Longrightarrow> 0 \<le> raw_boost a f w"
  using raw_boost_mono [of f 0 w a] by (cases a) auto

lemma create_aging_cfg: "create_aging c = Inr a \<Longrightarrow> aging_cfg a = c"
  by (auto simp: create_aging_def split: pyval.splits if_splits)

section \<open>Properties\<close>

text \<open>
  C20: every aging policy is sound as a single step. With numeric, non-negative factor and cap
  and a non-negative waiting time, the policy returns normally, never raises the priority
  value, never lowers it by more than the cap, and a longer wait never yields a worse
  (larger) priority value.
\<close>

theorem aging_step_bounds:
  assumes "create_aging c = Inr a" and "as_num (ac_factor c) = Inr f" and "as_num (ac_max_boost c) = Inr m"
    and "0 \<le> f" and "0 \<le> m" and "0 \<le> v" and "v \<le> w"
  shows "\<exists>p q. aging_boost a v base = Inr p \<and> aging_boost a w base = Inr q \<and>
    base - m \<le> q \<and> q \<le> p \<and> p \<le> base"
proof -
  have c: "aging_cfg a = c" using assms(1) by (rule create_aging_cfg)
  have e: "aging_boost a x base = Inr (base - min (raw_boost a f x) m)" if "0 \<le> x" for x
    using aging_boost_eq [of a f m x base] assms(2,3) that c by simp
  have "raw_boost a f v \<le> raw_boost a f w" "0 \<le> raw_boost a f v"
    using raw_boost_mono raw_boost_nonneg assms by auto
  then show ?thesis using e [of v] e [of w] assms by (auto simp: min_def)
qed

theorem aging_step_bounds_witness:
  "\<exists>p q. aging_boost (LinearAging default_aging_config) 10 100 = Inr p \<and>
     aging_boost (LinearAging default_aging_config) 20 100 = Inr q \<and>
     100 - 500 \<le> q \<and> q \<le> p \<and> p \<le> (100 :: real)"
  by (rule aging_step_bounds [of default_aging_config _ "1 / 1000"])
     (simp_all add: create_aging_def default_aging_config_def)

text \<open>
  A policy is selected by its exact name only. \<^verbatim>\<open>create_aging\<close> succeeds precisely on the
  three policy values, gives each its own policy object carrying the configuration, and raises
  \<^verbatim>\<open>KeyError\<close> on any other string.
\<close>

theorem create_aging_selects:
  "create_aging c = Inr a \<longleftrightarrow>
     ac_policy c = PStr ''linear'' \<and> a = LinearAging c \<or>
     ac_policy c = PStr ''logarithmic'' \<and> a = LogarithmicAging c \<or>
     ac_policy c = PStr ''exponential'' \<and> a = ExponentialAging c"
  by (cases "ac_policy c") (auto simp: create_aging_def)

text \<open>
  Exponential aging saturates. From ten seconds of waiting on, the boost of the
  exponential policy no longer grows, and it is below 400 times the factor: with the default
  factor of 0.001 a request never gains even one token on a single step.
\<close>

theorem exponential_aging_saturates:
  assumes "as_num (ac_factor c) = Inr f" and "as_num (ac_max_boost c) = Inr m" and "0 \<le> f" and "10 \<le> w"
  shows "exponential_boost c w base = exponential_boost c 10 base \<and>
    (\<exists>p. exponential_boost c w base = Inr p \<and> base - 400 * f \<le> p)"
proof -
  have "exp (2 :: real) = exp 1 * exp 1" by (simp flip: exp_add)
  also have "\<dots> \<le> 3 * 3"
    using exp_le by (intro mult_mono) auto
  finally have "f * (exp (2 :: real) - 1) \<le> f * 8" using assms(3) by (intro mult_left_mono) auto
  then have "f * (exp (2 :: real) - 1) * 50 \<le> 400 * f" by simp
  with assms show ?thesis by (auto simp: exponential_boost_def Let_def min_def)
qed

theorem exponential_aging_saturates_witness:
  "exponential_boost default_aging_config 50 100 = exponential_boost default_aging_config 10 100"
  using exponential_aging_saturates [of default_aging_config "1 / 1000" 500 50 100]
  by (simp add: default_aging_config_def)

end
