(* ===== verification/BaseScheduler.thy ===== *)
theory BaseScheduler
  imports Py_Prelude
begin

text \<open>
  The scheduler interface of \<^verbatim>\<open>python/scheduler/base_scheduler.py\<close>: requests, the state and
  the statistics every scheduler shares, and the contract the three schedulers offer the
  gateway (locale \<open>scheduler\<close>) with its consequences for arbitrary histories of calls.

  Requests are mutable objects that the queues, the dictionaries and the gateway share, so
  they live in a store from references to records; queues and dictionaries hold references.
\<close>

section \<open>Requests\<close>

datatype scheduler_type = FCFS | SJF | ORACLE_SJF

fun scheduler_type_value :: "scheduler_type \<Rightarrow> string" where
  "scheduler_type_value FCFS = ''fcfs''"
| "scheduler_type_value SJF = ''sjf''"
| "scheduler_type_value ORACLE_SJF = ''oracle_sjf''"

text \<open>\<^verbatim>\<open>SchedulerType(value)\<close>.\<close>

definition scheduler_type_of :: "pyval \<Rightarrow> scheduler_type pyres" where
  "scheduler_type_of v =
     (if v = PStr ''fcfs'' then Inr FCFS
      else if v = PStr ''sjf'' then Inr SJF
      else if v = PStr ''oracle_sjf'' then Inr ORACLE_SJF
      else Inl (ValueError ''not a valid SchedulerType''))"

text \<open>Values of a request's \<^verbatim>\<open>metadata\<close>: futures and stream queues are references.\<close>

datatype metaval = MBody pyval | MFuture nat | MStream nat | MFloat real

record scheduled_request =
  sr_request_id :: string
  sr_prompt :: string
  sr_messages :: pyval
  sr_max_tokens :: int
  sr_predicted_tokens :: real
  sr_priority :: real
  sr_enqueue_time :: real
  sr_metadata :: "(string, metaval) dict"

definition wait_time_sec :: "real \<Rightarrow> scheduled_request \<Rightarrow> real" where
  "wait_time_sec now r = now - sr_enqueue_time r"

type_synonym oref = nat
type_synonym store = "oref \<Rightarrow> scheduled_request"

text \<open>A request as the gateway creates it, for concrete evaluations.\<close>

definition sample_request :: "string \<Rightarrow> int \<Rightarrow> scheduled_request" where
  "sample_request rid n = \<lparr>sr_request_id = rid, sr_prompt = ''user: hi'', sr_messages = PList [],
     sr_max_tokens = n, sr_predicted_tokens = 0, sr_priority = 0, sr_enqueue_time = 0,
     sr_metadata = []\<rparr>"

section \<open>State shared by the schedulers\<close>

record base_state =
  bs_name :: string
  bs_total_scheduled :: nat
  bs_total_completed :: nat
  bs_total_errors :: nat
  bs_feature_latencies :: "real list"
  bs_predict_latencies :: "real list"
  bs_schedule_latencies :: "real list"

definition base_init :: "string \<Rightarrow> base_state" where
  "base_init name = \<lparr>bs_name = name, bs_total_scheduled = 0, bs_total_completed = 0,
     bs_total_errors = 0, bs_feature_latencies = [], bs_predict_latencies = [],
     bs_schedule_latencies = []\<rparr>"

record scheduler_stats =
  ss_scheduler_type :: string
  ss_queue_depth :: nat
  ss_total_scheduled :: nat
  ss_total_completed :: nat
  ss_total_errors :: nat
  ss_avg_feature_ms :: real
  ss_avg_predict_ms :: real
  ss_avg_schedule_ms :: real

definition record_timing :: "real \<Rightarrow> real \<Rightarrow> real \<Rightarrow> 'a base_state_scheme \<Rightarrow> 'a base_state_scheme" where
  "record_timing feature_ms predict_ms schedule_ms s =
     s\<lparr>bs_feature_latencies := bs_feature_latencies s @ [feature_ms],
       bs_predict_latencies := bs_predict_latencies s @ [predict_ms],
       bs_schedule_latencies := bs_schedule_latencies s @ [schedule_ms]\<rparr>"

definition avg :: "real list \<Rightarrow> real" where
  "avg xs = (if xs \<noteq> [] then sum_list xs / real (length xs) else 0)"

text \<open>\<^verbatim>\<open>BaseScheduler.stats\<close>; the queue depth is the subclass's property.\<close>

definition base_stats :: "nat \<Rightarrow> 'a base_state_scheme \<Rightarrow> scheduler_stats" where
  "base_stats depth s =
     \<lparr>ss_scheduler_type = bs_name s, ss_queue_depth = depth,
      ss_total_scheduled = bs_total_scheduled s, ss_total_completed = bs_total_completed s,
      ss_total_errors = bs_total_errors s,
      ss_avg_feature_ms = avg (bs_feature_latencies s),
      ss_avg_predict_ms = avg (bs_predict_latencies s),
      ss_avg_schedule_ms = avg (bs_schedule_latencies s)\<rparr>"

text \<open>The success and error counters of \<^verbatim>\<open>complete\<close>, the same statement in every scheduler.\<close>

definition count_completion :: "bool \<Rightarrow> 'a base_state_scheme \<Rightarrow> 'a base_state_scheme" where
  "count_completion success s =
     (if success then s\<lparr>bs_total_completed := bs_total_completed s + 1\<rparr>
      else s\<lparr>bs_total_errors := bs_total_errors s + 1\<rparr>)"

lemma avg_bounds:
  assumes "xs \<noteq> []" and "\<And>x. x \<in> set xs \<Longrightarrow> lo \<le> x \<and> x \<le> hi"
  shows "lo \<le> avg xs \<and> avg xs \<le> hi"
proof -
  have "real (length xs) * lo \<le> sum_list xs \<and> sum_list xs \<le> real (length xs) * hi"
    using assms(2)
  proof (induction xs)
    case (Cons x xs)
    then show ?case by (auto simp: algebra_simps intro!: add_mono)
  qed simp
  with assms(1) show ?thesis by (simp add: avg_def pos_le_divide_eq pos_divide_le_eq mult.commute)
qed

text \<open>Outcome of \<^verbatim>\<open>acquire\<close>: a request, or suspension under an optional time limit.\<close>

datatype 'a acq = Acquired 'a | Waits "real option" | AcqTimeout

section \<open>The abstract class and its histories\<close>

text \<open>
  The methods of \<^verbatim>\<open>BaseScheduler\<close> a client calls. \<open>'e\<close> carries what a call reads from its
  surroundings (clock readings and, for prediction, the predictor's answer).
\<close>

record ('e, 's) sched_iface =
  if_submit :: "'e \<Rightarrow> oref \<Rightarrow> 's \<Rightarrow> 's"
  if_acquire :: "'e \<Rightarrow> 's \<Rightarrow> oref acq \<times> 's"
  if_complete :: "string \<Rightarrow> bool \<Rightarrow> 's \<Rightarrow> 's"
  if_cancel :: "string \<Rightarrow> 's \<Rightarrow> bool \<times> 's"

text \<open>Calls in the order the event loop performs them, and the requests they acquire.\<close>

datatype 'e sched_op =
    Submit 'e oref
  | Acquire 'e
  | Complete string bool
  | CancelReq string

fun sched_step :: "('e, 's) sched_iface \<Rightarrow> 'e sched_op \<Rightarrow> 's \<Rightarrow> oref list \<times> 's" where
  "sched_step I (Submit e r) s = ([], if_submit I e r s)"
| "sched_step I (Acquire e) s =
     (case if_acquire I e s of (a, s') \<Rightarrow> ((case a of Acquired r \<Rightarrow> [r] | _ \<Rightarrow> []), s'))"
| "sched_step I (Complete k b) s = ([], if_complete I k b s)"
| "sched_step I (CancelReq k) s = ([], snd (if_cancel I k s))"

fun sched_run :: "('e, 's) sched_iface \<Rightarrow> 'e sched_op list \<Rightarrow> 's \<Rightarrow> oref list \<times> 's" where
  "sched_run I [] s = ([], s)"
| "sched_run I (x # xs) s =
     (case sched_step I x s of (rs, s') \<Rightarrow> case sched_run I xs s' of (rs', s'') \<Rightarrow> (rs @ rs', s''))"

fun admissible :: "(oref \<Rightarrow> 's \<Rightarrow> bool) \<Rightarrow> ('e, 's) sched_iface \<Rightarrow> 'e sched_op list \<Rightarrow> 's \<Rightarrow> bool" where
  "admissible may I [] s = True"
| "admissible may I (x # xs) s =
     ((case x of Submit e r \<Rightarrow> may r s | _ \<Rightarrow> True) \<and> admissible may I xs (snd (sched_step I x s)))"

fun submitted :: "'e sched_op list \<Rightarrow> oref list" where
  "submitted [] = []"
| "submitted (Submit e r # xs) = r # submitted xs"
| "submitted (_ # xs) = submitted xs"

fun completions :: "bool \<Rightarrow> 'e sched_op list \<Rightarrow> nat" where
  "completions b [] = 0"
| "completions b (Complete k c # xs) = (if b = c then 1 else 0) + completions b xs"
| "completions b (_ # xs) = completions b xs"

fun no_cancel :: "'e sched_op list \<Rightarrow> bool" where
  "no_cancel [] = True"
| "no_cancel (CancelReq k # xs) = False"
| "no_cancel (_ # xs) = no_cancel xs"

section \<open>The contract\<close>

text \<open>
  What the gateway relies on: a submitted request becomes one of the \<open>waiting\<close> ones, an
  acquisition removes the request it returns and fails only when none is waiting, completions
  and cancellations never add one, and the counters count.
\<close>

locale scheduler =
  fixes I :: "('e, 's) sched_iface"
    and inv :: "'s \<Rightarrow> bool"
    and waiting :: "'s \<Rightarrow> oref multiset"
    and may_submit :: "oref \<Rightarrow> 's \<Rightarrow> bool"
    and scheduled :: "'s \<Rightarrow> nat"
    and finished :: "bool \<Rightarrow> 's \<Rightarrow> nat"
  assumes submit_ok: "inv s \<Longrightarrow> may_submit r s \<Longrightarrow> s' = if_submit I e r s \<Longrightarrow>
        inv s' \<and> waiting s' = add_mset r (waiting s) \<and>
        scheduled s' = Suc (scheduled s) \<and> (\<forall>b. finished b s' = finished b s)"
    and acquire_ok: "inv s \<Longrightarrow> if_acquire I e s = (a, s') \<Longrightarrow>
        inv s' \<and> scheduled s' = scheduled s \<and> (\<forall>b. finished b s' = finished b s) \<and>
        (case a of Acquired r \<Rightarrow> waiting s = add_mset r (waiting s')
         | _ \<Rightarrow> waiting s = {#} \<and> waiting s' = {#})"
    and complete_ok: "inv s \<Longrightarrow> s' = if_complete I k c s \<Longrightarrow>
        inv s' \<and> waiting s' = waiting s \<and> scheduled s' = scheduled s \<and>
        (\<forall>b. finished b s' = finished b s + (if b = c then 1 else 0))"
    and cancel_ok: "inv s \<Longrightarrow> s' = snd (if_cancel I k s) \<Longrightarrow>
        inv s' \<and> waiting s' \<subseteq># waiting s \<and> scheduled s' = scheduled s \<and>
        (\<forall>b. finished b s' = finished b s)"
begin

lemma step_ok:
  assumes "inv s" and "admissible may_submit I [x] s" and "sched_step I x s = (rs, s')"
  shows "inv s'"
    and "mset rs + waiting s' \<subseteq># waiting s + mset (submitted [x])"
    and "no_cancel [x] \<Longrightarrow> mset rs + waiting s' = waiting s + mset (submitted [x])"
    and "scheduled s' = scheduled s + length (submitted [x])"
    and "finished b s' = finished b s + completions b [x]"
proof -
  have "inv s' \<and> mset rs + waiting s' \<subseteq># waiting s + mset (submitted [x]) \<and>
      (no_cancel [x] \<longrightarrow> mset rs + waiting s' = waiting s + mset (submitted [x])) \<and>
      scheduled s' = scheduled s + length (submitted [x]) \<and>
      finished b s' = finished b s + completions b [x]"
  proof (cases x)
    case (Submit e r)
    with assms submit_ok [of s r s' e] show ?thesis by simp
  next
    case (Acquire e)
    obtain a t where a: "if_acquire I e s = (a, t)" by force
    with assms Acquire have rs: "rs = (case a of Acquired r \<Rightarrow> [r] | _ \<Rightarrow> [])" "s' = t" by auto
    with acquire_ok [OF assms(1) a] Acquire show ?thesis by (cases a) simp_all
  next
    case (Complete k c)
    with assms complete_ok [of s s' k c] show ?thesis by simp
  next
    case (CancelReq k)
    with assms cancel_ok [of s s' k] show ?thesis by simp
  qed
  then show "inv s'" "mset rs + waiting s' \<subseteq># waiting s + mset (submitted [x])"
    "no_cancel [x] \<Longrightarrow> mset rs + waiting s' = waiting s + mset (submitted [x])"
    "scheduled s' = scheduled s + length (submitted [x])"
    "finished b s' = finished b s + completions b [x]" by blast+
qed

lemma cons_split:
  "submitted (x # xs) = submitted [x] @ submitted xs"
  "completions b (x # xs) = completions b [x] + completions b xs"
  "no_cancel (x # xs) \<longleftrightarrow> no_cancel [x] \<and> no_cancel xs"
  by (cases x; simp)+

lemma run_ok:
  assumes "inv s" and "admissible may_submit I xs s" and "sched_run I xs s = (rs, s')"
  shows "inv s' \<and> mset rs + waiting s' \<subseteq># waiting s + mset (submitted xs) \<and>
    (no_cancel xs \<longrightarrow> mset rs + waiting s' = waiting s + mset (submitted xs)) \<and>
    scheduled s' = scheduled s + length (submitted xs) \<and>
    (\<forall>b. finished b s' = finished b s + completions b xs)"
  using assms
proof (induction xs arbitrary: s rs)
  case Nil
  then show ?case by simp
next
  case (Cons x xs)
  obtain r1 s1 where 1: "sched_step I x s = (r1, s1)" by force
  obtain r2 where 2: "sched_run I xs s1 = (r2, s')" and rs: "rs = r1 @ r2"
    using Cons.prems(3) 1 by (auto split: prod.splits)
  have adm: "admissible may_submit I [x] s" "admissible may_submit I xs s1"
    using Cons.prems(2) 1 by simp_all
  note s1 = step_ok [OF Cons.prems(1) adm(1) 1]
  note IH = Cons.IH [OF s1(1) adm(2) 2]
  have "mset r1 + (mset r2 + waiting s') \<subseteq># mset r1 + (waiting s1 + mset (submitted xs))"
    using IH by simp
  also have "\<dots> \<subseteq># waiting s + mset (submitted [x]) + mset (submitted xs)"
    using s1(2) by (simp add: add.assoc [symmetric])
  finally have sub: "mset rs + waiting s' \<subseteq># waiting s + mset (submitted (x # xs))"
    unfolding rs cons_split(1) [of x xs] by (simp add: ac_simps)
  have "mset rs + waiting s' = waiting s + mset (submitted (x # xs))" if "no_cancel (x # xs)"
  proof -
    have "mset r1 + waiting s1 = waiting s + mset (submitted [x])"
      and "mset r2 + waiting s' = waiting s1 + mset (submitted xs)"
      using that s1(3) IH unfolding cons_split(3) [of x xs] by blast+
    then show ?thesis unfolding rs cons_split(1) [of x xs] mset_append
      by (metis (no_types, lifting) add.assoc add.commute)
  qed
  with sub IH s1(4,5) show ?case
    unfolding cons_split(1) [of x xs] cons_split(2) [of _ x xs] by simp
qed

end

end
