(* ===== verification/FcfsScheduler.thy ===== *)
theory FcfsScheduler
  imports BaseScheduler
begin

text \<open>
  The first-come-first-served scheduler of \<^verbatim>\<open>python/scheduler/fcfs_scheduler.py\<close>, the baseline
  and the fallback of the predicted scheduler. The unbounded \<^verbatim>\<open>asyncio.Queue\<close> is a list of
  request references; \<^verbatim>\<open>put\<close> never suspends on it and \<^verbatim>\<open>get\<close> suspends only when it is empty.
\<close>

section \<open>State and operations\<close>

record fcfs = base_state +
  fcfs_queue :: "oref list"
  fcfs_pending :: "(string, oref) dict"
  fcfs_total_cancelled :: "nat option"

definition fcfs_init :: fcfs where
  "fcfs_init = base_state.extend (base_init ''fcfs'')
     (fcfs.fields [] [] None)"

text \<open>The request is known by its id, so the store is read.\<close>

definition fcfs_submit :: "store \<Rightarrow> oref \<Rightarrow> fcfs \<Rightarrow> fcfs" where
  "fcfs_submit st r s =
     (let s1 = s\<lparr>fcfs_pending := dict_set (sr_request_id (st r)) r (fcfs_pending s)\<rparr>;
          s2 = s1\<lparr>fcfs_queue := fcfs_queue s1 @ [r]\<rparr>
      in s2\<lparr>bs_total_scheduled := bs_total_scheduled s2 + 1\<rparr>)"

text \<open>\<^verbatim>\<open>if timeout\<close>: a limit of zero is no limit.\<close>

definition time_limit :: "real option \<Rightarrow> real option" where
  "time_limit timeout = (case timeout of None \<Rightarrow> None | Some t \<Rightarrow> if t \<noteq> 0 then Some t else None)"

definition fcfs_acquire :: "real option \<Rightarrow> fcfs \<Rightarrow> oref acq \<times> fcfs" where
  "fcfs_acquire timeout s =
     (case fcfs_queue s of
        r # rs \<Rightarrow> (Acquired r, s\<lparr>fcfs_queue := rs\<rparr>)
      | [] \<Rightarrow> (Waits (time_limit timeout), s))"

definition fcfs_complete :: "string \<Rightarrow> bool \<Rightarrow> fcfs \<Rightarrow> fcfs" where
  "fcfs_complete rid success s =
     count_completion success (s\<lparr>fcfs_pending := dict_pop rid (fcfs_pending s)\<rparr>)"

text \<open>\<^verbatim>\<open>getattr(self, "_total_cancelled", 0) + 1\<close>: the counter appears with the first cancellation.\<close>

definition fcfs_cancel :: "string \<Rightarrow> fcfs \<Rightarrow> bool \<times> fcfs" where
  "fcfs_cancel rid s =
     (if dict_get (fcfs_pending s) rid \<noteq> None
      then (True, s\<lparr>fcfs_pending := dict_pop rid (fcfs_pending s),
                    fcfs_total_cancelled :=
                      Some ((case fcfs_total_cancelled s of None \<Rightarrow> 0 | Some n \<Rightarrow> n) + 1)\<rparr>)
      else (False, s))"

definition fcfs_queue_depth :: "fcfs \<Rightarrow> nat" where
  "fcfs_queue_depth s = length (fcfs_queue s)"

section \<open>The scheduler implements the contract\<close>

definition fcfs_iface :: "store \<Rightarrow> (real option, fcfs) sched_iface" where
  "fcfs_iface st =
     \<lparr>if_submit = (\<lambda>_. fcfs_submit st), if_acquire = fcfs_acquire,
      if_complete = fcfs_complete, if_cancel = fcfs_cancel\<rparr>"

definition finished_count :: "bool \<Rightarrow> 'a base_state_scheme \<Rightarrow> nat" where
  "finished_count b s = (if b then bs_total_completed s else bs_total_errors s)"

lemma finished_count_completion [simp]:
  "finished_count b (count_completion c s) = finished_count b s + (if b = c then 1 else 0)"
  "bs_total_scheduled (count_completion c s) = bs_total_scheduled s"
  by (simp_all add: finished_count_def count_completion_def)

lemma fcfs_count_completion [simp]:
  "fcfs_queue (count_completion c s) = fcfs_queue s"
  "fcfs_pending (count_completion c s) = fcfs_pending s"
  by (simp_all add: count_completion_def)

interpretation fcfs_sched: scheduler "fcfs_iface st" "\<lambda>_. True" "\<lambda>s. mset (fcfs_queue s)"
  "\<lambda>_ _. True" bs_total_scheduled finished_count for st
proof unfold_locales
  fix s s' :: fcfs and r e a k c
  show "s' = if_submit (fcfs_iface st) e r s \<Longrightarrow>
      True \<and> mset (fcfs_queue s') = add_mset r (mset (fcfs_queue s)) \<and>
      bs_total_scheduled s' = Suc (bs_total_scheduled s) \<and>
      (\<forall>b. finished_count b s' = finished_count b s)"
    by (simp add: fcfs_iface_def fcfs_submit_def Let_def finished_count_def)
  show "if_acquire (fcfs_iface st) e s = (a, s') \<Longrightarrow>
      True \<and> bs_total_scheduled s' = bs_total_scheduled s \<and>
      (\<forall>b. finished_count b s' = finished_count b s) \<and>
      (case a of Acquired r \<Rightarrow> mset (fcfs_queue s) = add_mset r (mset (fcfs_queue s'))
       | _ \<Rightarrow> mset (fcfs_queue s) = {#} \<and> mset (fcfs_queue s') = {#})"
    by (auto simp: fcfs_iface_def fcfs_acquire_def finished_count_def split: list.splits)
  show "s' = if_complete (fcfs_iface st) k c s \<Longrightarrow>
      True \<and> mset (fcfs_queue s') = mset (fcfs_queue s) \<and>
      bs_total_scheduled s' = bs_total_scheduled s \<and>
      (\<forall>b. finished_count b s' = finished_count b s + (if b = c then 1 else 0))"
    by (simp add: fcfs_iface_def fcfs_complete_def) (simp add: finished_count_def)
  show "s' = snd (if_cancel (fcfs_iface st) k s) \<Longrightarrow>
      True \<and> mset (fcfs_queue s') \<subseteq># mset (fcfs_queue s) \<and>
      bs_total_scheduled s' = bs_total_scheduled s \<and>
      (\<forall>b. finished_count b s' = finished_count b s)"
    by (simp add: fcfs_iface_def fcfs_cancel_def finished_count_def)
qed

section \<open>Order\<close>

lemma fcfs_step_order:
  assumes "sched_step (fcfs_iface st) x s = (rs, s')"
  shows "rs @ fcfs_queue s' = fcfs_queue s @ submitted [x]"
  using assms
  by (cases x)
     (auto simp: fcfs_iface_def fcfs_submit_def fcfs_acquire_def fcfs_complete_def fcfs_cancel_def Let_def
       split: list.splits)

lemma fcfs_run_order:
  "sched_run (fcfs_iface st) xs s = (rs, s') \<Longrightarrow> rs @ fcfs_queue s' = fcfs_queue s @ submitted xs"
proof (induction xs arbitrary: s rs)
  case Nil
  then show ?case by simp
next
  case (Cons x xs)
  obtain r1 s1 where 1: "sched_step (fcfs_iface st) x s = (r1, s1)" by force
  obtain r2 where 2: "sched_run (fcfs_iface st) xs s1 = (r2, s')" and rs: "rs = r1 @ r2"
    using Cons.prems 1 by (auto split: prod.splits)
  have "rs @ fcfs_queue s' = (r1 @ fcfs_queue s1) @ submitted xs"
    using Cons.IH [OF 2] rs by simp
  with fcfs_step_order [OF 1] show ?case by (cases x) auto
qed

section \<open>Properties\<close>

lemma fcfs_queue_init [simp]: "fcfs_queue fcfs_init = []" "bs_total_scheduled fcfs_init = 0"
  "finished_count b fcfs_init = 0"
  by (simp_all add: fcfs_init_def base_state.defs fcfs.defs base_init_def finished_count_def)

text \<open>
  C15: first come, first served. In any history of submissions, acquisitions, completions and
  cancellations on a new scheduler, the requests acquired, followed by those still queued, are
  exactly the submitted requests in the order of their submission. In particular a
  cancellation never takes a request out of the queue: a cancelled request is still acquired,
  in its turn.
\<close>

theorem fcfs_order:
  "fst (sched_run (fcfs_iface st) ops fcfs_init) @ fcfs_queue (snd (sched_run (fcfs_iface st) ops fcfs_init))
     = submitted ops"
  using fcfs_run_order [of st ops fcfs_init] by (cases "sched_run (fcfs_iface st) ops fcfs_init") simp

text \<open>
  The counters of the FCFS scheduler are exact. After any history, the number scheduled is
  the number of submissions, which is the number acquired plus the queue depth, and the
  completed and failed counts are the numbers of completions reported as such.
\<close>

theorem fcfs_accounting:
  assumes "sched_run (fcfs_iface st) ops fcfs_init = (rs, s)"
  shows "bs_total_scheduled s = length (submitted ops) \<and>
    bs_total_scheduled s = length rs + fcfs_queue_depth s \<and>
    bs_total_completed s = completions True ops \<and> bs_total_errors s = completions False ops"
proof -
  have adm: "admissible (\<lambda>_ _. True) (fcfs_iface st) ops s0" for s0
    by (induction ops arbitrary: s0) (auto split: sched_op.split)
  note r = fcfs_sched.run_ok [OF TrueI adm assms]
  have "length rs + length (fcfs_queue s) = length (submitted ops)"
    using fcfs_run_order [OF assms] by (metis append_Nil fcfs_queue_init(1) length_append)
  moreover have "finished_count b s = completions b ops" for b using r by simp
  from this [of True] this [of False]
  have "bs_total_completed s = completions True ops" "bs_total_errors s = completions False ops"
    by (simp_all add: finished_count_def)
  ultimately show ?thesis using r by (simp add: fcfs_queue_depth_def)
qed

theorem fcfs_accounting_witness:
  "\<exists>rs s. sched_run (fcfs_iface (\<lambda>r. sample_request ''id'' 20))
     [Submit None 0, Submit None 1, Acquire None, Complete ''id'' True] fcfs_init = (rs, s) \<and>
     bs_total_scheduled s = length rs + fcfs_queue_depth s \<and> bs_total_completed s = 1"
proof -
  let ?st = "\<lambda>r. sample_request ''id'' 20"
  let ?ops = "[Submit None 0, Submit None 1, Acquire None, Complete ''id'' True]"
  obtain rs s where e: "sched_run (fcfs_iface ?st) ?ops fcfs_init = (rs, s)" by force
  from fcfs_accounting [OF e] e show ?thesis by auto
qed

end
