(* ===== verification/FeatureVec.thy ===== *)
theory FeatureVec
  imports Py_Prelude
begin

text \<open>
  The feature schema of \<^verbatim>\<open>python/predictor/features.py\<close>: the canonical order of the forty
  features and the vector type whose constructor checks the length. Training and inference
  exchange vectors as lists and as dictionaries keyed by name; the lemmas show that these
  conversions are inverse to each other and reject everything else.
\<close>

section \<open>Schema\<close>

definition FEATURE_NAMES :: "string list" where
  "FEATURE_NAMES = [
     ''prompt_token_count'', ''prompt_char_count'', ''word_count'', ''avg_token_length'',
     ''avg_word_length'', ''vocabulary_size'', ''unique_word_ratio'', ''prompt_entropy'',
     ''information_density'', ''punctuation_count'', ''question_mark_count'',
     ''exclamation_count'', ''period_count'', ''comma_count'', ''digit_count'',
     ''uppercase_ratio'', ''lowercase_ratio'', ''whitespace_ratio'', ''has_markdown'',
     ''has_code_fence'', ''has_python'', ''has_sql'', ''has_json'', ''has_xml'', ''has_yaml'',
     ''url_count'', ''newline_count'', ''conversation_turn_count'', ''has_system_prompt'',
     ''has_assistant_prompt'', ''has_user_prompt'', ''language_code'', ''unicode_ratio'',
     ''reasoning_score'', ''coding_probability'', ''stopword_ratio'', ''sentence_count'',
     ''avg_sentence_length'', ''named_entity_count'', ''embedding_norm'']"

definition NUM_FEATURES :: nat where
  "NUM_FEATURES = length FEATURE_NAMES"

lemma NUM_FEATURES_eq: "NUM_FEATURES = 40"
  by (simp add: NUM_FEATURES_def FEATURE_NAMES_def)

lemma distinct_FEATURE_NAMES: "distinct FEATURE_NAMES"
  by (simp add: FEATURE_NAMES_def)

section \<open>Vectors\<close>

record feature_vector =
  fv_values :: "real list"

text \<open>\<^verbatim>\<open>FeatureVector(values)\<close> with its \<^verbatim>\<open>__post_init__\<close>.\<close>

definition mk_feature_vector :: "real list \<Rightarrow> feature_vector pyres" where
  "mk_feature_vector vs =
     (if length vs \<noteq> NUM_FEATURES then Inl (ValueError ''Expected 40 features'')
      else Inr \<lparr>fv_values = vs\<rparr>)"

definition as_list :: "feature_vector \<Rightarrow> real list" where
  "as_list v = fv_values v"

text \<open>\<^verbatim>\<open>dict(zip(FEATURE_NAMES, self.values, strict=True))\<close>.\<close>

definition as_dict :: "feature_vector \<Rightarrow> (string, real) dict pyres" where
  "as_dict v =
     (if length FEATURE_NAMES = length (fv_values v)
      then Inr (fold (\<lambda>(k, x) d. dict_set k x d) (zip FEATURE_NAMES (fv_values v)) [])
      else Inl (ValueError ''zip() argument length''))"

fun collect :: "string list \<Rightarrow> (string, real) dict \<Rightarrow> real list pyres" where
  "collect [] d = Inr []"
| "collect (k # ks) d =
     (case dict_get d k of
        None \<Rightarrow> Inl (KeyError k)
      | Some x \<Rightarrow> bind_res (collect ks d) (\<lambda>xs. Inr (x # xs)))"

definition from_dict :: "(string, real) dict \<Rightarrow> feature_vector pyres" where
  "from_dict d = bind_res (collect FEATURE_NAMES d) mk_feature_vector"

definition zeros :: "feature_vector pyres" where
  "zeros = mk_feature_vector (map (\<lambda>_. 0) FEATURE_NAMES)"

section \<open>Conversions\<close>

lemma fold_dict_set:
  "distinct (map fst kvs) \<Longrightarrow> fst ` set kvs \<inter> dict_keys d = {} \<Longrightarrow>
     fold (\<lambda>(k, x) d. dict_set k x d) kvs d = d @ kvs"
proof (induction kvs arbitrary: d)
  case Nil
  then show ?case by simp
next
  case (Cons kv kvs)
  have upd: "dict_set k x d = d @ [(k, x)]" if "k \<notin> dict_keys d" for k x and d :: "('a, 'b) dict"
    using that by (induction d) auto
  obtain k x where kv: "kv = (k, x)" by force
  have "fold (\<lambda>(k, x) d. dict_set k x d) kvs (d @ [(k, x)]) = (d @ [(k, x)]) @ kvs"
    using Cons.prems kv by (intro Cons.IH) auto
  with upd [of k d x] Cons.prems kv show ?case by auto
qed

lemma as_dict_eq:
  "length (fv_values v) = NUM_FEATURES \<Longrightarrow> as_dict v = Inr (zip FEATURE_NAMES (fv_values v))"
  using distinct_FEATURE_NAMES by (simp add: as_dict_def NUM_FEATURES_def fold_dict_set)

lemma collect_zip:
  "distinct ks \<Longrightarrow> length xs = length ks \<Longrightarrow> map_of d = map_of (zip ks xs) \<Longrightarrow> collect ks d = Inr xs"
proof -
  assume a: "distinct ks" "length xs = length ks" "map_of d = map_of (zip ks xs)"
  have "collect js d = Inr ys" if "length ys = length js" "\<And>i. i < length js \<Longrightarrow> map_of d (js ! i) = Some (ys ! i)" for js ys
    using that
  proof (induction js arbitrary: ys)
    case Nil
    then show ?case by simp
  next
    case (Cons j js)
    then obtain y zs where "ys = y # zs" by (cases ys) auto
    with Cons.prems Cons.IH [of zs] show ?case by fastforce
  qed
  then show ?thesis
    using a by (metis (no_types, lifting) map_of_zip_nth)
qed

lemma collect_Inr:
  "collect ks d = Inr xs \<Longrightarrow> length xs = length ks \<and> (\<forall>i < length ks. dict_get d (ks ! i) = Some (xs ! i))"
proof (induction ks arbitrary: xs)
  case Nil
  then show ?case by simp
next
  case (Cons k ks)
  then obtain x ys where "dict_get d k = Some x" "collect ks d = Inr ys" "xs = x # ys"
    by (auto simp: bind_res_Inr_iff split: option.splits)
  with Cons.IH [of ys] show ?case by (auto simp: nth_Cons split: nat.split)
qed

lemma collect_missing:
  "(\<exists>e. collect ks d = Inl e) \<longleftrightarrow> (\<exists>k \<in> set ks. dict_get d k = None)"
  by (induction ks) (auto simp: bind_res_def split: option.splits sum.splits)

section \<open>Properties\<close>

text \<open>
  Features survive the trip through a dictionary. Every vector the constructor accepts has
  exactly forty values, converts to a dictionary without error, and \<^verbatim>\<open>from_dict\<close> restores the
  same vector.
\<close>

theorem feature_dict_roundtrip:
  assumes "mk_feature_vector vs = Inr v"
  shows "length vs = 40 \<and> as_list v = vs \<and> bind_res (as_dict v) from_dict = Inr v"
proof -
  have l: "length vs = NUM_FEATURES" and v: "v = \<lparr>fv_values = vs\<rparr>"
    using assms by (auto simp: mk_feature_vector_def split: if_splits)
  then have "collect FEATURE_NAMES (zip FEATURE_NAMES vs) = Inr vs"
    using distinct_FEATURE_NAMES by (intro collect_zip) (simp_all add: NUM_FEATURES_def)
  with l v show ?thesis
    by (simp add: as_dict_eq from_dict_def as_list_def mk_feature_vector_def NUM_FEATURES_eq)
qed

theorem feature_dict_roundtrip_witness:
  "bind_res (as_dict \<lparr>fv_values = replicate 40 1\<rparr>) from_dict = Inr \<lparr>fv_values = replicate 40 1\<rparr>"
proof -
  have "mk_feature_vector (replicate 40 1) = Inr \<lparr>fv_values = replicate 40 1\<rparr>"
    by (simp add: mk_feature_vector_def NUM_FEATURES_eq)
  from feature_dict_roundtrip [OF this] show ?thesis by blast
qed

text \<open>
  \<^verbatim>\<open>from_dict\<close> needs every feature. It succeeds exactly when all forty names are present,
  then lists the values in the canonical order whatever the order (and the extra keys) of the
  dictionary; otherwise it raises \<^verbatim>\<open>KeyError\<close> and never a length error.
\<close>

theorem from_dict_total:
  "(case from_dict d of
      Inr v \<Rightarrow> length (as_list v) = 40 \<and> (\<forall>i < 40. dict_get d (FEATURE_NAMES ! i) = Some (as_list v ! i))
    | Inl e \<Rightarrow> (\<exists>k \<in> set FEATURE_NAMES. e = KeyError k \<and> dict_get d k = None))"
proof (cases "collect FEATURE_NAMES d")
  case (Inl e)
  have "\<exists>k \<in> set ks. e = KeyError k \<and> dict_get d k = None" if "collect ks d = Inl e" for ks
    using that by (induction ks) (auto simp: bind_res_def split: option.splits sum.splits)
  with Inl show ?thesis by (simp add: from_dict_def)
next
  case (Inr xs)
  with collect_Inr [OF Inr] show ?thesis
    by (simp add: from_dict_def mk_feature_vector_def as_list_def) (simp flip: NUM_FEATURES_def add: NUM_FEATURES_eq)
qed

theorem from_dict_total_witness:
  "case from_dict [] of Inr v \<Rightarrow> False | Inl e \<Rightarrow> e = KeyError ''prompt_token_count''"
  using from_dict_total [of "[]"] by (simp add: from_dict_def FEATURE_NAMES_def)

end
