(* ===== verification/Predictor.thy ===== *)
theory Predictor
  imports FeatureVec
begin

text \<open>
  The output-length predictor: \<^verbatim>\<open>python/predictor/model.py\<close> (the output clamp around the
  network), \<^verbatim>\<open>predictor.py\<close> (feature normalisation and the PyTorch predictor) and
  \<^verbatim>\<open>inference.py\<close> (the ONNX and TorchScript backends). The network itself, the exported graphs
  and the feature extractor are arguments; NumPy's one-dimensional broadcasting is modelled,
  with the error it raises. Single precision is not modelled. Theory \<open>OutputModel\<close> has the network.
\<close>

section \<open>Arrays\<close>

text \<open>Elementwise binary operation with broadcasting of one-dimensional arrays.\<close>

definition np_bcast :: "(real \<Rightarrow> real \<Rightarrow> real) \<Rightarrow> real list \<Rightarrow> real list \<Rightarrow> real list pyres" where
  "np_bcast f xs ys =
     (if length xs = length ys then Inr (map2 f xs ys)
      else if length xs = 1 then Inr (map (f (hd xs)) ys)
      else if length ys = 1 then Inr (map (\<lambda>x. f x (hd ys)) xs)
      else Inl (ValueError ''operands could not be broadcast together''))"

text \<open>\<^verbatim>\<open>np.where(std < 1e-8, 1.0, std)\<close>.\<close>

definition std_safe :: "real list \<Rightarrow> real list" where
  "std_safe std = map (\<lambda>x. if x < 1 / 10 ^ 8 then 1 else x) std"

definition normalise :: "real list \<Rightarrow> real list \<Rightarrow> real list \<Rightarrow> real list pyres" where
  "normalise mean std arr =
     bind_res (np_bcast (-) arr mean) (\<lambda>d. np_bcast (/) d (std_safe std))"

section \<open>Model\<close>

record model_config =
  mc_input_dim :: nat
  mc_hidden_dim :: nat
  mc_dropout :: real
  mc_output_min :: real
  mc_output_max :: real

definition default_model_config :: model_config where
  "default_model_config = \<lparr>mc_input_dim = NUM_FEATURES, mc_hidden_dim = 128, mc_dropout = 1 / 10,
     mc_output_min = 1, mc_output_max = 4096\<rparr>"

text \<open>
  \<^verbatim>\<open>torch.clamp\<close>; \<open>net\<close> is the sequential network in evaluation mode on one row, which raises
  when the row has the wrong width.
\<close>

definition clamp :: "real \<Rightarrow> real \<Rightarrow> real \<Rightarrow> real" where
  "clamp lo hi x = min (max x lo) hi"

type_synonym network = "real list \<Rightarrow> real pyres"

definition mlp_forward :: "model_config \<Rightarrow> network \<Rightarrow> real list \<Rightarrow> real pyres" where
  "mlp_forward c net x =
     bind_res (net x) (\<lambda>out. Inr (clamp (mc_output_min c) (mc_output_max c) out))"

section \<open>Predictors\<close>

record extraction_result =
  er_features :: feature_vector
  er_latency_ms :: real
  er_prompt :: string

record prediction_result =
  pr_predicted_tokens :: real
  pr_features :: feature_vector
  pr_feature_latency_ms :: real
  pr_predict_latency_ms :: real

definition total_latency_ms :: "prediction_result \<Rightarrow> real" where
  "total_latency_ms r = pr_feature_latency_ms r + pr_predict_latency_ms r"

record predictor =
  op_config :: model_config
  op_net :: network
  op_extract :: "string \<Rightarrow> extraction_result pyres"
  op_mean :: "real list option"
  op_std :: "real list option"

definition to_tensor :: "predictor \<Rightarrow> feature_vector \<Rightarrow> real list pyres" where
  "to_tensor p v =
     (case (op_mean p, op_std p) of
        (Some m, Some s) \<Rightarrow> normalise m s (as_list v)
      | _ \<Rightarrow> Inr (as_list v))"

text \<open>\<open>t0\<close> and \<open>t1\<close> are the readings of \<^verbatim>\<open>time.perf_counter()\<close> around the inference.\<close>

definition predict :: "predictor \<Rightarrow> real \<Rightarrow> real \<Rightarrow> string \<Rightarrow> prediction_result pyres" where
  "predict p t0 t1 prompt =
     bind_res (op_extract p prompt) (\<lambda>ext.
     bind_res (to_tensor p (er_features ext)) (\<lambda>tensor.
     bind_res (mlp_forward (op_config p) (op_net p) tensor) (\<lambda>pred.
       Inr \<lparr>pr_predicted_tokens = pred, pr_features = er_features ext,
            pr_feature_latency_ms = er_latency_ms ext,
            pr_predict_latency_ms = (t1 - t0) * 1000\<rparr>)))"

text \<open>
  \<^verbatim>\<open>metadata.json\<close> as the loaders read it: absent, or with optional lists
  \<^verbatim>\<open>feature_mean\<close> and \<^verbatim>\<open>feature_std\<close> (each defaulting to the empty list).
\<close>

type_synonym norm_meta = "(real list option \<times> real list option) option"

definition or_empty :: "real list option \<Rightarrow> real list" where
  "or_empty x = (case x of None \<Rightarrow> [] | Some xs \<Rightarrow> xs)"

text \<open>\<^verbatim>\<open>OutputLengthPredictor.from_checkpoint\<close>: an empty mean switches normalisation off.\<close>

definition checkpoint_norm :: "norm_meta \<Rightarrow> real list option \<times> real list option" where
  "checkpoint_norm meta =
     (case meta of
        None \<Rightarrow> (None, None)
      | Some (m, s) \<Rightarrow>
          (let mean = or_empty m; std = or_empty s
           in if length mean = 0 then (None, None) else (Some mean, Some std)))"

definition from_checkpoint ::
  "network \<Rightarrow> (string \<Rightarrow> extraction_result pyres) \<Rightarrow> norm_meta \<Rightarrow> predictor" where
  "from_checkpoint net extract meta =
     (case checkpoint_norm meta of (mean, std) \<Rightarrow>
        \<lparr>op_config = default_model_config, op_net = net, op_extract = extract,
         op_mean = mean, op_std = std\<rparr>)"

text \<open>\<^verbatim>\<open>inference._load_norm_arrays\<close>: arrays are kept even when they are empty.\<close>

definition load_norm_arrays :: "norm_meta option \<Rightarrow> real list option \<times> real list option" where
  "load_norm_arrays path =
     (case path of
        None \<Rightarrow> (None, None)
      | Some None \<Rightarrow> (None, None)
      | Some (Some (m, s)) \<Rightarrow> (Some (or_empty m), Some (or_empty s)))"

record graph_predictor =
  gp_run :: network
  gp_mean :: "real list option"
  gp_std :: "real list option"

definition mk_graph_predictor :: "network \<Rightarrow> norm_meta option \<Rightarrow> graph_predictor" where
  "mk_graph_predictor run path =
     (case load_norm_arrays path of (mean, std) \<Rightarrow> \<lparr>gp_run = run, gp_mean = mean, gp_std = std\<rparr>)"

text \<open>
  \<^verbatim>\<open>ONNXPredictor.predict\<close> normalises when it has a mean; a missing \<^verbatim>\<open>_std\<close> is then compared with a
  float, a \<^verbatim>\<open>TypeError\<close>.
\<close>

definition onnx_predict :: "graph_predictor \<Rightarrow> real \<Rightarrow> real \<Rightarrow> feature_vector \<Rightarrow> (real \<times> real) pyres" where
  "onnx_predict g t0 t1 v =
     bind_res
       (case gp_mean g of
          None \<Rightarrow> Inr (as_list v)
        | Some m \<Rightarrow> (case gp_std g of None \<Rightarrow> Inl TypeError | Some s \<Rightarrow> normalise m s (as_list v)))
       (\<lambda>arr. bind_res (gp_run g arr) (\<lambda>out. Inr (out, (t1 - t0) * 1000)))"

definition torchscript_predict ::
  "graph_predictor \<Rightarrow> real \<Rightarrow> real \<Rightarrow> feature_vector \<Rightarrow> (real \<times> real) pyres" where
  "torchscript_predict g t0 t1 v =
     bind_res
       (case (gp_mean g, gp_std g) of
          (Some m, Some s) \<Rightarrow> normalise m s (as_list v)
        | _ \<Rightarrow> Inr (as_list v))
       (\<lambda>arr. bind_res (gp_run g arr) (\<lambda>out. Inr (out, (t1 - t0) * 1000)))"

datatype backend = PyTorchBackend predictor | OnnxBackend graph_predictor | TorchScriptBackend graph_predictor

text \<open>\<^verbatim>\<open>load_predictor\<close>: any other backend name means PyTorch.\<close>

definition load_predictor ::
  "string \<Rightarrow> network \<Rightarrow> network \<Rightarrow> network \<Rightarrow> (string \<Rightarrow> extraction_result pyres) \<Rightarrow> norm_meta \<Rightarrow> backend" where
  "load_predictor name net onnx ts extract meta =
     (if name = ''onnx'' then OnnxBackend (mk_graph_predictor onnx (Some meta))
      else if name = ''torchscript'' then TorchScriptBackend (mk_graph_predictor ts (Some meta))
      else PyTorchBackend (from_checkpoint net extract meta))"

section \<open>Facts\<close>

lemma clamp_bounds: "lo \<le> hi \<Longrightarrow> lo \<le> clamp lo hi x \<and> clamp lo hi x \<le> hi"
  by (simp add: clamp_def)

lemma clamp_id: "lo \<le> x \<Longrightarrow> x \<le> hi \<Longrightarrow> clamp lo hi x = x"
  by (simp add: clamp_def)

lemma predict_Inr_iff:
  "predict p t0 t1 prompt = Inr r \<longleftrightarrow>
     (\<exists>ext x out. op_extract p prompt = Inr ext \<and> to_tensor p (er_features ext) = Inr x \<and>
        op_net p x = Inr out \<and>
        r = \<lparr>pr_predicted_tokens = clamp (mc_output_min (op_config p)) (mc_output_max (op_config p)) out,
             pr_features = er_features ext, pr_feature_latency_ms = er_latency_ms ext,
             pr_predict_latency_ms = (t1 - t0) * 1000\<rparr>)"
  by (auto simp: predict_def mlp_forward_def bind_res_Inr_iff)

lemma std_safe_nth:
  "i < length s \<Longrightarrow> 1 / 10 ^ 8 \<le> std_safe s ! i \<and> (s ! i \<ge> 1 / 10 ^ 8 \<longrightarrow> std_safe s ! i = s ! i)"
  by (simp add: std_safe_def)

lemma length_std_safe [simp]: "length (std_safe s) = length s"
  by (simp add: std_safe_def)

lemma normalise_same_length:
  assumes "length m = length xs" and "length s = length xs"
  shows "\<exists>ys. normalise m s xs = Inr ys \<and> length ys = length xs \<and>
    (\<forall>i < length xs. ys ! i * std_safe s ! i + m ! i = xs ! i)"
proof -
  let ?ys = "map2 (/) (map2 (-) xs m) (std_safe s)"
  have "normalise m s xs = Inr ?ys" using assms by (simp add: normalise_def np_bcast_def)
  moreover have "?ys ! i * std_safe s ! i + m ! i = xs ! i" if "i < length xs" for i
    using that assms std_safe_nth [of i s] by simp
  ultimately show ?thesis using assms by force
qed

section \<open>Properties\<close>

text \<open>
  Predictions are in range. Whatever the network computes, a prediction that returns lies
  between the configured output bounds; with the default configuration between 1 and 4096
  tokens, so it is never zero and never mistaken for a missing prediction.
\<close>

theorem prediction_in_range:
  assumes "predict p t0 t1 prompt = Inr r" and "op_config p = default_model_config"
  shows "1 \<le> pr_predicted_tokens r \<and> pr_predicted_tokens r \<le> 4096"
  using assms clamp_bounds [of 1 4096] by (auto simp: predict_Inr_iff default_model_config_def)

definition sample_predictor :: "real \<Rightarrow> predictor" where
  "sample_predictor out = \<lparr>op_config = default_model_config, op_net = (\<lambda>_. Inr out),
     op_extract = (\<lambda>s. Inr \<lparr>er_features = \<lparr>fv_values = replicate 40 2\<rparr>, er_latency_ms = 0, er_prompt = s\<rparr>),
     op_mean = Some (replicate 40 1), op_std = Some (replicate 40 0)\<rparr>"

lemma sample_tensor: "to_tensor (sample_predictor out) \<lparr>fv_values = replicate 40 2\<rparr> = Inr (replicate 40 1)"
  by (simp add: to_tensor_def sample_predictor_def as_list_def normalise_def np_bcast_def std_safe_def
      numeral_eq_Suc)

theorem prediction_in_range_witness:
  "\<exists>r. predict (sample_predictor (- 7)) 0 1 ''hi'' = Inr r \<and> 1 \<le> pr_predicted_tokens r"
proof -
  let ?p = "sample_predictor (- 7)"
  have "op_config ?p = default_model_config" by (simp add: sample_predictor_def)
  moreover obtain r where "predict ?p 0 1 ''hi'' = Inr r"
    using sample_tensor [of "- 7"]
    by (simp add: predict_Inr_iff) (auto simp: sample_predictor_def)
  ultimately show ?thesis using prediction_in_range by blast
qed

text \<open>
  C21: normalisation is well defined and invertible. With forty means and deviations, every
  feature vector is normalised without error to forty values; no deviation used as a divisor
  is smaller than 1e-8, and multiplying by it and adding the mean restores the feature.
\<close>

theorem normalisation_invertible:
  assumes "mk_feature_vector vs = Inr v" and "op_mean p = Some m" and "op_std p = Some s"
    and "length m = 40" and "length s = 40"
  shows "\<exists>ys. to_tensor p v = Inr ys \<and> length ys = 40 \<and>
    (\<forall>i < 40. 1 / 10 ^ 8 \<le> std_safe s ! i \<and> ys ! i * std_safe s ! i + m ! i = as_list v ! i)"
proof -
  have v: "as_list v = vs" "length vs = 40"
    using assms(1) by (auto simp: mk_feature_vector_def as_list_def NUM_FEATURES_eq split: if_splits)
  with normalise_same_length [of m vs s] assms std_safe_nth [of _ s] show ?thesis
    by (auto simp: to_tensor_def)
qed

theorem normalisation_invertible_witness:
  "\<exists>ys. to_tensor (sample_predictor 3) \<lparr>fv_values = replicate 40 2\<rparr> = Inr ys \<and> length ys = 40"
proof -
  have "mk_feature_vector (replicate 40 2) = Inr \<lparr>fv_values = replicate 40 2\<rparr>"
    by (simp add: mk_feature_vector_def NUM_FEATURES_eq)
  moreover have "op_mean (sample_predictor 3) = Some (replicate 40 1)"
    "op_std (sample_predictor 3) = Some (replicate 40 0)" by (simp_all add: sample_predictor_def)
  ultimately show ?thesis
    using normalisation_invertible [of "replicate 40 2" _ "sample_predictor 3"] by fastforce
qed



text \<open>
  Metadata without a mean breaks the graph backends only. When \<^verbatim>\<open>metadata.json\<close> exists but has
  no \<^verbatim>\<open>feature_mean\<close>, the checkpoint predictor skips normalisation, while the ONNX and the
  TorchScript predictor raise a broadcasting \<^verbatim>\<open>ValueError\<close> on every feature vector.
\<close>

theorem empty_mean_breaks_graph_backends:
  assumes "mk_feature_vector vs = Inr v"
  shows "to_tensor (from_checkpoint net extract (Some (None, s))) v = Inr vs \<and>
    onnx_predict (mk_graph_predictor run (Some (Some (None, s)))) t0 t1 v
      = Inl (ValueError ''operands could not be broadcast together'') \<and>
    torchscript_predict (mk_graph_predictor run (Some (Some (None, s)))) t0 t1 v
      = Inl (ValueError ''operands could not be broadcast together'')"
proof -
  have v: "as_list v = vs" "length vs = 40"
    using assms by (auto simp: mk_feature_vector_def as_list_def NUM_FEATURES_eq split: if_splits)
  then show ?thesis
    by (auto simp: from_checkpoint_def checkpoint_norm_def or_empty_def to_tensor_def onnx_predict_def
        torchscript_predict_def mk_graph_predictor_def load_norm_arrays_def normalise_def np_bcast_def)
qed

theorem empty_mean_breaks_graph_backends_witness:
  "onnx_predict (mk_graph_predictor (\<lambda>x. Inr 5) (Some (Some (None, None)))) 0 1 \<lparr>fv_values = replicate 40 2\<rparr>
     = Inl (ValueError ''operands could not be broadcast together'')"
proof -
  have "mk_feature_vector (replicate 40 2) = Inr \<lparr>fv_values = replicate 40 2\<rparr>"
    by (simp add: mk_feature_vector_def NUM_FEATURES_eq)
  from empty_mean_breaks_graph_backends [OF this] show ?thesis by blast
qed

end
