(* ===== verification/SjfScheduler.thy ===== *)
theory SjfScheduler
  imports PriorityQueue Aging FcfsScheduler Predictor
begin

text \<open>
  The schedulers of \<^verbatim>\<open>python/scheduler/sjf_scheduler.py\<close>: the predicted shortest-job-first
  scheduler with its fallback and its aging loop, the oracle scheduler and \<^verbatim>\<open>build_scheduler\<close>.
  No operation suspends except \<^verbatim>\<open>acquire\<close>, inside the queue it waits on, so each is a function
  on the pair of the request store and the scheduler's state; clock readings are collected in
  a record the caller supplies. The aging loop's effect on priorities is studied in theory
  \<open>SjfAging\<close>.
\<close>

section \<open>The predicted scheduler\<close>

text \<open>The background task: not started, running, or ended by an exception of its body.\<close>

datatype aging_task = NoTask | Running | Failed pyexn

record sjf = base_state +
  sjf_predictor :: predictor
  sjf_queue :: "oref pqueue"
  sjf_aging :: aging_fn
  sjf_aging_config :: aging_config
  sjf_fallback_to_fcfs :: pyval
  sjf_fcfs_fallback :: "fcfs option"
  sjf_aging_interval :: pyval
  sjf_max_retries :: int
  sjf_timeout :: pyval
  sjf_pending :: "(string, oref) dict"
  sjf_use_fallback :: bool
  sjf_aging_task :: aging_task
  sjf_dispatcher_ready :: bool

definition mk_sjf ::
  "predictor \<Rightarrow> aging_config option \<Rightarrow> pyval \<Rightarrow> pyval \<Rightarrow> int \<Rightarrow> pyval \<Rightarrow> sjf pyres" where
  "mk_sjf p cfg fallback interval retries timeout =
     (let c = (case cfg of None \<Rightarrow> default_aging_config | Some c \<Rightarrow> c)
      in bind_res (create_aging c) (\<lambda>a.
           Inr (base_state.extend (base_init ''sjf'')
             (sjf.fields p pq_init a c fallback (if truthy fallback then Some fcfs_init else None)
               interval retries timeout [] False NoTask False))))"

definition sjf_start :: "sjf \<Rightarrow> sjf" where
  "sjf_start s =
     (if sjf_aging_task s = NoTask then s\<lparr>sjf_aging_task := Running, sjf_dispatcher_ready := True\<rparr>
      else s)"

text \<open>Awaiting a task that has failed re-raises its exception, before the field is reset.\<close>

definition sjf_stop :: "sjf \<Rightarrow> pyexn option \<times> sjf" where
  "sjf_stop s =
     (case sjf_aging_task s of
        NoTask \<Rightarrow> (None, s)
      | Running \<Rightarrow> (None, s\<lparr>sjf_aging_task := NoTask\<rparr>)
      | Failed e \<Rightarrow> (Some e, s))"

text \<open>
  Readings of the clocks during one call: around the inference, around the scheduling decision,
  at the enqueue, and in \<^verbatim>\<open>dequeue\<close>; \<open>ck_timeout\<close> is the argument of \<^verbatim>\<open>acquire\<close>.
\<close>

record clocks =
  ck_infer0 :: real
  ck_infer1 :: real
  ck_sched0 :: real
  ck_sched1 :: real
  ck_now :: real
  ck_dq0 :: real
  ck_dq1 :: real
  ck_dq2 :: real
  ck_timeout :: "real option"

type_synonym 's world = "store \<times> 's"

text \<open>The \<^verbatim>\<open>try\<close> statement of \<^verbatim>\<open>submit\<close>: the tokens to schedule by, and the state after it.\<close>

definition sjf_predict :: "clocks \<Rightarrow> scheduled_request \<Rightarrow> sjf \<Rightarrow> real \<times> sjf" where
  "sjf_predict ck req s =
     (if sr_predicted_tokens req \<noteq> 0 then (sr_predicted_tokens req, s)
      else case predict (sjf_predictor s) (ck_infer0 ck) (ck_infer1 ck) (sr_prompt req) of
        Inr pred \<Rightarrow>
          (pr_predicted_tokens pred,
           record_timing (pr_feature_latency_ms pred) (pr_predict_latency_ms pred) 0 s)
      | Inl e \<Rightarrow>
          (real_of_int (sr_max_tokens req),
           if sjf_fcfs_fallback s \<noteq> None then s\<lparr>sjf_use_fallback := True\<rparr> else s))"

definition sjf_submit :: "clocks \<Rightarrow> oref \<Rightarrow> sjf world \<Rightarrow> sjf world" where
  "sjf_submit ck r w =
     (case w of (st, s) \<Rightarrow>
      let (toks, s1) = sjf_predict ck (st r) s;
          schedule_ms = (ck_sched1 ck - ck_sched0 ck) * 1000;
          req = (st r)\<lparr>sr_predicted_tokens := toks, sr_priority := toks,
                       sr_metadata := dict_set ''schedule_ms'' (MFloat schedule_ms) (sr_metadata (st r))\<rparr>;
          st1 = st(r := req);
          s2 = (case (sjf_use_fallback s1, sjf_fcfs_fallback s1) of
                  (True, Some fb) \<Rightarrow> s1\<lparr>sjf_fcfs_fallback := Some (fcfs_submit st1 r fb)\<rparr>
                | _ \<Rightarrow> s1\<lparr>sjf_pending := dict_set (sr_request_id req) r (sjf_pending s1),
                         sjf_queue := pq_enqueue (ck_now ck) (sr_request_id req) toks r (sjf_queue s1)\<rparr>)
      in (st1, s2\<lparr>bs_total_scheduled := bs_total_scheduled s2 + 1\<rparr>))"

text \<open>One pass of \<^verbatim>\<open>queue.dequeue\<close> and the payload of its entry.\<close>

definition queue_acquire :: "clocks \<Rightarrow> oref pqueue \<Rightarrow> oref acq \<times> oref pqueue" where
  "queue_acquire ck q =
     (case dequeue_iter (ck_now ck) (ck_dq1 ck) (ck_dq2 ck)
             (dq_deadline (ck_dq0 ck) (ck_timeout ck)) q of
        (DqItem it, q') \<Rightarrow> (Acquired (pi_payload it), q')
      | (DqTimeout, q') \<Rightarrow> (AcqTimeout, q')
      | (DqWait l, q') \<Rightarrow> (Waits l, q'))"

definition sjf_acquire :: "clocks \<Rightarrow> sjf world \<Rightarrow> oref acq \<times> sjf world" where
  "sjf_acquire ck w =
     (case w of (st, s) \<Rightarrow>
      case (sjf_use_fallback s, sjf_fcfs_fallback s) of
        (True, Some fb) \<Rightarrow>
          (case fcfs_acquire (ck_timeout ck) fb of
             (a, fb') \<Rightarrow> (a, st, s\<lparr>sjf_fcfs_fallback := Some fb'\<rparr>))
      | _ \<Rightarrow>
          (case queue_acquire ck (sjf_queue s) of (a, q') \<Rightarrow> (a, st, s\<lparr>sjf_queue := q'\<rparr>)))"

definition sjf_complete :: "string \<Rightarrow> bool \<Rightarrow> sjf \<Rightarrow> sjf" where
  "sjf_complete rid success s =
     count_completion success
       (s\<lparr>sjf_pending := dict_pop rid (sjf_pending s),
          sjf_fcfs_fallback := map_option (fcfs_complete rid success) (sjf_fcfs_fallback s)\<rparr>)"

definition sjf_cancel :: "string \<Rightarrow> sjf \<Rightarrow> bool \<times> sjf" where
  "sjf_cancel rid s =
     (let s1 = s\<lparr>sjf_pending := dict_pop rid (sjf_pending s),
                 sjf_fcfs_fallback := map_option (\<lambda>fb. snd (fcfs_cancel rid fb)) (sjf_fcfs_fallback s)\<rparr>
      in case pq_cancel rid (sjf_queue s1) of (b, q') \<Rightarrow> (b, s1\<lparr>sjf_queue := q'\<rparr>))"

definition sjf_queue_depth :: "sjf \<Rightarrow> nat" where
  "sjf_queue_depth s =
     (case (sjf_use_fallback s, sjf_fcfs_fallback s) of
        (True, Some fb) \<Rightarrow> fcfs_queue_depth fb
      | _ \<Rightarrow> pq_depth (sjf_queue s))"

text \<open>\<^verbatim>\<open>on_reload\<close>: the configuration is stored before the policy is looked up.\<close>

definition sjf_on_reload :: "(string, pyval) dict \<Rightarrow> sjf \<Rightarrow> pyexn option \<times> sjf" where
  "sjf_on_reload config s =
     (let set_flag = (\<lambda>s. case dict_get config ''fallback_to_fcfs'' of
                             None \<Rightarrow> s
                           | Some v \<Rightarrow> s\<lparr>sjf_fallback_to_fcfs := PBool (truthy v)\<rparr>)
      in case dict_get config ''aging'' of
           None \<Rightarrow> (None, set_flag s)
         | Some v \<Rightarrow>
             (case mk_aging_config v of
                Inl e \<Rightarrow> (Some e, s)
              | Inr c \<Rightarrow>
                  let s1 = s\<lparr>sjf_aging_config := c\<rparr>
                  in case create_aging c of
                       Inl e \<Rightarrow> (Some e, s1)
                     | Inr a \<Rightarrow> (None, set_flag (s1\<lparr>sjf_aging := a\<rparr>))))"

section \<open>The aging loop\<close>

text \<open>
  The body of the \<^verbatim>\<open>for\<close> loop of \<^verbatim>\<open>_aging_loop\<close> for one pending request; an exception ends
  the task and leaves the updates made so far.
\<close>

definition age_one :: "real \<Rightarrow> string \<Rightarrow> oref \<Rightarrow> sjf world \<Rightarrow> pyexn option \<times> sjf world" where
  "age_one now rid r w =
     (case w of (st, s) \<Rightarrow>
      let wait = now - sr_enqueue_time (st r)
      in case as_num (sjf_timeout s) of
           Inl e \<Rightarrow> (Some e, w)
         | Inr limit \<Rightarrow>
             if wait > limit then (None, st, snd (sjf_cancel rid s))
             else case aging_boost (sjf_aging s) wait (sr_priority (st r)) of
                    Inl e \<Rightarrow> (Some e, w)
                  | Inr new_priority \<Rightarrow>
                      if new_priority < sr_priority (st r) - 1 / 100
                      then (None, st(r := (st r)\<lparr>sr_priority := new_priority\<rparr>),
                            s\<lparr>sjf_queue := snd (pq_update_priority rid new_priority (sjf_queue s))\<rparr>)
                      else (None, w))"

fun age_all :: "real \<Rightarrow> (string \<times> oref) list \<Rightarrow> sjf world \<Rightarrow> pyexn option \<times> sjf world" where
  "age_all now [] w = (None, w)"
| "age_all now ((rid, r) # rest) w =
     (case age_one now rid r w of
        (Some e, w') \<Rightarrow> (Some e, w')
      | (None, w') \<Rightarrow> age_all now rest w')"

text \<open>
  One turn of \<^verbatim>\<open>while True\<close>: the sleep, which needs a number, and then the loop over a snapshot of the
  pending requests.
\<close>

definition aging_tick :: "real \<Rightarrow> sjf world \<Rightarrow> sjf world" where
  "aging_tick now w =
     (if sjf_aging_task (snd w) \<noteq> Running then w
      else case as_num (sjf_aging_interval (snd w)) of
        Inl e \<Rightarrow> (fst w, (snd w)\<lparr>sjf_aging_task := Failed e\<rparr>)
      | Inr _ \<Rightarrow>
          (case age_all now (sjf_pending (snd w)) w of
             (None, w') \<Rightarrow> w'
           | (Some e, st, s) \<Rightarrow> (st, s\<lparr>sjf_aging_task := Failed e\<rparr>)))"

section \<open>The oracle scheduler\<close>

record oracle_sched = base_state +
  or_queue :: "oref pqueue"

definition oracle_init :: oracle_sched where
  "oracle_init = base_state.extend (base_init ''oracle_sjf'') (oracle_sched.fields pq_init)"

definition oracle_submit :: "clocks \<Rightarrow> oref \<Rightarrow> oracle_sched world \<Rightarrow> oracle_sched world" where
  "oracle_submit ck r w =
     (case w of (st, s) \<Rightarrow>
      let toks = real_of_int (sr_max_tokens (st r));
          req = (st r)\<lparr>sr_predicted_tokens := toks, sr_priority := toks\<rparr>;
          s1 = s\<lparr>or_queue := pq_enqueue (ck_now ck) (sr_request_id req) (sr_priority req) r (or_queue s)\<rparr>
      in (st(r := req), s1\<lparr>bs_total_scheduled := bs_total_scheduled s1 + 1\<rparr>))"

definition oracle_acquire :: "clocks \<Rightarrow> oracle_sched world \<Rightarrow> oref acq \<times> oracle_sched world" where
  "oracle_acquire ck w =
     (case w of (st, s) \<Rightarrow>
      case queue_acquire ck (or_queue s) of (a, q') \<Rightarrow> (a, st, s\<lparr>or_queue := q'\<rparr>))"

definition oracle_complete :: "string \<Rightarrow> bool \<Rightarrow> oracle_sched \<Rightarrow> oracle_sched" where
  "oracle_complete rid success s = count_completion success s"

definition oracle_cancel :: "string \<Rightarrow> oracle_sched \<Rightarrow> bool \<times> oracle_sched" where
  "oracle_cancel rid s = (case pq_cancel rid (or_queue s) of (b, q') \<Rightarrow> (b, s\<lparr>or_queue := q'\<rparr>))"

definition oracle_queue_depth :: "oracle_sched \<Rightarrow> nat" where
  "oracle_queue_depth s = pq_depth (or_queue s)"

section \<open>Building a scheduler\<close>

datatype any_scheduler = AnyFcfs fcfs | AnySjf sjf | AnyOracle oracle_sched

definition build_scheduler ::
  "scheduler_type \<Rightarrow> predictor option \<Rightarrow> pyval \<Rightarrow> any_scheduler pyres" where
  "build_scheduler ty pred config =
     (let config = (if truthy config then config else PDict [])
      in case ty of
           FCFS \<Rightarrow> Inr (AnyFcfs fcfs_init)
         | ORACLE_SJF \<Rightarrow> Inr (AnyOracle oracle_init)
         | SJF \<Rightarrow>
             (case pred of
                None \<Rightarrow> Inl (ValueError ''SJF scheduler requires a predictor'')
              | Some p \<Rightarrow>
                  bind_res (py_get config ''aging'' (PDict [])) (\<lambda>aging.
                  bind_res (mk_aging_config aging) (\<lambda>aging_cfg.
                  bind_res (py_get config ''fallback_to_fcfs'' (PBool True)) (\<lambda>fallback.
                  bind_res (py_get config ''aging_interval_sec'' (PFloat (1 / 2))) (\<lambda>interval.
                  bind_res (py_get config ''request_timeout_sec'' (PFloat 300)) (\<lambda>timeout.
                    map_sum id AnySjf (mk_sjf p (Some aging_cfg) fallback interval 3 timeout))))))))"

section \<open>A queue over the request store\<close>

text \<open>
  What both schedulers keep while no priority is aged: unique entries, and each entry carries
  the id and the priority of the request it refers to.
\<close>

definition queue_world :: "store \<Rightarrow> oref pqueue \<Rightarrow> bool" where
  "queue_world st q \<longleftrightarrow> pq_ok q \<and>
     (\<forall>it \<in> set (pq_heap q). sr_request_id (st (pi_payload it)) = pi_request_id it \<and>
        sr_priority (st (pi_payload it)) = pi_priority it)"

definition queued :: "oref pqueue \<Rightarrow> oref multiset" where
  "queued q = image_mset pi_payload (pq_live q)"

lemma queue_world_init [simp]: "queue_world st pq_init" "queued pq_init = {#}"
  by (simp_all add: queue_world_def queued_def pq_live_def) (simp_all add: pq_init_def)

lemma set_heap_enqueue:
  "set (pq_heap (pq_enqueue now rid p r q)) =
     insert \<lparr>pi_priority = p, pi_enqueue_time = now, pi_request_id = rid, pi_payload = r\<rparr> (set (pq_heap q))"
  by (simp add: pq_enqueue_def Let_def set_heappush)

lemma queued_enqueue:
  "queue_world st q \<Longrightarrow> rid \<notin> pq_ids q \<Longrightarrow> queued (pq_enqueue now rid p r q) = add_mset r (queued q)"
  by (simp add: queued_def pq_live_enqueue queue_world_def)

lemma queue_world_enqueue:
  assumes "queue_world st q" and "rid \<notin> pq_ids q" and "sr_request_id (st r) = rid"
    and "sr_request_id req = rid" and "sr_priority req = p"
  shows "queue_world (st(r := req)) (pq_enqueue now rid p r q)"
proof -
  have ok: "pq_ok q" using assms(1) by (simp add: queue_world_def)
  have "pi_payload it \<noteq> r" if "it \<in> set (pq_heap q)" for it
    using that assms(1-3) by (force simp: queue_world_def pq_ids_def)
  with assms pq_ok_enqueue [OF ok assms(2)] show ?thesis
    unfolding queue_world_def set_heap_enqueue by auto
qed

lemma queue_acquire_subset:
  "queue_acquire ck q = (a, q') \<Longrightarrow> set (pq_heap q') \<subseteq> set (pq_heap q)"
  by (cases "dequeue_loop (ck_now ck) q")
     (auto simp: queue_acquire_def dequeue_iter_def dest!: dequeue_loop_heap_subset
       split: prod.splits option.splits dq_result.splits if_splits)

lemma queue_world_acquire:
  assumes "queue_acquire ck q = (a, q')" and "queue_world st q"
  shows "queue_world st q'"
    and "case a of
        Acquired r \<Rightarrow> queued q = add_mset r (queued q') \<and>
          (\<forall>r' \<in># queued q. sr_priority (st r) \<le> sr_priority (st r'))
      | _ \<Rightarrow> queued q = {#} \<and> queued q' = {#}"
proof -
  obtain d where d: "dequeue_iter (ck_now ck) (ck_dq1 ck) (ck_dq2 ck)
      (dq_deadline (ck_dq0 ck) (ck_timeout ck)) q = (d, q')"
    and a: "a = (case d of DqItem it \<Rightarrow> Acquired (pi_payload it) | DqTimeout \<Rightarrow> AcqTimeout | DqWait l \<Rightarrow> Waits l)"
    using assms(1) by (auto simp: queue_acquire_def split: prod.splits dq_result.splits)
  have ok: "pq_ok q" using assms(2) by (simp add: queue_world_def)
  note i = dequeue_iter_ok [OF d ok]
  show "queue_world st q'" using i(1,2) assms(2) by (auto simp: queue_world_def)
  have prio: "sr_priority (st (pi_payload it)) = pi_priority it" if "it \<in># pq_live q" for it
    using that assms(2) by (simp add: queue_world_def pq_live_def)
  show "case a of
        Acquired r \<Rightarrow> queued q = add_mset r (queued q') \<and>
          (\<forall>r' \<in># queued q. sr_priority (st r) \<le> sr_priority (st r'))
      | _ \<Rightarrow> queued q = {#} \<and> queued q' = {#}"
  proof (cases d)
    case (DqItem it)
    with i(3) have l: "pq_live q = add_mset it (pq_live q')" "\<forall>y \<in># pq_live q. \<not> pitem_lt y it" by auto
    then have "pi_priority it \<le> pi_priority y" if "y \<in># pq_live q" for y
      using that by (force simp: pitem_lt_def)
    with l(1) prio a DqItem show ?thesis by (auto simp: queued_def)
  qed (use a i(3) in \<open>auto simp: queued_def\<close>)
qed

lemma queue_world_cancel:
  assumes "queue_world st q"
  shows "queue_world st (snd (pq_cancel rid q)) \<and> queued (snd (pq_cancel rid q)) \<subseteq># queued q"
proof -
  have ok: "pq_ok q" using assms by (simp add: queue_world_def)
  have "pq_heap (snd (pq_cancel rid q)) = pq_heap q" by (simp add: pq_cancel_def)
  with assms ok show ?thesis
    by (simp add: queue_world_def queued_def pq_ok_cancel pq_live_cancel(1) image_mset_subseteq_mono)
qed

section \<open>The oracle scheduler implements the contract\<close>

definition oracle_iface :: "(clocks, oracle_sched world) sched_iface" where
  "oracle_iface =
     \<lparr>if_submit = oracle_submit, if_acquire = oracle_acquire,
      if_complete = (\<lambda>k b (st, s). (st, oracle_complete k b s)),
      if_cancel = (\<lambda>k (st, s). case oracle_cancel k s of (b, s') \<Rightarrow> (b, st, s'))\<rparr>"

definition oracle_inv :: "oracle_sched world \<Rightarrow> bool" where
  "oracle_inv w \<longleftrightarrow> queue_world (fst w) (or_queue (snd w)) \<and>
     (\<forall>it \<in> set (pq_heap (or_queue (snd w))). pi_priority it = real_of_int (sr_max_tokens (fst w (pi_payload it))))"

abbreviation oracle_waiting :: "oracle_sched world \<Rightarrow> oref multiset" where
  "oracle_waiting w \<equiv> queued (or_queue (snd w))"

definition oracle_may_submit :: "oref \<Rightarrow> oracle_sched world \<Rightarrow> bool" where
  "oracle_may_submit r w \<longleftrightarrow> sr_request_id (fst w r) \<notin> pq_ids (or_queue (snd w))"

lemma or_queue_count_completion [simp]: "or_queue (count_completion c s) = or_queue s"
  by (simp add: count_completion_def)

lemma oracle_submit_inv:
  assumes "oracle_inv (st, s)" and "oracle_may_submit r (st, s)"
  shows "oracle_inv (oracle_submit ck r (st, s))"
proof -
  have "pi_payload it \<noteq> r" if "it \<in> set (pq_heap (or_queue s))" for it
    using that assms by (force simp: oracle_inv_def oracle_may_submit_def queue_world_def pq_ids_def)
  with assms show ?thesis
    by (auto simp: oracle_submit_def Let_def oracle_inv_def oracle_may_submit_def queue_world_enqueue
        set_heap_enqueue)
qed

interpretation oracle_contract: scheduler oracle_iface oracle_inv oracle_waiting oracle_may_submit
  "\<lambda>w. bs_total_scheduled (snd w)" "\<lambda>b w. finished_count b (snd w)"
proof unfold_locales
  fix s s' :: "oracle_sched world" and r e a k c
  obtain st o1 where s: "s = (st, o1)" by force
  show "oracle_inv s \<Longrightarrow> oracle_may_submit r s \<Longrightarrow> s' = if_submit oracle_iface e r s \<Longrightarrow>
      oracle_inv s' \<and> oracle_waiting s' = add_mset r (oracle_waiting s) \<and>
      bs_total_scheduled (snd s') = Suc (bs_total_scheduled (snd s)) \<and>
      (\<forall>b. finished_count b (snd s') = finished_count b (snd s))"
    using oracle_submit_inv [of st o1 r e]
    by (simp add: s oracle_iface_def) (simp add: oracle_submit_def Let_def oracle_may_submit_def
        oracle_inv_def queued_enqueue [of st] finished_count_def)
  show "oracle_inv s \<Longrightarrow> if_acquire oracle_iface e s = (a, s') \<Longrightarrow>
      oracle_inv s' \<and> bs_total_scheduled (snd s') = bs_total_scheduled (snd s) \<and>
      (\<forall>b. finished_count b (snd s') = finished_count b (snd s)) \<and>
      (case a of Acquired r \<Rightarrow> oracle_waiting s = add_mset r (oracle_waiting s')
       | _ \<Rightarrow> oracle_waiting s = {#} \<and> oracle_waiting s' = {#})"
    using queue_world_acquire [of e "or_queue o1" a _ st] queue_acquire_subset [of e "or_queue o1" a]
    by (auto simp: s oracle_iface_def oracle_acquire_def oracle_inv_def finished_count_def
        split: prod.splits acq.splits)
  show "oracle_inv s \<Longrightarrow> s' = if_complete oracle_iface k c s \<Longrightarrow>
      oracle_inv s' \<and> oracle_waiting s' = oracle_waiting s \<and>
      bs_total_scheduled (snd s') = bs_total_scheduled (snd s) \<and>
      (\<forall>b. finished_count b (snd s') = finished_count b (snd s) + (if b = c then 1 else 0))"
    by (simp add: s oracle_iface_def oracle_complete_def oracle_inv_def)
  show "oracle_inv s \<Longrightarrow> s' = snd (if_cancel oracle_iface k s) \<Longrightarrow>
      oracle_inv s' \<and> oracle_waiting s' \<subseteq># oracle_waiting s \<and>
      bs_total_scheduled (snd s') = bs_total_scheduled (snd s) \<and>
      (\<forall>b. finished_count b (snd s') = finished_count b (snd s))"
    using queue_world_cancel [of st "or_queue o1" k]
    by (auto simp: s oracle_iface_def oracle_cancel_def oracle_inv_def finished_count_def pq_cancel_def
        split: prod.splits if_splits)
qed

section \<open>The predicted scheduler implements the contract\<close>

definition sjf_iface :: "(clocks, sjf world) sched_iface" where
  "sjf_iface =
     \<lparr>if_submit = sjf_submit, if_acquire = sjf_acquire,
      if_complete = (\<lambda>k b (st, s). (st, sjf_complete k b s)),
      if_cancel = (\<lambda>k (st, s). case sjf_cancel k s of (b, s') \<Rightarrow> (b, st, s'))\<rparr>"

text \<open>The fallback is in charge: the condition \<^verbatim>\<open>self._use_fallback and self._fcfs_fallback\<close>.\<close>

definition falls_back :: "sjf \<Rightarrow> bool" where
  "falls_back s \<longleftrightarrow> sjf_use_fallback s \<and> sjf_fcfs_fallback s \<noteq> None"

definition sjf_inv :: "sjf world \<Rightarrow> bool" where
  "sjf_inv w \<longleftrightarrow> falls_back (snd w) \<or>
     \<not> sjf_use_fallback (snd w) \<and> queue_world (fst w) (sjf_queue (snd w)) \<and>
     (\<forall>fb. sjf_fcfs_fallback (snd w) = Some fb \<longrightarrow> fcfs_queue fb = [])"

definition sjf_waiting :: "sjf world \<Rightarrow> oref multiset" where
  "sjf_waiting w =
     (case (sjf_use_fallback (snd w), sjf_fcfs_fallback (snd w)) of
        (True, Some fb) \<Rightarrow> mset (fcfs_queue fb)
      | _ \<Rightarrow> queued (sjf_queue (snd w)))"

text \<open>The predictor raises on this request; whether it does is independent of the clock.\<close>

definition prediction_fails :: "predictor \<Rightarrow> scheduled_request \<Rightarrow> bool" where
  "prediction_fails p req \<longleftrightarrow>
     sr_predicted_tokens req = 0 \<and> (case predict p 0 0 (sr_prompt req) of Inl e \<Rightarrow> True | Inr r \<Rightarrow> False)"

text \<open>
  A submission the contract covers: the fallback is in charge already, or the id is new and,
  should this request be the one that switches to the fallback, nothing is left in the queue.
\<close>

definition sjf_may_submit :: "oref \<Rightarrow> sjf world \<Rightarrow> bool" where
  "sjf_may_submit r w \<longleftrightarrow>
     falls_back (snd w) \<or>
     (if prediction_fails (sjf_predictor (snd w)) (fst w r) \<and> sjf_fcfs_fallback (snd w) \<noteq> None
      then queued (sjf_queue (snd w)) = {#}
      else sr_request_id (fst w r) \<notin> pq_ids (sjf_queue (snd w)))"

lemma predict_fails_iff:
  "(\<exists>e. predict p t0 t1 prompt = Inl e) \<longleftrightarrow> (case predict p 0 0 prompt of Inl e \<Rightarrow> True | Inr r \<Rightarrow> False)"
  by (auto simp: predict_def bind_res_def split: sum.splits)

lemma sjf_count_completion [simp]:
  "sjf_queue (count_completion c s) = sjf_queue s"
  "sjf_use_fallback (count_completion c s) = sjf_use_fallback s"
  "sjf_fcfs_fallback (count_completion c s) = sjf_fcfs_fallback s"
  "sjf_pending (count_completion c s) = sjf_pending s"
  by (simp_all add: count_completion_def)

text \<open>The three ways the \<^verbatim>\<open>try\<close> statement can end.\<close>

lemma sjf_predict_cases:
  assumes "sjf_predict ck req s = (toks, s1)"
  shows "sjf_queue s1 = sjf_queue s" "sjf_fcfs_fallback s1 = sjf_fcfs_fallback s"
    "sjf_pending s1 = sjf_pending s"
    "bs_total_scheduled s1 = bs_total_scheduled s"
    "bs_total_completed s1 = bs_total_completed s \<and> bs_total_errors s1 = bs_total_errors s"
    "sjf_use_fallback s1 \<longleftrightarrow>
       sjf_use_fallback s \<or> prediction_fails (sjf_predictor s) req \<and> sjf_fcfs_fallback s \<noteq> None"
    "prediction_fails (sjf_predictor s) req \<Longrightarrow> toks = real_of_int (sr_max_tokens req)"
  using assms predict_fails_iff [of "sjf_predictor s" "ck_infer0 ck" "ck_infer1 ck" "sr_prompt req"]
  by (auto simp: sjf_predict_def prediction_fails_def record_timing_def
      split: if_splits sum.splits)

lemma sjf_submit_eq:
  assumes "sjf_predict ck (st r) s = (toks, s1)"
  shows "\<exists>req. sr_request_id req = sr_request_id (st r) \<and> sr_priority req = toks \<and>
    sjf_submit ck r (st, s) = (st(r := req),
      (let s2 = (if falls_back s1
         then s1\<lparr>sjf_fcfs_fallback := map_option (fcfs_submit (st(r := req)) r) (sjf_fcfs_fallback s1)\<rparr>
         else s1\<lparr>sjf_pending := dict_set (sr_request_id (st r)) r (sjf_pending s1),
                 sjf_queue := pq_enqueue (ck_now ck) (sr_request_id (st r)) toks r (sjf_queue s1)\<rparr>)
       in s2\<lparr>bs_total_scheduled := bs_total_scheduled s2 + 1\<rparr>))"
  using assms
  by (intro exI [of _ "(st r)\<lparr>sr_predicted_tokens := toks, sr_priority := toks,
        sr_metadata := dict_set ''schedule_ms'' (MFloat ((ck_sched1 ck - ck_sched0 ck) * 1000))
          (sr_metadata (st r))\<rparr>"])
     (auto simp: sjf_submit_def falls_back_def Let_def split: option.split bool.split)

lemma fcfs_queue_ops [simp]:
  "fcfs_queue (fcfs_submit st r fb) = fcfs_queue fb @ [r]"
  "fcfs_queue (fcfs_complete k c fb) = fcfs_queue fb"
  "fcfs_queue (snd (fcfs_cancel k fb)) = fcfs_queue fb"
  by (simp_all add: fcfs_submit_def Let_def fcfs_complete_def fcfs_cancel_def)

lemma sjf_submit_ok:
  assumes inv: "sjf_inv w" and may: "sjf_may_submit r w" and e: "w' = sjf_submit ck r w"
  shows "sjf_inv w' \<and> sjf_waiting w' = add_mset r (sjf_waiting w) \<and>
    bs_total_scheduled (snd w') = Suc (bs_total_scheduled (snd w)) \<and>
    (\<forall>b. finished_count b (snd w') = finished_count b (snd w))"
proof -
  obtain st s where w: "w = (st, s)" by force
  obtain toks s1 where p: "sjf_predict ck (st r) s = (toks, s1)" by force
  note c = sjf_predict_cases [OF p]
  obtain req where req: "sr_request_id req = sr_request_id (st r)" "sr_priority req = toks"
    and sub: "sjf_submit ck r (st, s) = (st(r := req),
      (let s2 = (if falls_back s1
         then s1\<lparr>sjf_fcfs_fallback := map_option (fcfs_submit (st(r := req)) r) (sjf_fcfs_fallback s1)\<rparr>
         else s1\<lparr>sjf_pending := dict_set (sr_request_id (st r)) r (sjf_pending s1),
                 sjf_queue := pq_enqueue (ck_now ck) (sr_request_id (st r)) toks r (sjf_queue s1)\<rparr>)
       in s2\<lparr>bs_total_scheduled := bs_total_scheduled s2 + 1\<rparr>))"
    using sjf_submit_eq [of ck st r s toks s1, OF p] by blast
  show ?thesis
  proof (cases "falls_back s1")
    case True
    then obtain fb where fb: "sjf_fcfs_fallback s = Some fb" by (auto simp: falls_back_def c(2))
    from True fb inv may show ?thesis
      unfolding e w sub using c
      by (auto simp: sjf_inv_def sjf_waiting_def falls_back_def sjf_may_submit_def Let_def
          finished_count_def split: if_splits)
  next
    case False
    then have nf: "\<not> falls_back s" "\<not> (prediction_fails (sjf_predictor s) (st r) \<and> sjf_fcfs_fallback s \<noteq> None)"
      by (auto simp: falls_back_def c(2,6))
    then have q: "queue_world st (sjf_queue s)" "\<not> sjf_use_fallback s"
      "sr_request_id (st r) \<notin> pq_ids (sjf_queue s)"
      "\<forall>fb. sjf_fcfs_fallback s = Some fb \<longrightarrow> fcfs_queue fb = []"
      using inv may by (auto simp: w sjf_inv_def sjf_may_submit_def)
    then have "\<not> sjf_use_fallback s1" using nf c(6) by blast
    with False q show ?thesis
      unfolding e w sub using c req
      by (auto simp: sjf_inv_def sjf_waiting_def Let_def queue_world_enqueue queued_enqueue
          finished_count_def)
  qed
qed

lemma sjf_acquire_ok:
  assumes "sjf_inv w" and "sjf_acquire ck w = (a, w')"
  shows "sjf_inv w' \<and> bs_total_scheduled (snd w') = bs_total_scheduled (snd w) \<and>
    (\<forall>b. finished_count b (snd w') = finished_count b (snd w)) \<and>
    (case a of Acquired r \<Rightarrow> sjf_waiting w = add_mset r (sjf_waiting w')
     | _ \<Rightarrow> sjf_waiting w = {#} \<and> sjf_waiting w' = {#})"
proof -
  obtain st s where w: "w = (st, s)" by force
  show ?thesis
  proof (cases "falls_back (snd w)")
    case True
    then obtain fb where "sjf_fcfs_fallback (snd w) = Some fb" "sjf_use_fallback (snd w)"
      by (auto simp: falls_back_def)
    with assms show ?thesis
      by (auto simp: w sjf_acquire_def fcfs_acquire_def sjf_inv_def falls_back_def sjf_waiting_def
          finished_count_def split: list.splits)
  next
    case False
    with assms(1) have q: "\<not> sjf_use_fallback s" "queue_world st (sjf_queue s)"
      "\<forall>fb. sjf_fcfs_fallback s = Some fb \<longrightarrow> fcfs_queue fb = []"
      by (auto simp: w sjf_inv_def)
    obtain q' where a: "queue_acquire ck (sjf_queue s) = (a, q')" and w': "w' = (st, s\<lparr>sjf_queue := q'\<rparr>)"
      using assms(2) q(1) by (auto simp: w sjf_acquire_def split: prod.splits)
    with queue_world_acquire [OF a q(2)] q show ?thesis
      by (cases a) (simp_all add: w sjf_inv_def sjf_waiting_def finished_count_def)
  qed
qed

interpretation sjf_contract: scheduler sjf_iface sjf_inv sjf_waiting sjf_may_submit
  "\<lambda>w. bs_total_scheduled (snd w)" "\<lambda>b w. finished_count b (snd w)"
proof unfold_locales
  fix s s' :: "sjf world" and r e a k c
  obtain st o1 where s: "s = (st, o1)" by force
  show "sjf_inv s \<Longrightarrow> sjf_may_submit r s \<Longrightarrow> s' = if_submit sjf_iface e r s \<Longrightarrow>
      sjf_inv s' \<and> sjf_waiting s' = add_mset r (sjf_waiting s) \<and>
      bs_total_scheduled (snd s') = Suc (bs_total_scheduled (snd s)) \<and>
      (\<forall>b. finished_count b (snd s') = finished_count b (snd s))"
    by (rule sjf_submit_ok) (simp_all add: sjf_iface_def)
  show "sjf_inv s \<Longrightarrow> if_acquire sjf_iface e s = (a, s') \<Longrightarrow>
      sjf_inv s' \<and> bs_total_scheduled (snd s') = bs_total_scheduled (snd s) \<and>
      (\<forall>b. finished_count b (snd s') = finished_count b (snd s)) \<and>
      (case a of Acquired r \<Rightarrow> sjf_waiting s = add_mset r (sjf_waiting s')
       | _ \<Rightarrow> sjf_waiting s = {#} \<and> sjf_waiting s' = {#})"
    by (rule sjf_acquire_ok) (simp_all add: sjf_iface_def)
  show "sjf_inv s \<Longrightarrow> s' = if_complete sjf_iface k c s \<Longrightarrow>
      sjf_inv s' \<and> sjf_waiting s' = sjf_waiting s \<and>
      bs_total_scheduled (snd s') = bs_total_scheduled (snd s) \<and>
      (\<forall>b. finished_count b (snd s') = finished_count b (snd s) + (if b = c then 1 else 0))"
    by (auto simp: s sjf_iface_def sjf_complete_def sjf_inv_def sjf_waiting_def falls_back_def
        count_completion_def finished_count_def split: option.splits bool.splits)
  show "sjf_inv s \<Longrightarrow> s' = snd (if_cancel sjf_iface k s) \<Longrightarrow>
      sjf_inv s' \<and> sjf_waiting s' \<subseteq># sjf_waiting s \<and>
      bs_total_scheduled (snd s') = bs_total_scheduled (snd s) \<and>
      (\<forall>b. finished_count b (snd s') = finished_count b (snd s))"
    using queue_world_cancel [of st "sjf_queue o1" k]
    by (auto simp: s sjf_iface_def sjf_cancel_def Let_def sjf_inv_def sjf_waiting_def falls_back_def
        finished_count_def split: prod.splits option.splits bool.splits)
qed

section \<open>Properties\<close>

lemma mk_sjf_fields:
  assumes "mk_sjf p cfg fallback interval retries timeout = Inr s"
  shows "sjf_queue s = pq_init" "\<not> sjf_use_fallback s" "bs_total_scheduled s = 0"
    "finished_count b s = 0" "sjf_pending s = []" "sjf_timeout s = timeout" "sjf_predictor s = p"
    "sjf_fcfs_fallback s = (if truthy fallback then Some fcfs_init else None)"
    "sjf_aging_task s = NoTask"
  using assms
  by (auto simp: mk_sjf_def Let_def bind_res_Inr_iff base_state.defs sjf.defs base_init_def finished_count_def)

lemma mk_sjf_inv:
  assumes "mk_sjf p cfg fallback interval retries timeout = Inr s"
  shows "sjf_inv (st, s)" and "sjf_waiting (st, s) = {#}"
  using mk_sjf_fields [OF assms] by (auto simp: sjf_inv_def sjf_waiting_def)

definition some_clocks :: clocks where
  "some_clocks = \<lparr>ck_infer0 = 0, ck_infer1 = 0, ck_sched0 = 0, ck_sched1 = 0, ck_now = 5,
     ck_dq0 = 5, ck_dq1 = 5, ck_dq2 = 5, ck_timeout = Some 1\<rparr>"

text \<open>Three requests whose lengths were supplied by the client; the predictor is not asked.\<close>

definition sample_store :: store where
  "sample_store r = (sample_request (replicate (Suc r) CHR ''x'') 64)
     \<lparr>sr_predicted_tokens := (if r = 0 then 30 else if r = 1 then 10 else 20)\<rparr>"

definition sample_sjf :: sjf where
  "sample_sjf = base_state.extend (base_init ''sjf'')
     (sjf.fields (sample_predictor 3) pq_init (LinearAging default_aging_config) default_aging_config
       (PBool True) (Some fcfs_init) (PFloat (1 / 2)) 3 (PFloat 300) [] False NoTask False)"

lemma sample_sjf_made:
  "mk_sjf (sample_predictor 3) None (PBool True) (PFloat (1 / 2)) 3 (PFloat 300) = Inr sample_sjf"
  by (simp add: mk_sjf_def sample_sjf_def create_aging_def default_aging_config_def Let_def)

definition sample_submits :: "clocks sched_op list" where
  "sample_submits = [Submit some_clocks 0, Submit some_clocks 1, Submit some_clocks 2]"

lemma sample_submits_admissible:
  "admissible sjf_may_submit sjf_iface sample_submits (sample_store, sample_sjf)"
  by code_simp





section \<open>The fallback\<close>

definition fallback_queue :: "sjf world \<Rightarrow> oref list" where
  "fallback_queue w = (case sjf_fcfs_fallback (snd w) of None \<Rightarrow> [] | Some fb \<Rightarrow> fcfs_queue fb)"

lemma fallback_step:
  assumes "falls_back (snd w)" and "sched_step sjf_iface x w = (rs, w')"
  shows "falls_back (snd w') \<and> rs @ fallback_queue w' = fallback_queue w @ submitted [x] \<and>
    pq_heap (sjf_queue (snd w')) = pq_heap (sjf_queue (snd w))"
proof -
  obtain st s where w: "w = (st, s)" by force
  obtain fb where fb: "sjf_fcfs_fallback s = Some fb" "sjf_use_fallback s"
    using assms(1) by (auto simp: w falls_back_def)
  show ?thesis
  proof (cases x)
    case (Submit ck r)
    obtain toks s1 where p: "sjf_predict ck (st r) s = (toks, s1)" by force
    note c = sjf_predict_cases [OF p]
    have "falls_back s1" using c(2,6) fb by (simp add: falls_back_def)
    with sjf_submit_eq [of ck st r s toks s1, OF p] c fb assms(2) Submit show ?thesis
      by (auto simp: w sjf_iface_def fallback_queue_def falls_back_def Let_def)
  next
    case (Acquire ck)
    with assms(2) fb show ?thesis
      by (auto simp: w sjf_iface_def sjf_acquire_def fcfs_acquire_def fallback_queue_def falls_back_def
          split: list.splits)
  next
    case (Complete k b)
    with assms(2) fb show ?thesis
      by (auto simp: w sjf_iface_def sjf_complete_def fallback_queue_def falls_back_def)
  next
    case (CancelReq k)
    with assms(2) fb show ?thesis
      by (auto simp: w sjf_iface_def sjf_cancel_def pq_cancel_def fallback_queue_def falls_back_def Let_def)
  qed
qed

lemma fallback_run:
  "falls_back (snd w) \<Longrightarrow> sched_run sjf_iface ops w = (rs, w') \<Longrightarrow>
     falls_back (snd w') \<and> rs @ fallback_queue w' = fallback_queue w @ submitted ops \<and>
     pq_heap (sjf_queue (snd w')) = pq_heap (sjf_queue (snd w))"
proof (induction ops arbitrary: w rs)
  case Nil
  then show ?case by simp
next
  case (Cons x xs)
  obtain r1 w1 where 1: "sched_step sjf_iface x w = (r1, w1)" by (metis prod.collapse)
  obtain r2 where 2: "sched_run sjf_iface xs w1 = (r2, w')" and rs: "rs = r1 @ r2"
    using Cons.prems(2) 1 by (auto split: prod.splits)
  note s1 = fallback_step [OF Cons.prems(1) 1]
  have IH: "falls_back (snd w')" "r2 @ fallback_queue w' = fallback_queue w1 @ submitted xs"
    "pq_heap (sjf_queue (snd w')) = pq_heap (sjf_queue (snd w1))"
    using Cons.IH [OF _ 2] s1 by blast+
  have "rs @ fallback_queue w' = (r1 @ fallback_queue w1) @ submitted xs"
    using IH(2) rs by simp
  with s1 IH show ?case by (cases x) auto
qed


text \<open>The sample scheduler with one queued request, after a request whose prediction fails.\<close>

definition stranded_world :: "sjf world" where
  "stranded_world = snd (sched_run sjf_iface [Submit some_clocks 0, Submit some_clocks 9]
     (sample_store(9 := sample_request ''broken'' 64),
      sample_sjf\<lparr>sjf_predictor := (sample_predictor 3)\<lparr>op_extract := (\<lambda>s. Inl (OtherError ''extract''))\<rparr>\<rparr>))"


text \<open>
  C16: what a failing prediction does. The request is scheduled by its \<^verbatim>\<open>max_tokens\<close>; with a
  configured fallback the scheduler switches to it and the request joins the end of the
  fallback's queue, without one the request enters the priority queue like any other. Nothing
  is raised and the request is counted in both cases.
\<close>

theorem prediction_failure_outcome:
  assumes "prediction_fails (sjf_predictor s) (st r)" and "sjf_submit ck r (st, s) = (st', s')"
  shows "sr_predicted_tokens (st' r) = real_of_int (sr_max_tokens (st r)) \<and>
    sr_priority (st' r) = real_of_int (sr_max_tokens (st r)) \<and>
    bs_total_scheduled s' = Suc (bs_total_scheduled s) \<and>
    (case sjf_fcfs_fallback s of
       Some fb \<Rightarrow> falls_back s' \<and> fallback_queue (st', s') = fcfs_queue fb @ [r] \<and> sjf_queue s' = sjf_queue s
     | None \<Rightarrow> \<not> falls_back s' \<and> dict_get (sjf_pending s') (sr_request_id (st r)) = Some r \<and>
         sjf_queue s' = pq_enqueue (ck_now ck) (sr_request_id (st r)) (real_of_int (sr_max_tokens (st r))) r
           (sjf_queue s))"
proof -
  obtain toks s1 where p: "sjf_predict ck (st r) s = (toks, s1)" by force
  note c = sjf_predict_cases [OF p]
  from assms c p show ?thesis
    by (cases "sjf_fcfs_fallback s")
       (auto simp: sjf_submit_def Let_def falls_back_def fallback_queue_def dict_simps split: bool.splits)
qed

theorem prediction_failure_outcome_witness:
  "\<exists>st' s'. sjf_submit some_clocks 9 (sample_store(9 := sample_request ''broken'' 64),
      sample_sjf\<lparr>sjf_predictor := (sample_predictor 3)\<lparr>op_mean := Some [0, 0]\<rparr>\<rparr>) = (st', s') \<and>
    sr_predicted_tokens (st' 9) = 64 \<and> falls_back s'"
proof -
  let ?s = "sample_sjf\<lparr>sjf_predictor := (sample_predictor 3)\<lparr>op_mean := Some [0, 0]\<rparr>\<rparr>"
  let ?st = "sample_store(9 := sample_request ''broken'' 64)"
  obtain st' s' where e: "sjf_submit some_clocks 9 (?st, ?s) = (st', s')" by force
  have "prediction_fails (sjf_predictor ?s) (?st 9)" by code_simp
  moreover have "sjf_fcfs_fallback ?s = Some fcfs_init" "sr_max_tokens (?st 9) = 64"
    by (simp_all add: sample_sjf_def base_state.defs sjf.defs sample_request_def)
  ultimately show ?thesis using prediction_failure_outcome [OF _ e] e by auto
qed

section \<open>Oracle, construction and reloading\<close>

lemma oracle_init_inv: "oracle_inv (st, oracle_init)" "oracle_waiting (st, oracle_init) = {#}"
  by (simp_all add: oracle_inv_def oracle_init_def base_state.defs oracle_sched.defs)
     (simp add: pq_init_def)

text \<open>
  The oracle scheduler is exact shortest-job-first on \<^verbatim>\<open>max_tokens\<close>. In any history with new
  ids and no cancellations no request is lost or duplicated, and after any history an
  acquired request has the smallest \<^verbatim>\<open>max_tokens\<close> of all waiting ones.
\<close>

theorem oracle_serves_smallest_max_tokens:
  assumes "admissible oracle_may_submit oracle_iface ops (st0, oracle_init)"
    and "sched_run oracle_iface ops (st0, oracle_init) = (rs, (st, s))"
  shows "(no_cancel ops \<longrightarrow> mset rs + oracle_waiting (st, s) = mset (submitted ops)) \<and>
    (oracle_acquire ck (st, s) = (Acquired r, w') \<longrightarrow>
       r \<in># oracle_waiting (st, s) \<and>
       (\<forall>r' \<in># oracle_waiting (st, s). sr_max_tokens (st r) \<le> sr_max_tokens (st r')))"
proof -
  note run = oracle_contract.run_ok [OF oracle_init_inv(1) assms, unfolded oracle_init_inv(2)]
  then have inv: "oracle_inv (st, s)" by blast
  then have q: "queue_world st (or_queue s)" by (simp add: oracle_inv_def)
  have prio: "sr_priority (st r') = real_of_int (sr_max_tokens (st r'))" if "r' \<in># queued (or_queue s)" for r'
    using that inv by (auto simp: queued_def pq_live_def oracle_inv_def queue_world_def)
  have "r \<in># queued (or_queue s) \<and> (\<forall>r' \<in># queued (or_queue s). sr_max_tokens (st r) \<le> sr_max_tokens (st r'))"
    if "oracle_acquire ck (st, s) = (Acquired r, w')"
  proof -
    obtain q' where "queue_acquire ck (or_queue s) = (Acquired r, q')"
      using \<open>oracle_acquire ck (st, s) = (Acquired r, w')\<close>
      by (auto simp: oracle_acquire_def split: prod.splits)
    from queue_world_acquire(2) [OF this q]
    have a: "r \<in># queued (or_queue s)" "\<forall>r' \<in># queued (or_queue s). sr_priority (st r) \<le> sr_priority (st r')"
      by simp_all
    then show ?thesis using prio by (metis of_int_le_iff)
  qed
  with run show ?thesis by auto
qed

theorem oracle_serves_smallest_max_tokens_witness:
  "\<exists>rs st s. sched_run oracle_iface [Submit some_clocks 4, Submit some_clocks 2, Submit some_clocks 3]
      (\<lambda>r. sample_request (replicate r CHR ''x'') (int r), oracle_init) = (rs, (st, s)) \<and>
    mset rs + oracle_waiting (st, s) = {#2, 3, 4#} \<and> fst (oracle_acquire some_clocks (st, s)) = Acquired 2"
proof -
  let ?st0 = "\<lambda>r. sample_request (replicate r CHR ''x'') (int r)"
  let ?ops = "[Submit some_clocks 4, Submit some_clocks 2, Submit some_clocks 3]"
  let ?w = "sched_run oracle_iface ?ops (?st0, oracle_init)"
  obtain rs st s where w: "?w = (rs, (st, s))" by (metis prod.collapse)
  have adm: "admissible oracle_may_submit oracle_iface ?ops (?st0, oracle_init)" by code_simp
  have "fst (oracle_acquire some_clocks (snd ?w)) = Acquired 2" by code_simp
  with oracle_serves_smallest_max_tokens [OF adm w] w show ?thesis by (auto simp: add_mset_commute)
qed

text \<open>
  Construction. \<^verbatim>\<open>build_scheduler\<close> never needs a predictor for FCFS and the oracle; for SJF
  it raises \<^verbatim>\<open>ValueError\<close> without one, and with a predictor and an empty configuration builds
  the scheduler with linear aging (factor 0.001, cap 500), the fallback enabled, a 0.5 s aging
  interval and a 300 s time limit; when the \<^verbatim>\<open>aging\<close> section names valid fields, the scheduler
  carries that section's policy, and the only error left is the lookup of the policy's name.
\<close>

theorem build_scheduler_outcome:
  "build_scheduler FCFS pred config = Inr (AnyFcfs fcfs_init) \<and>
   build_scheduler ORACLE_SJF pred config = Inr (AnyOracle oracle_init) \<and>
   build_scheduler SJF None config = Inl (ValueError ''SJF scheduler requires a predictor'') \<and>
   build_scheduler SJF (Some p) (PDict []) =
     map_sum id AnySjf (mk_sjf p (Some default_aging_config) (PBool True) (PFloat (1 / 2)) 3 (PFloat 300)) \<and>
   build_scheduler SJF (Some p) PNone = build_scheduler SJF (Some p) (PDict []) \<and>
   (\<forall>d a c. map_of d ''aging'' = Some a \<and> mk_aging_config a = Inr c \<longrightarrow>
     (case build_scheduler SJF (Some p) (PDict d) of
        Inl e \<Rightarrow> create_aging c = Inl e
      | Inr b \<Rightarrow> \<exists>s. b = AnySjf s \<and> sjf_aging_config s = c \<and> create_aging c = Inr (sjf_aging s)))"
  by (auto simp: build_scheduler_def mk_sjf_def bind_res_def Let_def base_state.defs sjf.defs
      split: sum.splits option.splits if_splits)

theorem build_scheduler_outcome_witness:
  "\<exists>s. build_scheduler SJF (Some (sample_predictor 3)) (PDict [(''aging'', PDict [(''policy'', PStr ''exponential'')])])
     = Inr (AnySjf s) \<and> ac_policy (sjf_aging_config s) = PStr ''exponential''"
proof -
  let ?c = "default_aging_config\<lparr>ac_policy := PStr ''exponential''\<rparr>"
  let ?a = "PDict [(''policy'', PStr ''exponential'')]"
  have c: "mk_aging_config ?a = Inr ?c" by (simp add: set_aging_field_def)
  have "create_aging ?c \<noteq> Inl e" for e by (simp add: create_aging_def)
  with build_scheduler_outcome [of None PNone "sample_predictor 3", THEN conjunct2, THEN conjunct2, THEN conjunct2,
      THEN conjunct2, THEN conjunct2, rule_format, of "[(''aging'', ?a)]" ?a ?c] c
  show ?thesis by (auto split: sum.splits)
qed

text \<open>
  Reloading. A reload never changes the fallback scheduler, so the flag
  \<^verbatim>\<open>fallback_to_fcfs\<close> has no effect after construction; when the new policy's name is unknown the
  reload raises after the new configuration was stored, and the scheduler keeps boosting by
  the old policy while reporting the new configuration.
\<close>

theorem reload_effects:
  assumes "sjf_on_reload config s = (err, s')"
  shows "sjf_fcfs_fallback s' = sjf_fcfs_fallback s \<and> sjf_use_fallback s' = sjf_use_fallback s \<and>
    sjf_queue s' = sjf_queue s \<and> sjf_pending s' = sjf_pending s \<and>
    (\<forall>v c. dict_get config ''aging'' = Some v \<and> mk_aging_config v = Inr c \<longrightarrow>
       sjf_aging_config s' = c \<and>
       (case create_aging c of
          Inl e \<Rightarrow> err = Some e \<and> sjf_aging s' = sjf_aging s
        | Inr a \<Rightarrow> err = None \<and> sjf_aging s' = a))"
  using assms
  by (auto simp: sjf_on_reload_def Let_def split: option.splits sum.splits)

theorem reload_effects_witness:
  "\<exists>err s'. sjf_on_reload [(''aging'', PDict [(''policy'', PStr ''quadratic'')])] sample_sjf = (err, s') \<and>
     err = Some (KeyError ''quadratic'') \<and> sjf_aging s' = LinearAging default_aging_config \<and>
     ac_policy (sjf_aging_config s') = PStr ''quadratic''"
proof -
  let ?cfg = "[(''aging'', PDict [(''policy'', PStr ''quadratic'')])]"
  let ?c = "default_aging_config\<lparr>ac_policy := PStr ''quadratic''\<rparr>"
  obtain err s' where e: "sjf_on_reload ?cfg sample_sjf = (err, s')" by force
  have "mk_aging_config (PDict [(''policy'', PStr ''quadratic'')]) = Inr ?c"
    "create_aging ?c = Inl (KeyError ''quadratic'')"
    by (simp_all add: set_aging_field_def create_aging_def)
  moreover have "sjf_aging sample_sjf = LinearAging default_aging_config"
    by (simp add: sample_sjf_def base_state.defs sjf.defs)
  ultimately show ?thesis using reload_effects [OF e] e by auto
qed

end
