(* ===== verification/SjfAging.thy ===== *)
theory SjfAging
  imports SjfScheduler
begin

text \<open>
  The aging loop of \<^verbatim>\<open>python/scheduler/sjf_scheduler.py\<close>: what repeated turns of the loop do to the
  priority of one waiting request, in the store and in the queue, while any other requests are
  aged or time out beside it.
\<close>

section \<open>One request under aging\<close>

text \<open>
  The request \<open>r\<close> is pending under \<open>rid\<close> with priority \<open>p\<close>, and the queue's entry for it is
  uncancelled and carries the same priority.
\<close>

definition tracked :: "string \<Rightarrow> oref \<Rightarrow> real \<Rightarrow> sjf world \<Rightarrow> bool" where
  "tracked rid r p w \<longleftrightarrow>
     dict_get (sjf_pending (snd w)) rid = Some r \<and> sr_priority (fst w r) = p \<and>
     (\<exists>it. dict_get (pq_pending (sjf_queue (snd w))) rid = Some it \<and> pi_priority it = p) \<and>
     rid \<notin> pq_cancelled (sjf_queue (snd w)) \<and> pq_safe (sjf_queue (snd w))"

text \<open>The configuration is numeric: factor \<open>f\<close>, cap \<open>m\<close>, time limit \<open>limit\<close>, and some interval.\<close>

definition aging_numeric :: "aging_fn \<Rightarrow> real \<Rightarrow> real \<Rightarrow> real \<Rightarrow> sjf \<Rightarrow> bool" where
  "aging_numeric a f m limit s \<longleftrightarrow>
     sjf_aging s = a \<and> as_num (ac_factor (aging_cfg a)) = Inr f \<and>
     as_num (ac_max_boost (aging_cfg a)) = Inr m \<and> as_num (sjf_timeout s) = Inr limit \<and>
     \<not> isl (as_num (sjf_aging_interval s))"

definition pending_ok :: "real \<Rightarrow> sjf world \<Rightarrow> bool" where
  "pending_ok now w \<longleftrightarrow>
     distinct (map fst (sjf_pending (snd w))) \<and> distinct (map snd (sjf_pending (snd w))) \<and>
     (\<forall>(k, r) \<in> set (sjf_pending (snd w)). sr_enqueue_time (fst w r) \<le> now)"

text \<open>The priority after one turn at waiting time \<open>wait\<close>.\<close>

definition aged :: "aging_fn \<Rightarrow> real \<Rightarrow> real \<Rightarrow> real \<Rightarrow> real \<Rightarrow> real" where
  "aged a f m wait p =
     (let b = min (raw_boost a f wait) m in if 1 / 100 < b then p - b else p)"

lemma sjf_cancel_fields [simp]:
  "sjf_pending (snd (sjf_cancel k s)) = dict_pop k (sjf_pending s)"
  "sjf_queue (snd (sjf_cancel k s)) = snd (pq_cancel k (sjf_queue s))"
  "sjf_aging (snd (sjf_cancel k s)) = sjf_aging s"
  "sjf_timeout (snd (sjf_cancel k s)) = sjf_timeout s"
  "sjf_aging_interval (snd (sjf_cancel k s)) = sjf_aging_interval s"
  "sjf_aging_task (snd (sjf_cancel k s)) = sjf_aging_task s"
  by (simp_all add: sjf_cancel_def Let_def split: prod.split)

lemma age_one_frame:
  assumes "age_one now k r' (st, s) = (e, (st', s'))"
  shows "sjf_aging s' = sjf_aging s" "sjf_timeout s' = sjf_timeout s" "sjf_aging_task s' = sjf_aging_task s"
    "sr_enqueue_time (st' r) = sr_enqueue_time (st r)" "r \<noteq> r' \<Longrightarrow> st' r = st r"
    "sjf_pending s' = sjf_pending s \<or> sjf_pending s' = dict_pop k (sjf_pending s)"
    "pq_safe (sjf_queue s) \<Longrightarrow> pq_safe (sjf_queue s')" "sjf_aging_interval s' = sjf_aging_interval s"
  using assms
  by (auto simp: age_one_def Let_def pq_safe_cancel pq_safe_update_priority split: sum.splits if_splits)

lemma queue_frame:
  assumes "k \<noteq> rid"
  shows "dict_get (pq_pending (snd (pq_cancel k q))) rid = dict_get (pq_pending q) rid"
    and "rid \<in> pq_cancelled (snd (pq_cancel k q)) \<longleftrightarrow> rid \<in> pq_cancelled q"
    and "dict_get (pq_pending (snd (pq_update_priority k p q))) rid = dict_get (pq_pending q) rid"
    and "rid \<in> pq_cancelled (snd (pq_update_priority k p q)) \<longleftrightarrow> rid \<in> pq_cancelled q"
  using assms
  by (auto simp: pq_cancel_def pq_update_priority_def Let_def dict_simps split: option.splits)

lemma age_one_other:
  assumes "tracked rid r p w" and "k \<noteq> rid" and "r' \<noteq> r" and "age_one now k r' w = (e, w')"
  shows "tracked rid r p w'"
proof -
  obtain st s st' s' where w: "w = (st, s)" "w' = (st', s')" by (metis surj_pair)
  note fr = age_one_frame [OF assms(4) [unfolded w]]
  have "dict_get (pq_pending (sjf_queue s')) rid = dict_get (pq_pending (sjf_queue s)) rid \<and>
      (rid \<in> pq_cancelled (sjf_queue s') \<longleftrightarrow> rid \<in> pq_cancelled (sjf_queue s))"
    using assms(4)
    by (auto simp: w age_one_def Let_def queue_frame [OF assms(2)] split: sum.splits if_splits)
  with assms(1-3) fr(5) [of r] fr(6,7) show ?thesis by (auto simp: tracked_def w dict_simps)
qed

lemma age_one_own:
  assumes "tracked rid r p (st, s)" and "aging_numeric a f m limit s"
    and "0 \<le> now - sr_enqueue_time (st r)" and "now - sr_enqueue_time (st r) \<le> limit"
  shows "\<exists>w'. age_one now rid r (st, s) = (None, w') \<and>
    tracked rid r (aged a f m (now - sr_enqueue_time (st r)) p) w'"
proof -
  have "aging_boost (sjf_aging s) (now - sr_enqueue_time (st r)) p =
      Inr (p - min (raw_boost a f (now - sr_enqueue_time (st r))) m)"
    using aging_boost_eq [of a f m "now - sr_enqueue_time (st r)" p] assms(2,3) by (simp add: aging_numeric_def)
  with assms show ?thesis
    using pq_safe_update_priority [of "sjf_queue s" rid]
    by (auto simp: age_one_def Let_def tracked_def aging_numeric_def aged_def pq_update_priority_def dict_simps)
qed

lemma age_one_returns:
  assumes "aging_numeric a f m limit s" and "sr_enqueue_time (st r) \<le> now"
  shows "\<exists>w'. age_one now k r (st, s) = (None, w') \<and> aging_numeric a f m limit (snd w')"
proof -
  have "aging_boost (sjf_aging s) (now - sr_enqueue_time (st r)) (sr_priority (st r)) =
      Inr (sr_priority (st r) - min (raw_boost a f (now - sr_enqueue_time (st r))) m)"
    using aging_boost_eq [of a f m "now - sr_enqueue_time (st r)" "sr_priority (st r)"] assms
    by (simp add: aging_numeric_def)
  with assms show ?thesis by (auto simp: age_one_def Let_def aging_numeric_def)
qed

lemma pending_ok_shrink:
  "pending_ok now (st, s) \<Longrightarrow> set (sjf_pending s') \<subseteq> set (sjf_pending s) \<Longrightarrow>
   distinct (map fst (sjf_pending s')) \<Longrightarrow> distinct (map snd (sjf_pending s')) \<Longrightarrow>
   \<forall>r. sr_enqueue_time (st' r) = sr_enqueue_time (st r) \<Longrightarrow> pending_ok now (st', s')"
  by (auto simp: pending_ok_def)

lemma dict_pop_filter: "dict_pop k d = filter (\<lambda>(k', _). k \<noteq> k') d"
  by (simp add: AList.delete_eq)

lemma age_one_pending_ok:
  assumes "age_one now k r' (st, s) = (e, (st', s'))" and "pending_ok now' (st, s)"
  shows "pending_ok now' (st', s')"
proof -
  note fr = age_one_frame [OF assms(1)]
  have "distinct (map fst (sjf_pending s))" "distinct (map snd (sjf_pending s))"
    using assms(2) by (simp_all add: pending_ok_def)
  with fr(4,6) show ?thesis
    by (intro pending_ok_shrink [OF assms(2)]) (auto simp: dict_pop_filter distinct_map_filter)
qed

lemma age_all_frame:
  "age_all now kvs (st, s) = (e, (st', s')) \<Longrightarrow> pending_ok now' (st, s) \<Longrightarrow>
     pending_ok now' (st', s') \<and> sjf_aging_task s' = sjf_aging_task s \<and>
     (\<forall>r. sr_enqueue_time (st' r) = sr_enqueue_time (st r))"
proof (induction kvs arbitrary: st s)
  case Nil
  then show ?case by simp
next
  case (Cons x kvs)
  obtain k r' where x: "x = (k, r')" by force
  obtain e1 st1 s1 where 1: "age_one now k r' (st, s) = (e1, (st1, s1))" by (metis surj_pair)
  note fr = age_one_frame [OF 1] and ok = age_one_pending_ok [OF 1 Cons.prems(2)]
  show ?case
  proof (cases e1)
    case None
    with Cons.prems(1) 1 x have "age_all now kvs (st1, s1) = (e, (st', s'))" by simp
    from Cons.IH [OF this ok] fr(3,4) show ?thesis by simp
  next
    case (Some a)
    with Cons.prems(1) 1 x have "st1 = st'" "s1 = s'" by simp_all
    with ok fr(3,4) show ?thesis by simp
  qed
qed

text \<open>A turn over a list that does not contain the request leaves it alone.\<close>

lemma age_all_others:
  assumes "aging_numeric a f m limit (snd w)" and "tracked rid r p w"
    and "\<forall>(k, r') \<in> set kvs. k \<noteq> rid \<and> r' \<noteq> r \<and> sr_enqueue_time (fst w r') \<le> now"
  shows "\<exists>w'. age_all now kvs w = (None, w') \<and> aging_numeric a f m limit (snd w') \<and> tracked rid r p w'"
  using assms
proof (induction kvs arbitrary: w)
  case Nil
  then show ?case by simp
next
  case (Cons x kvs)
  obtain k r' st s where x: "x = (k, r')" "w = (st, s)" by (metis surj_pair)
  obtain st1 s1 where 1: "age_one now k r' (st, s) = (None, (st1, s1))" "aging_numeric a f m limit s1"
    using age_one_returns [of a f m limit s st r' now k] Cons.prems(1,3) x by auto
  have "tracked rid r p (st1, s1)"
    using age_one_other [of rid r p w k r' now None "(st1, s1)"] Cons.prems(2,3) 1(1) x by simp
  moreover have "\<forall>(k, r') \<in> set kvs. k \<noteq> rid \<and> r' \<noteq> r \<and> sr_enqueue_time (st1 r') \<le> now"
    using Cons.prems(3) age_one_frame(4) [OF 1(1)] x by auto
  ultimately obtain w' where "age_all now kvs (st1, s1) = (None, w')" "aging_numeric a f m limit (snd w')"
    "tracked rid r p w'"
    using Cons.IH [of "(st1, s1)"] 1(2) by auto
  with 1(1) x show ?case by simp
qed

lemma age_all_append:
  "age_all now (xs @ ys) w =
     (case age_all now xs w of (Some e, w') \<Rightarrow> (Some e, w') | (None, w') \<Rightarrow> age_all now ys w')"
  by (induction now xs w rule: age_all.induct) (auto split: prod.split option.split)

text \<open>One turn of the loop on a tracked request.\<close>

lemma aging_tick_tracked:
  assumes num: "aging_numeric a f m limit s" and tr: "tracked rid r p (st, s)" and ok: "pending_ok now (st, s)"
    and run: "sjf_aging_task s = Running" and lim: "now - sr_enqueue_time (st r) \<le> limit"
  shows "\<exists>st' s'. aging_tick now (st, s) = (st', s') \<and> aging_numeric a f m limit s' \<and>
    tracked rid r (aged a f m (now - sr_enqueue_time (st r)) p) (st', s') \<and>
    sjf_aging_task s' = Running \<and> (\<forall>now'. pending_ok now' (st, s) \<longrightarrow> pending_ok now' (st', s')) \<and>
    (\<forall>r. sr_enqueue_time (st' r) = sr_enqueue_time (st r))"
proof -
  let ?p' = "aged a f m (now - sr_enqueue_time (st r)) p"
  have "(rid, r) \<in> set (sjf_pending s)" using tr by (auto simp: tracked_def dest: map_of_SomeD)
  then obtain xs ys where sp: "sjf_pending s = xs @ (rid, r) # ys" by (metis split_list)
  have oth: "\<forall>(k, r') \<in> set (xs @ ys). k \<noteq> rid \<and> r' \<noteq> r \<and> sr_enqueue_time (st r') \<le> now"
    and en: "sr_enqueue_time (st r) \<le> now"
    using ok sp by (auto simp: pending_ok_def rev_image_eqI)
  obtain st1 s1 where 1: "age_all now xs (st, s) = (None, (st1, s1))" "aging_numeric a f m limit s1"
    "tracked rid r p (st1, s1)"
    using age_all_others [of a f m limit "(st, s)" rid r p xs now] num tr oth by auto
  have e1: "\<forall>r. sr_enqueue_time (st1 r) = sr_enqueue_time (st r)"
    using age_all_frame [OF 1(1) ok] by blast
  obtain st2 s2 where 2: "age_one now rid r (st1, s1) = (None, (st2, s2))" "tracked rid r ?p' (st2, s2)"
    using age_one_own [OF 1(3,2), of now] en lim e1 by auto
  have n2: "aging_numeric a f m limit s2"
    using 1(2) age_one_frame(1,2,8) [OF 2(1)] by (simp add: aging_numeric_def)
  have e2: "\<forall>r. sr_enqueue_time (st2 r) = sr_enqueue_time (st r)"
    using age_one_frame(4) [OF 2(1)] e1 by simp
  obtain st3 s3 where 3: "age_all now ys (st2, s2) = (None, (st3, s3))" "aging_numeric a f m limit s3"
    "tracked rid r ?p' (st3, s3)"
    using age_all_others [of a f m limit "(st2, s2)" rid r ?p' ys now] n2 2(2) oth e2 by auto
  have all: "age_all now (sjf_pending s) (st, s) = (None, (st3, s3))"
    by (simp add: sp age_all_append 1(1) 2(1) 3(1))
  have fr: "pending_ok now' (st, s) \<Longrightarrow> pending_ok now' (st3, s3)" for now'
    using age_all_frame [OF all] by blast
  have "aging_tick now (st, s) = (st3, s3)" using all run num
    by (auto simp: aging_tick_def aging_numeric_def split: sum.splits)
  with 3 fr age_all_frame [OF all ok] run show ?thesis by auto
qed

text \<open>Any number of turns, every one inside the request's time limit.\<close>

lemma aging_ticks_tracked:
  assumes "aging_numeric a f m limit s" and "tracked rid r p (st, s)" and "sjf_aging_task s = Running"
    and "0 \<le> f" and "0 \<le> v" and "1 / 100 < min (raw_boost a f v) m"
    and "\<forall>now \<in> set nows. pending_ok now (st, s) \<and> v \<le> now - sr_enqueue_time (st r) \<and>
      now - sr_enqueue_time (st r) \<le> limit"
  shows "\<exists>st' s' p'. fold aging_tick nows (st, s) = (st', s') \<and> tracked rid r p' (st', s') \<and>
    p' \<le> p - real (length nows) * min (raw_boost a f v) m"
  using assms
proof (induction nows arbitrary: st s p)
  case Nil
  then show ?case by auto
next
  case (Cons now nows)
  let ?w = "now - sr_enqueue_time (st r)" and ?b = "min (raw_boost a f v) m"
  let ?p1 = "aged a f m ?w p"
  have nowok: "pending_ok now (st, s)" "?w \<le> limit" "v \<le> ?w" using Cons.prems(7) by simp_all
  obtain st1 s1 where 1: "aging_tick now (st, s) = (st1, s1)" "aging_numeric a f m limit s1"
    "tracked rid r ?p1 (st1, s1)" "sjf_aging_task s1 = Running"
    "\<forall>now'. pending_ok now' (st, s) \<longrightarrow> pending_ok now' (st1, s1)"
    "\<forall>r. sr_enqueue_time (st1 r) = sr_enqueue_time (st r)"
    using aging_tick_tracked [OF Cons.prems(1,2) nowok(1) Cons.prems(3) nowok(2)] by blast
  have "raw_boost a f v \<le> raw_boost a f ?w" using raw_boost_mono [OF Cons.prems(4,5) nowok(3)] .
  then have p1: "?p1 \<le> p - ?b" using Cons.prems(6) by (auto simp: aged_def Let_def min_def)
  have "\<forall>now \<in> set nows. pending_ok now (st1, s1) \<and> v \<le> now - sr_enqueue_time (st1 r) \<and>
      now - sr_enqueue_time (st1 r) \<le> limit"
    using Cons.prems(7) 1(5,6) by simp
  from Cons.IH [OF 1(2-4) Cons.prems(4-6) this] obtain st' s' p' where
    "fold aging_tick nows (st1, s1) = (st', s')" "tracked rid r p' (st', s')"
    "p' \<le> ?p1 - real (length nows) * ?b" by blast
  moreover from this(3) p1 have "p' \<le> p - real (length (now # nows)) * ?b"
    by (simp add: algebra_simps)
  ultimately show ?case using 1(1) by auto
qed

lemma dequeue_at_least_as_urgent:
  assumes "dequeue_loop now q = (r, q')" and "pq_safe q" and "it \<in> set (pq_heap q)"
    and "pi_request_id it \<notin> pq_cancelled q"
  shows "\<exists>item. r = Some item \<and> pi_priority item \<le> pi_priority it"
proof -
  have "pq_safe q \<and> it \<in> set (pq_heap q) \<and> pi_request_id it \<notin> pq_cancelled q \<longrightarrow>
      (\<exists>item. r = Some item \<and> pi_priority item \<le> pi_priority it)"
    using assms(1)
  proof (induction rule: dequeue_loop_rule)
    case (Empty q)
    then show ?case by simp
  next
    case (Cancelled q item h r q')
    have "mset (pq_heap q) = add_mset item (mset h)" by (rule heappop_cases(2) [OF Cancelled(1)])
    then have "set (pq_heap q) = insert item (set h)" by (metis set_mset_add_mset_insert set_mset_mset)
    with Cancelled show ?case using pq_safe_drop_cancelled [OF Cancelled(1)]
      by (auto simp: drop_cancelled_def)
  next
    case (Taken q item h)
    then show ?case using item_heap.heappop_min [OF _ Taken(1)]
      by (force simp: pq_safe_def pitem_lt_def)
  qed
  with assms show ?thesis by blast
qed

section \<open>Properties\<close>

text \<open>
  C11: aging defeats starvation. Let a request wait in the queue while the loop makes \<open>n\<close> turns,
  each at a waiting time of at least \<open>v\<close> and within the request's time limit. If one boost at
  waiting time \<open>v\<close> exceeds the loop's threshold of 0.01, the request's priority value has
  fallen by at least \<open>n\<close> such boosts (so below any bound, given enough turns), and the next
  dequeue returns an entry that is at least as urgent, however many other requests are queued,
  aged or timed out beside it. Boosts accumulate: \<^verbatim>\<open>max_boost\<close> caps a turn, not the sum.
\<close>

theorem aging_defeats_starvation:
  assumes "aging_numeric a f m limit s" and "tracked rid r p (st, s)" and "sjf_aging_task s = Running"
    and "0 \<le> f" and "0 \<le> v" and "1 / 100 < min (raw_boost a f v) m"
    and "\<forall>now \<in> set nows. pending_ok now (st, s) \<and> v \<le> now - sr_enqueue_time (st r) \<and>
      now - sr_enqueue_time (st r) \<le> limit"
    and "fold aging_tick nows (st, s) = (st', s')"
  shows "sr_priority (st' r) \<le> p - real (length nows) * min (raw_boost a f v) m \<and>
    (\<exists>item. fst (dequeue_loop now (sjf_queue s')) = Some item \<and>
       pi_priority item \<le> p - real (length nows) * min (raw_boost a f v) m)"
proof -
  obtain p' where t: "tracked rid r p' (st', s')" "p' \<le> p - real (length nows) * min (raw_boost a f v) m"
    using aging_ticks_tracked [OF assms(1-7)] assms(8) by auto
  then obtain it where it: "dict_get (pq_pending (sjf_queue s')) rid = Some it" "pi_priority it = p'"
    "rid \<notin> pq_cancelled (sjf_queue s')" "pq_safe (sjf_queue s')" by (auto simp: tracked_def)
  then have "it \<in> set (pq_heap (sjf_queue s'))" "pi_request_id it = rid" by (auto simp: pq_safe_def)
  with it obtain item where "fst (dequeue_loop now (sjf_queue s')) = Some item" "pi_priority item \<le> p'"
    using dequeue_at_least_as_urgent [of now "sjf_queue s'" _ _ it] by (metis fst_conv surj_pair)
  with t show ?thesis by (auto simp: tracked_def)
qed

text \<open>The sample scheduler with a factor of 1 and a cap of 5 per turn, its aging task started.\<close>

definition fast_aging :: aging_config where
  "fast_aging = default_aging_config\<lparr>ac_factor := PFloat 1, ac_max_boost := PFloat 5\<rparr>"

definition aging_start :: "sjf world" where
  "aging_start = (sample_store, sjf_start (sample_sjf\<lparr>sjf_aging := LinearAging fast_aging\<rparr>))"

definition aging_world :: "sjf world" where
  "aging_world = snd (sched_run sjf_iface sample_submits aging_start)"

lemma aging_start_queue:
  assumes "admissible sjf_may_submit sjf_iface ops aging_start"
    and "\<not> sjf_use_fallback (snd (snd (sched_run sjf_iface ops aging_start)))"
  shows "queue_world (fst (snd (sched_run sjf_iface ops aging_start)))
    (sjf_queue (snd (snd (sched_run sjf_iface ops aging_start))))"
proof -
  have i: "sjf_inv aging_start"
    by (simp add: aging_start_def sjf_inv_def sample_sjf_def sjf_start_def base_state.defs sjf.defs)
  obtain rs w where e: "sched_run sjf_iface ops aging_start = (rs, w)" by (metis surj_pair)
  with sjf_contract.run_ok [OF i assms(1) e] assms(2) show ?thesis
    by (auto simp: sjf_inv_def falls_back_def)
qed

lemma aging_world_safe: "pq_safe (sjf_queue (snd aging_world))"
proof -
  have "admissible sjf_may_submit sjf_iface sample_submits aging_start" by code_simp
  moreover have "\<not> sjf_use_fallback (snd aging_world)" by code_simp
  ultimately show ?thesis using aging_start_queue [of sample_submits]
    by (simp add: aging_world_def queue_world_def pq_ok_def)
qed

theorem aging_defeats_starvation_witness:
  "sr_priority (fst (fold aging_tick [10, 11, 12] aging_world) 0) \<le> 30 - 3 * 5"
proof -
  obtain st s st' s' where w: "aging_world = (st, s)" "fold aging_tick [10, 11, 12] (st, s) = (st', s')"
    by (metis surj_pair)
  have n: "aging_numeric (LinearAging fast_aging) 1 5 300 (snd aging_world)"
    and r: "sjf_aging_task (snd aging_world) = Running" by code_simp+
  have p: "dict_get (sjf_pending (snd aging_world)) ''x'' = Some 0"
    and q: "dict_get (pq_pending (sjf_queue (snd aging_world))) ''x'' =
      Some \<lparr>pi_priority = 30, pi_enqueue_time = 5, pi_request_id = ''x'', pi_payload = 0\<rparr>"
    and c: "sr_priority (fst aging_world 0) = 30" "''x'' \<notin> pq_cancelled (sjf_queue (snd aging_world))"
    and e: "sr_enqueue_time (fst aging_world 0) = 0"
    by code_simp+
  have t: "tracked ''x'' 0 30 aging_world"
    using p q c aging_world_safe by (simp add: tracked_def)
  have k: "pending_ok 10 aging_world" "pending_ok 11 aging_world" "pending_ok 12 aging_world" by code_simp+
  have "\<forall>now \<in> set [10, 11, 12]. pending_ok now (st, s) \<and> 10 \<le> now - sr_enqueue_time (st 0) \<and>
      now - sr_enqueue_time (st 0) \<le> 300"
    using k [unfolded w(1)] e [unfolded w(1) fst_conv] by auto
  from aging_defeats_starvation [OF n [unfolded w, simplified] t [unfolded w] r [unfolded w, simplified] _ _ _ this w(2)]
  have "sr_priority (st' 0) \<le> 30 - 3 * 5" by simp
  with w show ?thesis by (metis fst_conv)
qed

text \<open>
  C19: an aged request is served twice. Let a single request wait in the queue with unique
  entries. One turn of the loop that boosts it by more than the threshold leaves two entries
  for it in the queue, and draining the queue hands it to two dispatchers: the stale entry of
  the priority update is never dropped.
\<close>

theorem aged_request_served_twice:
  assumes "queue_world st (sjf_queue s)" and "sjf_pending s = [(rid, r)]" and "tracked rid r p (st, s)"
    and "sjf_aging_task s = Running" and "aging_numeric a f m limit s"
    and "0 \<le> now - sr_enqueue_time (st r)" and "now - sr_enqueue_time (st r) \<le> limit"
    and "1 / 100 < min (raw_boost a f (now - sr_enqueue_time (st r))) m"
    and "\<not> falls_back s" and "aging_tick now (st, s) = (st', s')"
  shows "size {#i \<in># mset (fst (drain (dequeue_loop later) (sjf_queue_depth s') (sjf_queue s'))).
    pi_request_id i = rid#} = 2"
proof -
  let ?new = "p - min (raw_boost a f (now - sr_enqueue_time (st r))) m"
  have "aging_boost (sjf_aging s) (now - sr_enqueue_time (st r)) p = Inr ?new"
    using aging_boost_eq [of a f m "now - sr_enqueue_time (st r)" p] assms(5,6) by (simp add: aging_numeric_def)
  then have s': "s' = s\<lparr>sjf_queue := snd (pq_update_priority rid ?new (sjf_queue s))\<rparr>"
    using assms by (auto simp: aging_tick_def age_one_def Let_def tracked_def aging_numeric_def split: sum.splits)
  have ok: "pq_ok (sjf_queue s)" using assms(1) by (simp add: queue_world_def)
  obtain it where it: "dict_get (pq_pending (sjf_queue s)) rid = Some it" "rid \<notin> pq_cancelled (sjf_queue s)"
    using assms(3) by (auto simp: tracked_def)
  have d: "sjf_queue_depth s' = pq_depth (sjf_queue s')"
    using assms(9) by (auto simp: s' sjf_queue_depth_def falls_back_def split: bool.split option.split)
  with drain_after_update [OF ok it, of "sjf_queue s'" ?new later] show ?thesis by (simp add: s')
qed

definition one_request_world :: "sjf world" where
  "one_request_world = snd (sched_run sjf_iface [Submit some_clocks 0] aging_start)"

theorem aged_request_served_twice_witness:
  "size {#i \<in># mset (fst (drain (dequeue_loop 9) (sjf_queue_depth (snd (aging_tick 8 one_request_world)))
      (sjf_queue (snd (aging_tick 8 one_request_world))))). pi_request_id i = ''x''#} = 2"
proof -
  obtain st s st' s' where w: "one_request_world = (st, s)" "aging_tick 8 (st, s) = (st', s')"
    by (metis surj_pair)
  have "admissible sjf_may_submit sjf_iface [Submit some_clocks 0] aging_start"
    "\<not> sjf_use_fallback (snd one_request_world)" by code_simp+
  then have q: "queue_world (fst one_request_world) (sjf_queue (snd one_request_world))"
    unfolding one_request_world_def by (rule aging_start_queue)
  have p: "sjf_pending (snd one_request_world) = [(''x'', 0)]"
    and e: "dict_get (pq_pending (sjf_queue (snd one_request_world))) ''x'' =
      Some \<lparr>pi_priority = 30, pi_enqueue_time = 5, pi_request_id = ''x'', pi_payload = 0\<rparr>"
    and c: "sr_priority (fst one_request_world 0) = 30"
      "''x'' \<notin> pq_cancelled (sjf_queue (snd one_request_world))"
    and k: "sr_enqueue_time (fst one_request_world 0) = 0"
    and r: "sjf_aging_task (snd one_request_world) = Running"
    and n: "aging_numeric (LinearAging fast_aging) 1 5 300 (snd one_request_world)"
    and f: "\<not> falls_back (snd one_request_world)" by code_simp+
  have t: "tracked ''x'' 0 30 one_request_world"
    using p e c q by (simp add: tracked_def queue_world_def pq_ok_def)
  note facts = q p t r n f
  from aged_request_served_twice [OF facts(1-5) [unfolded w(1) fst_conv snd_conv] _ _ _
      facts(6) [unfolded w(1) snd_conv] w(2)] k [unfolded w(1) fst_conv]
  show ?thesis unfolding w by simp
qed

text \<open>
  An error in the aging loop ends aging for good. If the configured factor is no number and
  the oldest pending request is within its time limit, the next turn changes no request and no
  queue, the background task ends with \<^verbatim>\<open>TypeError\<close>, later turns do nothing, \<^verbatim>\<open>start\<close> does not
  start a new task, and \<^verbatim>\<open>stop\<close> raises the same error on every call.
\<close>

theorem aging_error_is_final:
  assumes "sjf_aging_task s = Running" and "sjf_pending s = (rid, r) # rest"
    and "as_num (ac_factor (aging_cfg (sjf_aging s))) = Inl TypeError"
    and "as_num (sjf_timeout s) = Inr limit" and "\<not> isl (as_num (sjf_aging_interval s))"
    and "0 \<le> now - sr_enqueue_time (st r)" and "now - sr_enqueue_time (st r) \<le> limit"
    and "aging_tick now (st, s) = (st', s')"
  shows "st' = st \<and> sjf_queue s' = sjf_queue s \<and> sjf_aging_task s' = Failed TypeError \<and>
    aging_tick later (st', s') = (st', s') \<and> sjf_start s' = s' \<and> sjf_stop s' = (Some TypeError, s')"
proof -
  have "aging_boost (sjf_aging s) (now - sr_enqueue_time (st r)) (sr_priority (st r)) = Inl TypeError"
    using assms(3,6)
    by (cases "sjf_aging s") (auto simp: linear_boost_def logarithmic_boost_def exponential_boost_def)
  with assms(4,7) have "age_one now rid r (st, s) = (Some TypeError, (st, s))"
    by (auto simp: age_one_def Let_def)
  with assms(1,2,5,8) have "st' = st" "s' = s\<lparr>sjf_aging_task := Failed TypeError\<rparr>"
    by (auto simp: aging_tick_def split: sum.splits)
  then show ?thesis by (simp add: aging_tick_def sjf_start_def sjf_stop_def)
qed

theorem aging_error_is_final_witness:
  "sjf_stop (snd (aging_tick 10 (fst aging_world, (snd aging_world)
       \<lparr>sjf_aging := LinearAging (fast_aging\<lparr>ac_factor := PStr ''0.5''\<rparr>)\<rparr>)))
   = (Some TypeError, snd (aging_tick 10 (fst aging_world, (snd aging_world)
       \<lparr>sjf_aging := LinearAging (fast_aging\<lparr>ac_factor := PStr ''0.5''\<rparr>)\<rparr>)))"
proof -
  let ?s = "(snd aging_world)\<lparr>sjf_aging := LinearAging (fast_aging\<lparr>ac_factor := PStr ''0.5''\<rparr>)\<rparr>"
  obtain st' s' where e: "aging_tick 10 (fst aging_world, ?s) = (st', s')" by (metis surj_pair)
  have r: "sjf_aging_task ?s = Running" and t: "as_num (sjf_timeout ?s) = Inr 300" "\<not> isl (as_num (sjf_aging_interval ?s))"
    and w: "0 \<le> 10 - sr_enqueue_time (fst aging_world 0)" "10 - sr_enqueue_time (fst aging_world 0) \<le> 300"
    by code_simp+
  have p: "sjf_pending ?s = (''x'', 0) # [(''xx'', 1), (''xxx'', 2)]" by code_simp
  have f: "as_num (ac_factor (aging_cfg (sjf_aging ?s))) = Inl TypeError" by code_simp
  from aging_error_is_final [OF r p f t w e] e show ?thesis by simp
qed


end
