(* ===== verification/AnyScheduler.thy ===== *)
theory AnyScheduler
  imports SjfScheduler
begin

text \<open>
  The scheduler object the gateway holds: one of the three classes, its methods selected by
  dynamic dispatch. The contract of theory \<open>BaseScheduler\<close> holds for all three, so whatever the
  gateway derives from it holds for every configuration.
\<close>

section \<open>Dynamic dispatch\<close>

fun any_submit :: "clocks \<Rightarrow> oref \<Rightarrow> any_scheduler world \<Rightarrow> any_scheduler world" where
  "any_submit ck r (st, AnyFcfs s) = (st, AnyFcfs (fcfs_submit st r s))"
| "any_submit ck r (st, AnySjf s) = (case sjf_submit ck r (st, s) of (st', s') \<Rightarrow> (st', AnySjf s'))"
| "any_submit ck r (st, AnyOracle s) = (case oracle_submit ck r (st, s) of (st', s') \<Rightarrow> (st', AnyOracle s'))"

fun any_acquire :: "clocks \<Rightarrow> any_scheduler world \<Rightarrow> oref acq \<times> any_scheduler world" where
  "any_acquire ck (st, AnyFcfs s) =
     (case fcfs_acquire (ck_timeout ck) s of (a, s') \<Rightarrow> (a, st, AnyFcfs s'))"
| "any_acquire ck (st, AnySjf s) =
     (case sjf_acquire ck (st, s) of (a, st', s') \<Rightarrow> (a, st', AnySjf s'))"
| "any_acquire ck (st, AnyOracle s) =
     (case oracle_acquire ck (st, s) of (a, st', s') \<Rightarrow> (a, st', AnyOracle s'))"

fun any_complete :: "string \<Rightarrow> bool \<Rightarrow> any_scheduler \<Rightarrow> any_scheduler" where
  "any_complete k b (AnyFcfs s) = AnyFcfs (fcfs_complete k b s)"
| "any_complete k b (AnySjf s) = AnySjf (sjf_complete k b s)"
| "any_complete k b (AnyOracle s) = AnyOracle (oracle_complete k b s)"

fun any_cancel :: "string \<Rightarrow> any_scheduler \<Rightarrow> bool \<times> any_scheduler" where
  "any_cancel k (AnyFcfs s) = map_prod id AnyFcfs (fcfs_cancel k s)"
| "any_cancel k (AnySjf s) = map_prod id AnySjf (sjf_cancel k s)"
| "any_cancel k (AnyOracle s) = map_prod id AnyOracle (oracle_cancel k s)"

fun any_queue_depth :: "any_scheduler \<Rightarrow> nat" where
  "any_queue_depth (AnyFcfs s) = fcfs_queue_depth s"
| "any_queue_depth (AnySjf s) = sjf_queue_depth s"
| "any_queue_depth (AnyOracle s) = oracle_queue_depth s"

fun any_stats :: "any_scheduler \<Rightarrow> scheduler_stats" where
  "any_stats (AnyFcfs s) = base_stats (fcfs_queue_depth s) s"
| "any_stats (AnySjf s) = base_stats (sjf_queue_depth s) s"
| "any_stats (AnyOracle s) = base_stats (oracle_queue_depth s) s"

section \<open>The contract\<close>

definition any_iface :: "(clocks, any_scheduler world) sched_iface" where
  "any_iface =
     \<lparr>if_submit = any_submit, if_acquire = any_acquire,
      if_complete = (\<lambda>k b (st, s). (st, any_complete k b s)),
      if_cancel = (\<lambda>k (st, s). case any_cancel k s of (b, s') \<Rightarrow> (b, st, s'))\<rparr>"

fun any_inv :: "any_scheduler world \<Rightarrow> bool" where
  "any_inv (st, AnyFcfs s) = True"
| "any_inv (st, AnySjf s) = sjf_inv (st, s)"
| "any_inv (st, AnyOracle s) = oracle_inv (st, s)"

fun any_waiting :: "any_scheduler world \<Rightarrow> oref multiset" where
  "any_waiting (st, AnyFcfs s) = mset (fcfs_queue s)"
| "any_waiting (st, AnySjf s) = sjf_waiting (st, s)"
| "any_waiting (st, AnyOracle s) = oracle_waiting (st, s)"

fun any_may_submit :: "oref \<Rightarrow> any_scheduler world \<Rightarrow> bool" where
  "any_may_submit r (st, AnyFcfs s) = True"
| "any_may_submit r (st, AnySjf s) = sjf_may_submit r (st, s)"
| "any_may_submit r (st, AnyOracle s) = oracle_may_submit r (st, s)"

fun any_scheduled :: "any_scheduler world \<Rightarrow> nat" where
  "any_scheduled (st, AnyFcfs s) = bs_total_scheduled s"
| "any_scheduled (st, AnySjf s) = bs_total_scheduled s"
| "any_scheduled (st, AnyOracle s) = bs_total_scheduled s"

fun any_finished :: "bool \<Rightarrow> any_scheduler world \<Rightarrow> nat" where
  "any_finished b (st, AnyFcfs s) = finished_count b s"
| "any_finished b (st, AnySjf s) = finished_count b s"
| "any_finished b (st, AnyOracle s) = finished_count b s"

lemmas any_defs = any_iface_def fcfs_iface_def sjf_iface_def oracle_iface_def

interpretation any_contract: scheduler any_iface any_inv any_waiting any_may_submit
  any_scheduled any_finished
proof unfold_locales
  fix w w' :: "any_scheduler world" and r e a k c
  obtain st s where w: "w = (st, s)" by force
  show "any_inv w \<Longrightarrow> any_may_submit r w \<Longrightarrow> w' = if_submit any_iface e r w \<Longrightarrow>
      any_inv w' \<and> any_waiting w' = add_mset r (any_waiting w) \<and>
      any_scheduled w' = Suc (any_scheduled w) \<and> (\<forall>b. any_finished b w' = any_finished b w)"
  proof (cases s)
    case (AnyFcfs x)
    with fcfs_sched.submit_ok [OF TrueI TrueI refl, of st _ r x]
    show "any_inv w \<Longrightarrow> any_may_submit r w \<Longrightarrow> w' = if_submit any_iface e r w \<Longrightarrow> ?thesis"
      by (simp add: w any_defs)
  next
    case (AnySjf x)
    with sjf_contract.submit_ok [OF _ _ refl, of "(st, x)" r e]
    show "any_inv w \<Longrightarrow> any_may_submit r w \<Longrightarrow> w' = if_submit any_iface e r w \<Longrightarrow> ?thesis"
      by (cases "sjf_submit e r (st, x)") (simp add: w any_defs)
  next
    case (AnyOracle x)
    with oracle_contract.submit_ok [OF _ _ refl, of "(st, x)" r e]
    show "any_inv w \<Longrightarrow> any_may_submit r w \<Longrightarrow> w' = if_submit any_iface e r w \<Longrightarrow> ?thesis"
      by (cases "oracle_submit e r (st, x)") (simp add: w any_defs)
  qed
  show "any_inv w \<Longrightarrow> if_acquire any_iface e w = (a, w') \<Longrightarrow>
      any_inv w' \<and> any_scheduled w' = any_scheduled w \<and> (\<forall>b. any_finished b w' = any_finished b w) \<and>
      (case a of Acquired r \<Rightarrow> any_waiting w = add_mset r (any_waiting w')
       | _ \<Rightarrow> any_waiting w = {#} \<and> any_waiting w' = {#})"
  proof (cases s)
    case (AnyFcfs x)
    obtain a' x' where "fcfs_acquire (ck_timeout e) x = (a', x')" by force
    with AnyFcfs fcfs_sched.acquire_ok [OF TrueI, of st "ck_timeout e" x a' x']
    show "any_inv w \<Longrightarrow> if_acquire any_iface e w = (a, w') \<Longrightarrow> ?thesis"
      by (cases a) (auto simp: w any_defs)
  next
    case (AnySjf x)
    obtain a' st' x' where "sjf_acquire e (st, x) = (a', st', x')" by (metis prod.collapse)
    with AnySjf sjf_contract.acquire_ok [of "(st, x)" e a' "(st', x')"]
    show "any_inv w \<Longrightarrow> if_acquire any_iface e w = (a, w') \<Longrightarrow> ?thesis"
      by (cases a) (auto simp: w any_defs)
  next
    case (AnyOracle x)
    obtain a' st' x' where "oracle_acquire e (st, x) = (a', st', x')" by (metis prod.collapse)
    with AnyOracle oracle_contract.acquire_ok [of "(st, x)" e a' "(st', x')"]
    show "any_inv w \<Longrightarrow> if_acquire any_iface e w = (a, w') \<Longrightarrow> ?thesis"
      by (cases a) (auto simp: w any_defs)
  qed
  show "any_inv w \<Longrightarrow> w' = if_complete any_iface k c w \<Longrightarrow>
      any_inv w' \<and> any_waiting w' = any_waiting w \<and> any_scheduled w' = any_scheduled w \<and>
      (\<forall>b. any_finished b w' = any_finished b w + (if b = c then 1 else 0))"
    using fcfs_sched.complete_ok [OF TrueI refl, of st k c]
      sjf_contract.complete_ok [OF _ refl, of "(st, _)" k c]
      oracle_contract.complete_ok [OF _ refl, of "(st, _)" k c]
    by (cases s) (simp_all add: w any_defs)
  show "any_inv w \<Longrightarrow> w' = snd (if_cancel any_iface k w) \<Longrightarrow>
      any_inv w' \<and> any_waiting w' \<subseteq># any_waiting w \<and> any_scheduled w' = any_scheduled w \<and>
      (\<forall>b. any_finished b w' = any_finished b w)"
    using fcfs_sched.cancel_ok [OF TrueI refl, of st k]
      sjf_contract.cancel_ok [OF _ refl, of "(st, _)" k]
      oracle_contract.cancel_ok [OF _ refl, of "(st, _)" k]
    by (cases s) (simp_all add: w any_defs case_prod_beta)
qed

end
