(* ===== verification/Py_Text.thy ===== *)
theory Py_Text
  imports Py_Prelude
begin

text \<open>
  Text as the sources handle it: Python's character predicates and string methods, the conversion of dynamic values to text, and a
  backtracking matcher for the regular expressions of the feature extractor. Characters are
  those of Latin-1, for which the tables below are Python's; code points above 255 are not
  covered.
\<close>

section \<open>Characters\<close>

abbreviation code :: "char \<Rightarrow> nat" where
  "code c \<equiv> of_char c"

definition in_range :: "nat \<Rightarrow> nat \<Rightarrow> char \<Rightarrow> bool" where
  "in_range a b c \<longleftrightarrow> a \<le> code c \<and> code c \<le> b"

definition is_upper :: "char \<Rightarrow> bool" where
  "is_upper c \<longleftrightarrow> in_range 65 90 c \<or> (in_range 192 222 c \<and> code c \<noteq> 215)"

definition is_lower :: "char \<Rightarrow> bool" where
  "is_lower c \<longleftrightarrow> in_range 97 122 c \<or> code c = 170 \<or> code c = 181 \<or> code c = 186 \<or>
     (in_range 223 255 c \<and> code c \<noteq> 247)"

definition is_digit :: "char \<Rightarrow> bool" where
  "is_digit c \<longleftrightarrow> in_range 48 57 c \<or> code c = 178 \<or> code c = 179 \<or> code c = 185"

definition is_space :: "char \<Rightarrow> bool" where
  "is_space c \<longleftrightarrow> in_range 9 13 c \<or> in_range 28 32 c \<or> code c = 133 \<or> code c = 160"

definition is_punct :: "char \<Rightarrow> bool" where
  "is_punct c \<longleftrightarrow> in_range 33 47 c \<or> in_range 58 64 c \<or> in_range 91 96 c \<or> in_range 123 126 c"

text \<open>The class \<^verbatim>\<open>\w\<close>: alphanumeric characters (vulgar fractions included) and the underscore.\<close>

definition is_word :: "char \<Rightarrow> bool" where
  "is_word c \<longleftrightarrow> is_upper c \<or> is_lower c \<or> is_digit c \<or> in_range 188 190 c \<or> code c = 95"

definition to_lower :: "char \<Rightarrow> char" where
  "to_lower c = (if is_upper c then char_of (code c + 32) else c)"

definition lower :: "string \<Rightarrow> string" where
  "lower = map to_lower"

lemma upper_not_lower: "is_upper c \<Longrightarrow> \<not> is_lower c"
  by (auto simp: is_upper_def is_lower_def in_range_def)

section \<open>Strings\<close>

fun has_infix :: "string \<Rightarrow> string \<Rightarrow> bool" where
  "has_infix p [] = (p = [])"
| "has_infix p (c # cs) = (take (length p) (c # cs) = p \<or> has_infix p cs)"

text \<open>\<^verbatim>\<open>s.count(sub)\<close> for a non-empty \<^verbatim>\<open>sub\<close>: occurrences that do not overlap.\<close>

function count_sub :: "string \<Rightarrow> string \<Rightarrow> nat" where
  "count_sub sub s =
     (case s of
        [] \<Rightarrow> 0
      | c # cs \<Rightarrow>
          if sub \<noteq> [] \<and> take (length sub) s = sub then Suc (count_sub sub (drop (length sub) s))
          else count_sub sub cs)"
  by pat_completeness auto
termination by (relation "measure (\<lambda>(sub, s). length s)") auto

declare count_sub.simps [simp del]

text \<open>\<^verbatim>\<open>s.split()\<close>: the maximal runs without white space.\<close>

fun split_acc :: "(char \<Rightarrow> bool) \<Rightarrow> string \<Rightarrow> string \<Rightarrow> string list" where
  "split_acc sep acc [] = (if acc = [] then [] else [acc])"
| "split_acc sep acc (c # cs) =
     (if sep c then (if acc = [] then [] else [acc]) @ split_acc sep [] cs
      else split_acc sep (acc @ [c]) cs)"

definition split_ws :: "string \<Rightarrow> string list" where
  "split_ws s = split_acc is_space [] s"

text \<open>\<^verbatim>\<open>bool(s.strip())\<close>.\<close>

definition strip_nonempty :: "string \<Rightarrow> bool" where
  "strip_nonempty s \<longleftrightarrow> (\<exists>c \<in> set s. \<not> is_space c)"

text \<open>\<^verbatim>\<open>s.endswith(suffix)\<close> and \<^verbatim>\<open>s.replace(old, new)\<close> (every occurrence, left to right).\<close>

definition ends_with :: "string \<Rightarrow> string \<Rightarrow> bool" where
  "ends_with s suf \<longleftrightarrow> length suf \<le> length s \<and> drop (length s - length suf) s = suf"

function py_replace :: "string \<Rightarrow> string \<Rightarrow> string \<Rightarrow> string" where
  "py_replace old new s =
     (case s of
        [] \<Rightarrow> []
      | c # cs \<Rightarrow>
          if old \<noteq> [] \<and> take (length old) s = old then new @ py_replace old new (drop (length old) s)
          else c # py_replace old new cs)"
  by pat_completeness auto
termination by (relation "measure (\<lambda>(old, new, s). length s)") auto

declare py_replace.simps [simp del]

text \<open>\<^verbatim>\<open>s.strip()\<close>.\<close>

definition strip :: "string \<Rightarrow> string" where
  "strip s = rev (dropWhile is_space (rev (dropWhile is_space s)))"

text \<open>\<^verbatim>\<open>str(n)\<close> for a non-negative integer.\<close>

fun show_nat :: "nat \<Rightarrow> string" where
  "show_nat n = (if n < 10 then [char_of (48 + n)] else show_nat (n div 10) @ [char_of (48 + n mod 10)])"

declare show_nat.simps [simp del]

section \<open>Dynamic values and text\<close>

text \<open>Iteration over a value, \<^verbatim>\<open>for m in v\<close>.\<close>

fun py_iter :: "pyval \<Rightarrow> pyval list pyres" where
  "py_iter (PList vs) = Inr vs"
| "py_iter (PStr s) = Inr (map (\<lambda>c. PStr [c]) s)"
| "py_iter (PDict d) = Inr (map (\<lambda>(k, v). PStr k) d)"
| "py_iter _ = Inl TypeError"

text \<open>\<^verbatim>\<open>f"{v}"\<close>; \<open>fmt\<close> renders what is not a string.\<close>

fun py_str :: "(pyval \<Rightarrow> string) \<Rightarrow> pyval \<Rightarrow> string" where
  "py_str fmt (PStr s) = s"
| "py_str fmt v = fmt v"

fun map_res :: "('a \<Rightarrow> 'b pyres) \<Rightarrow> 'a list \<Rightarrow> 'b list pyres" where
  "map_res f [] = Inr []"
| "map_res f (x # xs) = bind_res (f x) (\<lambda>y. bind_res (map_res f xs) (\<lambda>ys. Inr (y # ys)))"

text \<open>\<^verbatim>\<open>sep.join(ls)\<close>.\<close>

fun join_with :: "string \<Rightarrow> string list \<Rightarrow> string" where
  "join_with sep [] = []"
| "join_with sep [l] = l"
| "join_with sep (l # ls) = l @ sep @ join_with sep ls"

section \<open>Regular expressions\<close>

text \<open>
  \<open>WordB\<close> is \<^verbatim>\<open>\b\<close>, \<open>LineStart\<close> is \<^verbatim>\<open>^\<close> under \<^verbatim>\<open>re.MULTILINE\<close>; \<open>Star\<close> is greedy.
\<close>

datatype rx = Eps | Cls "char \<Rightarrow> bool" | Seq rx rx | Alt rx rx | Star rx | WordB | LineStart

definition word_at :: "string \<Rightarrow> nat \<Rightarrow> bool" where
  "word_at s i \<longleftrightarrow> i < length s \<and> is_word (s ! i)"

definition boundary :: "string \<Rightarrow> nat \<Rightarrow> bool" where
  "boundary s i \<longleftrightarrow> (0 < i \<and> word_at s (i - 1)) \<noteq> word_at s i"

text \<open>
  The ends of the matches that start at a position, in the order backtracking tries them. A
  repetition makes progress with every round, so as many rounds as characters are left suffice.
\<close>

fun star_ends :: "(nat \<Rightarrow> nat list) \<Rightarrow> nat \<Rightarrow> nat \<Rightarrow> nat list" where
  "star_ends f 0 i = [i]"
| "star_ends f (Suc n) i = concat (map (\<lambda>j. if i < j then star_ends f n j else []) (f i)) @ [i]"

primrec rx_ends :: "rx \<Rightarrow> string \<Rightarrow> nat \<Rightarrow> nat list" where
  "rx_ends Eps s i = [i]"
| "rx_ends (Cls P) s i = (if i < length s \<and> P (s ! i) then [Suc i] else [])"
| "rx_ends (Seq a b) s i = concat (map (rx_ends b s) (rx_ends a s i))"
| "rx_ends (Alt a b) s i = rx_ends a s i @ rx_ends b s i"
| "rx_ends (Star a) s i = star_ends (rx_ends a s) (length s - i) i"
| "rx_ends WordB s i = (if boundary s i then [i] else [])"
| "rx_ends LineStart s i = (if i = 0 \<or> s ! (i - 1) = CHR 0x0A then [i] else [])"

definition rx_search :: "rx \<Rightarrow> string \<Rightarrow> bool" where
  "rx_search r s = list_ex (\<lambda>i. rx_ends r s i \<noteq> []) [0..<Suc (length s)]"

text \<open>\<^verbatim>\<open>finditer\<close>: the spans of the leftmost matches that do not overlap.\<close>

function rx_spans :: "rx \<Rightarrow> string \<Rightarrow> nat \<Rightarrow> (nat \<times> nat) list" where
  "rx_spans r s i =
     (if length s < i then []
      else case rx_ends r s i of
             [] \<Rightarrow> rx_spans r s (Suc i)
           | j # _ \<Rightarrow> (i, j) # rx_spans r s (if i < j then j else Suc i))"
  by pat_completeness auto
termination by (relation "measure (\<lambda>(r, s, i). Suc (length s) - i)") auto

declare rx_spans.simps [simp del]

definition slice :: "string \<Rightarrow> nat \<Rightarrow> nat \<Rightarrow> string" where
  "slice s i j = take (j - i) (drop i s)"

definition rx_findall :: "rx \<Rightarrow> string \<Rightarrow> string list" where
  "rx_findall r s = map (\<lambda>(i, j). slice s i j) (rx_spans r s 0)"

text \<open>\<^verbatim>\<open>re.split\<close>: the pieces around the matches.\<close>

fun pieces :: "string \<Rightarrow> nat \<Rightarrow> (nat \<times> nat) list \<Rightarrow> string list" where
  "pieces s i [] = [drop i s]"
| "pieces s i ((a, b) # spans) = slice s i a # pieces s b spans"

definition rx_split :: "rx \<Rightarrow> string \<Rightarrow> string list" where
  "rx_split r s = pieces s 0 (rx_spans r s 0)"

subsection \<open>Abbreviations for patterns\<close>

definition Plus :: "rx \<Rightarrow> rx" where
  "Plus r = Seq r (Star r)"

fun SeqL :: "rx list \<Rightarrow> rx" where
  "SeqL [] = Eps"
| "SeqL [r] = r"
| "SeqL (r # rs) = Seq r (SeqL rs)"

fun AltL :: "rx list \<Rightarrow> rx" where
  "AltL [] = Cls (\<lambda>_. False)"
| "AltL [r] = r"
| "AltL (r # rs) = Alt r (AltL rs)"

definition Ch :: "char \<Rightarrow> rx" where
  "Ch c = Cls (\<lambda>d. d = c)"

definition Lit :: "string \<Rightarrow> rx" where
  "Lit s = SeqL (map Ch s)"

text \<open>A literal under \<^verbatim>\<open>re.IGNORECASE\<close>.\<close>

definition LitI :: "string \<Rightarrow> rx" where
  "LitI s = SeqL (map (\<lambda>c. Cls (\<lambda>d. to_lower d = to_lower c)) s)"

abbreviation Space :: rx where
  "Space \<equiv> Cls is_space"

section \<open>Facts\<close>

lemma length_lower [simp]: "length (lower s) = length s"
  by (simp add: lower_def)

lemma count_filter_le: "length (filter P s) \<le> length s"
  by (rule length_filter_le)

lemma card_set_map_le: "card (set (map f xs)) \<le> length xs"
  by (metis card_length length_map)

end
