(* ===== verification/Gateway.thy ===== *)
theory Gateway
  imports AnyScheduler Py_Text
begin

text \<open>
  The gateway of \<^verbatim>\<open>python/scheduler/gateway.py\<close>: configuration, start and stop, the submission of
  chat requests, the dispatcher loop, the forwarding of requests to the vLLM server, the
  metrics and the HTTP handlers. A coroutine is cut at the points where it suspends; each piece
  is one function on the gateway's state. What the HTTP client returns, the clock readings,
  \<^verbatim>\<open>uuid4\<close> and the text conversions of non-string values are arguments.
\<close>

section \<open>Values\<close>

text \<open>\<^verbatim>\<open>key in v\<close> for a string key.\<close>

fun py_in :: "string \<Rightarrow> pyval \<Rightarrow> bool pyres" where
  "py_in k (PDict d) = Inr (dict_get d k \<noteq> None)"
| "py_in k (PList vs) = Inr (PStr k \<in> set vs)"
| "py_in k (PStr s) = Inr (has_infix k s)"
| "py_in k _ = Inl TypeError"

section \<open>Requests\<close>

definition message_line :: "(pyval \<Rightarrow> string) \<Rightarrow> pyval \<Rightarrow> string pyres" where
  "message_line fmt m =
     bind_res (py_get m ''role'' (PStr ''user'')) (\<lambda>role.
     bind_res (py_get m ''content'' (PStr [])) (\<lambda>content.
       Inr (py_str fmt role @ '': '' @ py_str fmt content)))"

definition chat_prompt :: "(pyval \<Rightarrow> string) \<Rightarrow> pyval \<Rightarrow> string pyres" where
  "chat_prompt fmt messages =
     bind_res (py_iter messages) (\<lambda>ms.
     bind_res (map_res (message_line fmt) ms) (\<lambda>ls. Inr (join_with [CHR 0x0A] ls)))"

text \<open>
  The \<^verbatim>\<open>ScheduledRequest\<close> both submission methods build from the body, with the metadata entry
  \<open>extra\<close> of the method (a future or a stream queue).
\<close>

definition make_request ::
  "(pyval \<Rightarrow> string) \<Rightarrow> (string \<Rightarrow> int option) \<Rightarrow> string \<Rightarrow> real \<Rightarrow> string \<times> metaval \<Rightarrow> pyval \<Rightarrow>
   scheduled_request pyres" where
  "make_request fmt parse rid now extra body =
     bind_res (py_get body ''messages'' (PList [])) (\<lambda>messages.
     bind_res (chat_prompt fmt messages) (\<lambda>prompt.
     bind_res (bind_res (py_get body ''max_tokens'' (PInt 128)) (py_int parse)) (\<lambda>max_tokens.
       Inr \<lparr>sr_request_id = rid, sr_prompt = prompt, sr_messages = messages, sr_max_tokens = max_tokens,
            sr_predicted_tokens = 0, sr_priority = 0, sr_enqueue_time = now,
            sr_metadata = [(''body'', MBody body), extra]\<rparr>)))"

section \<open>State\<close>

datatype future = FPending | FResult pyval | FCancelled

datatype chunk = Chunk string | EndOfStream

text \<open>The process-wide Prometheus metrics.\<close>

record metrics =
  mt_success :: nat
  mt_error :: nat
  mt_timeouts :: nat
  mt_dropped :: nat
  mt_queue_depth :: nat
  mt_predicted :: "real list"
  mt_e2e :: "real list"

definition metrics_init :: metrics where
  "metrics_init = \<lparr>mt_success = 0, mt_error = 0, mt_timeouts = 0, mt_dropped = 0, mt_queue_depth = 0,
     mt_predicted = [], mt_e2e = []\<rparr>"

text \<open>
  \<open>gw_store\<close>, \<open>gw_next\<close>, \<open>gw_futures\<close> and \<open>gw_streams\<close> are the objects the requests refer to
  (request \<open>r\<close> owns future \<open>r\<close> or stream queue \<open>r\<close>); \<open>gw_tasks\<close> are the running
  \<^verbatim>\<open>_forward_request\<close> tasks; \<open>gw_client\<close> says whether \<^verbatim>\<open>_client\<close> is set.
\<close>

record gateway =
  gw_config :: pyval
  gw_vllm_url :: pyval
  gw_model :: pyval
  gw_type :: scheduler_type
  gw_max_workers :: pyval
  gw_request_timeout :: real
  gw_connect_timeout :: real
  gw_predictor :: "predictor option"
  gw_scheduler :: "any_scheduler option"
  gw_client :: bool
  gw_owns_client :: bool
  gw_workers :: nat
  gw_running :: bool
  gw_store :: store
  gw_next :: oref
  gw_futures :: "oref \<Rightarrow> future option"
  gw_streams :: "oref \<Rightarrow> chunk list"
  gw_tasks :: "oref list"
  gw_metrics :: metrics

text \<open>\<^verbatim>\<open>__init__\<close>: the chains of \<^verbatim>\<open>dict.get\<close> with their defaults.\<close>

definition mk_gateway :: "(string \<Rightarrow> real option) \<Rightarrow> pyval \<Rightarrow> bool \<Rightarrow> store \<Rightarrow> gateway pyres" where
  "mk_gateway parse config http_client st =
     bind_res (py_get config ''vllm'' (PDict [])) (\<lambda>vllm.
     bind_res (py_get vllm ''base_url'' (PStr ''http://localhost:8000'')) (\<lambda>url.
     bind_res (py_get vllm ''model'' (PStr ''HuggingFaceTB/SmolLM3-3B'')) (\<lambda>model.
     bind_res (py_get config ''scheduler'' (PDict [])) (\<lambda>sched.
     bind_res (bind_res (py_get sched ''type'' (PStr ''sjf'')) scheduler_type_of) (\<lambda>ty.
     bind_res (py_get sched ''max_workers'' (PInt 32)) (\<lambda>workers.
     bind_res (bind_res (py_get sched ''request_timeout_sec'' (PFloat 300)) (py_float parse)) (\<lambda>rt.
     bind_res (bind_res (py_get sched ''vllm_connect_timeout_sec'' (PFloat 5)) (py_float parse)) (\<lambda>ct.
       Inr \<lparr>gw_config = config, gw_vllm_url = url, gw_model = model, gw_type = ty, gw_max_workers = workers,
            gw_request_timeout = rt, gw_connect_timeout = ct, gw_predictor = None, gw_scheduler = None,
            gw_client = http_client, gw_owns_client = (\<not> http_client), gw_workers = 0, gw_running = False,
            gw_store = st, gw_next = 0, gw_futures = (\<lambda>_. None), gw_streams = (\<lambda>_. []), gw_tasks = [],
            gw_metrics = metrics_init\<rparr>))))))))"

section \<open>Start and stop\<close>

text \<open>\<^verbatim>\<open>range(n)\<close>: integers only, and empty for a negative one.\<close>

fun py_range :: "pyval \<Rightarrow> nat pyres" where
  "py_range (PInt i) = Inr (nat i)"
| "py_range (PBool b) = Inr (if b then 1 else 0)"
| "py_range _ = Inl TypeError"

text \<open>
  The predictor: \<open>ckpt dir\<close> is \<^verbatim>\<open>from_checkpoint\<close> on the directory's checkpoint, \<open>None\<close> when there
  is no such file; \<open>fresh\<close> is an untrained model's predictor. \<^verbatim>\<open>Path\<close> accepts strings only.
\<close>

definition startup_predictor ::
  "(string \<Rightarrow> predictor pyres option) \<Rightarrow> predictor \<Rightarrow> pyval \<Rightarrow> predictor pyres" where
  "startup_predictor ckpt fresh config =
     bind_res (bind_res (py_get config ''predictor'' (PDict [])) (\<lambda>p. py_get p ''models_dir'' (PStr ''models'')))
       (\<lambda>dir. case dir of
          PStr d \<Rightarrow> (case ckpt d of Some p \<Rightarrow> p | None \<Rightarrow> Inr fresh)
        | _ \<Rightarrow> Inl TypeError)"

text \<open>\<^verbatim>\<open>startup\<close>: an exception leaves the assignments made before it.\<close>

definition start_if_sjf :: "any_scheduler \<Rightarrow> any_scheduler" where
  "start_if_sjf s = (case s of AnySjf x \<Rightarrow> AnySjf (sjf_start x) | _ \<Rightarrow> s)"

definition gateway_startup ::
  "(string \<Rightarrow> predictor pyres option) \<Rightarrow> predictor \<Rightarrow> gateway \<Rightarrow> pyexn option \<times> gateway" where
  "gateway_startup ckpt fresh g =
     (if gw_running g then (None, g)
      else case startup_predictor ckpt fresh (gw_config g) of
        Inl e \<Rightarrow> (Some e, g)
      | Inr p \<Rightarrow>
          (let g1 = g\<lparr>gw_predictor := Some p\<rparr>
           in case bind_res (py_get (gw_config g) ''scheduler'' (PDict [])) (build_scheduler (gw_type g) (Some p)) of
                Inl e \<Rightarrow> (Some e, g1)
              | Inr s \<Rightarrow>
                  (let g2 = g1\<lparr>gw_scheduler := Some (start_if_sjf s)\<rparr>;
                       g3 = (if gw_client g2 then g2 else g2\<lparr>gw_client := True, gw_owns_client := True\<rparr>);
                       g4 = g3\<lparr>gw_running := True\<rparr>
                   in case py_range (gw_max_workers g4) of
                        Inl e \<Rightarrow> (Some e, g4)
                      | Inr n \<Rightarrow> (None, g4\<lparr>gw_workers := gw_workers g4 + n\<rparr>))))"

text \<open>\<^verbatim>\<open>shutdown\<close>; stopping the scheduler may raise, and then the client is not closed.\<close>

definition gateway_shutdown :: "gateway \<Rightarrow> pyexn option \<times> gateway" where
  "gateway_shutdown g =
     (let g1 = g\<lparr>gw_running := False\<rparr>;
          close = (\<lambda>g. if gw_client g \<and> gw_owns_client g then g\<lparr>gw_client := False\<rparr> else g)
      in case gw_scheduler g1 of
           Some (AnySjf s) \<Rightarrow>
             (case sjf_stop s of
                (Some e, s') \<Rightarrow> (Some e, g1\<lparr>gw_scheduler := Some (AnySjf s')\<rparr>)
              | (None, s') \<Rightarrow> (None, close (g1\<lparr>gw_scheduler := Some (AnySjf s')\<rparr>)))
         | _ \<Rightarrow> (None, close g1))"

section \<open>Submission\<close>

text \<open>The part of both submission methods up to the first suspension.\<close>

definition submit_request ::
  "(oref \<Rightarrow> scheduled_request pyres) \<Rightarrow> clocks \<Rightarrow> gateway \<Rightarrow> oref pyres \<times> gateway" where
  "submit_request mk ck g =
     (let r = gw_next g
      in case mk r of
           Inl e \<Rightarrow> (Inl e, g)
         | Inr req \<Rightarrow>
             (case gw_scheduler g of
                None \<Rightarrow> (Inl AttributeError, g)
              | Some s \<Rightarrow>
                  (case any_submit ck r ((gw_store g)(r := req), s) of
                     (st', s') \<Rightarrow>
                       (Inr r, g\<lparr>gw_store := st', gw_scheduler := Some s', gw_next := Suc r\<rparr>))))"

definition set_gauge :: "gateway \<Rightarrow> gateway" where
  "set_gauge g =
     (case gw_scheduler g of
        None \<Rightarrow> g
      | Some s \<Rightarrow> g\<lparr>gw_metrics := (gw_metrics g)\<lparr>mt_queue_depth := any_queue_depth s\<rparr>\<rparr>)"

definition submit_chat ::
  "(pyval \<Rightarrow> string) \<Rightarrow> (string \<Rightarrow> int option) \<Rightarrow> string \<Rightarrow> real \<Rightarrow> clocks \<Rightarrow> pyval \<Rightarrow> gateway \<Rightarrow>
   oref pyres \<times> gateway" where
  "submit_chat fmt parse rid now ck body g =
     (case submit_request (\<lambda>r. make_request fmt parse rid now (''future'', MFuture r) body) ck g of
        (Inl e, g') \<Rightarrow> (Inl e, g')
      | (Inr r, g') \<Rightarrow>
          (let g1 = set_gauge (g'\<lparr>gw_futures := (gw_futures g')(r \<mapsto> FPending)\<rparr>);
               toks = sr_predicted_tokens (gw_store g1 r)
           in (Inr r, if toks > 0
                      then g1\<lparr>gw_metrics := (gw_metrics g1)\<lparr>mt_predicted := mt_predicted (gw_metrics g1) @ [toks]\<rparr>\<rparr>
                      else g1)))"

text \<open>
  The wait of \<^verbatim>\<open>submit_chat\<close>: a settled future gives its result; when the time limit expires on
  a pending one, \<^verbatim>\<open>wait_for\<close> cancels it and the handler drops the request.
\<close>

definition submit_chat_result :: "oref \<Rightarrow> gateway \<Rightarrow> pyval pyres option" where
  "submit_chat_result r g =
     (case gw_futures g r of
        Some (FResult v) \<Rightarrow> Some (Inr v)
      | Some FCancelled \<Rightarrow> Some (Inl (OtherError ''CancelledError''))
      | _ \<Rightarrow> None)"

definition submit_chat_timeout :: "oref \<Rightarrow> gateway \<Rightarrow> pyexn \<times> gateway" where
  "submit_chat_timeout r g =
     (let g1 = g\<lparr>gw_futures := (gw_futures g)(r \<mapsto> FCancelled),
                 gw_scheduler := map_option (\<lambda>s. snd (any_cancel (sr_request_id (gw_store g r)) s)) (gw_scheduler g)\<rparr>;
          m = gw_metrics g1
      in (TimeoutError, g1\<lparr>gw_metrics := m\<lparr>mt_timeouts := mt_timeouts m + 1, mt_dropped := mt_dropped m + 1\<rparr>\<rparr>))"

definition submit_chat_stream ::
  "(pyval \<Rightarrow> string) \<Rightarrow> (string \<Rightarrow> int option) \<Rightarrow> string \<Rightarrow> real \<Rightarrow> clocks \<Rightarrow> pyval \<Rightarrow> gateway \<Rightarrow>
   oref pyres \<times> gateway" where
  "submit_chat_stream fmt parse rid now ck body g =
     (case submit_request (\<lambda>r. make_request fmt parse rid now (''stream_queue'', MStream r) body) ck g of
        (Inl e, g') \<Rightarrow> (Inl e, g')
      | (Inr r, g') \<Rightarrow> (Inr r, g'\<lparr>gw_streams := (gw_streams g')(r := [])\<rparr>))"

text \<open>
  One turn of the consumer's loop: \<open>None\<close> while the queue is empty (the consumer is suspended),
  otherwise what it takes.
\<close>

definition stream_get :: "oref \<Rightarrow> gateway \<Rightarrow> chunk option \<times> gateway" where
  "stream_get r g =
     (case gw_streams g r of
        [] \<Rightarrow> (None, g)
      | c # cs \<Rightarrow> (Some c, g\<lparr>gw_streams := (gw_streams g)(r := cs)\<rparr>))"

section \<open>Dispatch and forwarding\<close>

text \<open>One turn of \<^verbatim>\<open>_dispatch_loop\<close>: an acquired request gets a forwarding task of its own.\<close>

definition dispatch_pass :: "clocks \<Rightarrow> gateway \<Rightarrow> gateway" where
  "dispatch_pass ck g =
     (case gw_scheduler g of
        Some s \<Rightarrow>
          if gw_running g
          then (case any_acquire (ck\<lparr>ck_timeout := Some 1\<rparr>) (gw_store g, s) of
                  (Acquired r, st', s') \<Rightarrow>
                    g\<lparr>gw_store := st', gw_scheduler := Some s', gw_tasks := gw_tasks g @ [r]\<rparr>
                | (_, st', s') \<Rightarrow> g\<lparr>gw_store := st', gw_scheduler := Some s'\<rparr>)
          else g
      | None \<Rightarrow> g)"

text \<open>The statements before the \<^verbatim>\<open>try\<close>: the body sent on, and whether it asks for a stream.\<close>

definition forward_body :: "gateway \<Rightarrow> scheduled_request \<Rightarrow> ((string, pyval) dict \<times> bool) pyres" where
  "forward_body g req =
     bind_res
       (case dict_get (sr_metadata req) ''body'' of
          None \<Rightarrow> Inr []
        | Some (MBody (PDict d)) \<Rightarrow> Inr d
        | Some _ \<Rightarrow> Inl TypeError)
       (\<lambda>d. let body = dict_set ''model'' (case dict_get d ''model'' of Some v \<Rightarrow> v | None \<Rightarrow> gw_model g) d;
                stream = (case dict_get body ''stream'' of Some v \<Rightarrow> truthy v | None \<Rightarrow> False)
            in if gw_client g then Inr (body, stream) else Inl AssertionError)"

text \<open>What \<^verbatim>\<open>client.post\<close> gives: a status with the body as text and as JSON, or an exception.\<close>

datatype reply = Reply int string "pyval pyres" | ReplyError pyexn

fun reply_result :: "reply \<Rightarrow> pyval pyres" where
  "reply_result (Reply status txt js) =
     (if status = 200 then js else Inr (PDict [(''error'', PStr txt)]))"
| "reply_result (ReplyError e) = Inl e"

definition settle_future :: "oref \<Rightarrow> pyval \<Rightarrow> gateway \<Rightarrow> gateway" where
  "settle_future n v g =
     (if gw_futures g n = Some FPending then g\<lparr>gw_futures := (gw_futures g)(n \<mapsto> FResult v)\<rparr> else g)"

text \<open>\<^verbatim>\<open>complete\<close> with its counter, then the \<^verbatim>\<open>finally\<close> clause, and the task ends.\<close>

definition finish_task :: "bool \<Rightarrow> oref \<Rightarrow> real \<Rightarrow> gateway \<Rightarrow> gateway" where
  "finish_task ok r ms g =
     (let g1 = g\<lparr>gw_scheduler := map_option (any_complete (sr_request_id (gw_store g r)) ok) (gw_scheduler g)\<rparr>;
          m = gw_metrics g1;
          m1 = (if ok then m\<lparr>mt_success := mt_success m + 1\<rparr> else m\<lparr>mt_error := mt_error m + 1\<rparr>);
          g2 = g1\<lparr>gw_metrics := m1\<lparr>mt_e2e := mt_e2e m1 @ [ms]\<rparr>\<rparr>
      in (set_gauge g2)\<lparr>gw_tasks := remove1 r (gw_tasks g)\<rparr>)"

text \<open>The \<^verbatim>\<open>except\<close> clause: a future, if the request has one, gets the error as its result.\<close>

definition forward_failed :: "(pyexn \<Rightarrow> string) \<Rightarrow> oref \<Rightarrow> real \<Rightarrow> pyexn \<Rightarrow> gateway \<Rightarrow> gateway" where
  "forward_failed msg r ms e g =
     (let g1 = finish_task False r ms g
      in case dict_get (sr_metadata (gw_store g r)) ''future'' of
           Some (MFuture n) \<Rightarrow> settle_future n (PDict [(''error'', PStr (msg e))]) g1
         | _ \<Rightarrow> g1)"

text \<open>The rest of \<^verbatim>\<open>_forward_request\<close> once the reply of a plain request is there.\<close>

definition forward_reply :: "(pyexn \<Rightarrow> string) \<Rightarrow> oref \<Rightarrow> real \<Rightarrow> reply \<Rightarrow> gateway \<Rightarrow> gateway" where
  "forward_reply msg r ms reply g =
     (case reply_result reply of
        Inl e \<Rightarrow> forward_failed msg r ms e g
      | Inr v \<Rightarrow>
          (case dict_get (sr_metadata (gw_store g r)) ''future'' of
             Some (MFuture n) \<Rightarrow> finish_task True r ms (settle_future n v g)
           | _ \<Rightarrow> forward_failed msg r ms (KeyError ''future'') g))"

text \<open>A streamed request: one chunk, the regular end, and an exception of the client.\<close>

definition put_stream :: "oref \<Rightarrow> chunk \<Rightarrow> gateway \<Rightarrow> gateway" where
  "put_stream r c g = g\<lparr>gw_streams := (gw_streams g)(r := gw_streams g r @ [c])\<rparr>"

definition forward_chunk :: "oref \<Rightarrow> string \<Rightarrow> gateway \<Rightarrow> gateway" where
  "forward_chunk r bytes g = put_stream r (Chunk bytes) g"

definition forward_stream_end :: "oref \<Rightarrow> real \<Rightarrow> gateway \<Rightarrow> gateway" where
  "forward_stream_end r ms g = finish_task True r ms (put_stream r EndOfStream g)"

section \<open>Statistics and handlers\<close>

definition gateway_stats :: "gateway \<Rightarrow> scheduler_stats option \<times> nat" where
  "gateway_stats g =
     (map_option any_stats (gw_scheduler g),
      case gw_scheduler g of None \<Rightarrow> 0 | Some s \<Rightarrow> any_queue_depth s)"

datatype http = Http int pyval | Streaming oref

text \<open>
  \<^verbatim>\<open>chat_completions\<close> for a request that does not stream, from what \<^verbatim>\<open>submit_chat\<close> returned; an
  exception it does not turn into a response stays one.
\<close>

definition chat_response :: "pyval pyres \<Rightarrow> http pyres" where
  "chat_response outcome =
     (case outcome of
        Inl TimeoutError \<Rightarrow> Inr (Http 504 (PStr ''Request timed out''))
      | Inl e \<Rightarrow> Inl e
      | Inr result \<Rightarrow>
          bind_res (py_in ''error'' result) (\<lambda>b.
            if b then bind_res (py_index result ''error'') (\<lambda>d. Inr (Http 502 d))
            else Inr (Http 200 result)))"

definition wants_stream :: "pyval \<Rightarrow> bool pyres" where
  "wants_stream body = bind_res (py_get body ''stream'' PNone) (\<lambda>v. Inr (truthy v))"

text \<open>\<^verbatim>\<open>/ready\<close>: the backend's answer to \<^verbatim>\<open>/health\<close> is its status or an exception.\<close>

record ready_info =
  ri_status :: string
  ri_scheduler :: string
  ri_queue_depth :: nat
  ri_vllm_backend :: string

definition ready :: "int pyres \<Rightarrow> gateway \<Rightarrow> ready_info" where
  "ready backend g =
     (let backend_ok = (gw_client g \<and> (case backend of Inr status \<Rightarrow> status < 500 | Inl e \<Rightarrow> False))
      in \<lparr>ri_status = (if gw_running g \<and> gw_scheduler g \<noteq> None then ''ready'' else ''starting''),
          ri_scheduler = scheduler_type_value (gw_type g),
          ri_queue_depth = (case gw_scheduler g of None \<Rightarrow> 0 | Some s \<Rightarrow> any_queue_depth s),
          ri_vllm_backend = (if backend_ok then ''ok'' else ''unavailable'')\<rparr>)"

end
