(* ===== verification/GatewaySystem.thy ===== *)
theory GatewaySystem
  imports Gateway
begin

text \<open>
  The running gateway (\<^verbatim>\<open>python/scheduler/gateway.py\<close>) as a transition system: clients submit and
  time out, dispatcher tasks acquire, forwarding tasks receive replies, chunks and errors, stream
  consumers take chunks, in any order. The invariant rests on the scheduler contract only, so it
  holds for all three schedulers.
\<close>

section \<open>Steps\<close>

text \<open>
  A submission the system covers: \<^verbatim>\<open>uuid4\<close> gives an id no earlier request has, and the scheduler's
  contract admits the request.
\<close>

definition submission_ok :: "gateway \<Rightarrow> scheduled_request \<Rightarrow> bool" where
  "submission_ok g req \<longleftrightarrow>
     (\<forall>r < gw_next g. sr_request_id (gw_store g r) \<noteq> sr_request_id req) \<and>
     (case gw_scheduler g of
        None \<Rightarrow> True
      | Some s \<Rightarrow> any_may_submit (gw_next g) ((gw_store g)(gw_next g := req), s))"

inductive gw_step :: "gateway \<Rightarrow> gateway \<Rightarrow> bool" where
  chat: "make_request fmt parse rid now (''future'', MFuture (gw_next g)) body = Inr req \<Longrightarrow>
    submission_ok g req \<Longrightarrow> wants_stream body = Inr False \<Longrightarrow>
    submit_chat fmt parse rid now ck body g = (Inr r, g') \<Longrightarrow> gw_step g g'"
| stream: "make_request fmt parse rid now (''stream_queue'', MStream (gw_next g)) body = Inr req \<Longrightarrow>
    submission_ok g req \<Longrightarrow> wants_stream body = Inr True \<Longrightarrow>
    submit_chat_stream fmt parse rid now ck body g = (Inr r, g') \<Longrightarrow> gw_step g g'"
| expire: "gw_futures g r = Some FPending \<Longrightarrow> gw_step g (snd (submit_chat_timeout r g))"
| dispatch: "gw_step g (dispatch_pass ck g)"
| reply: "r \<in> set (gw_tasks g) \<Longrightarrow> forward_body g (gw_store g r) = Inr (b, False) \<Longrightarrow>
    gw_step g (forward_reply msg r ms rep g)"
| chunk: "r \<in> set (gw_tasks g) \<Longrightarrow> forward_body g (gw_store g r) = Inr (b, True) \<Longrightarrow>
    gw_step g (forward_chunk r bytes g)"
| stream_end: "r \<in> set (gw_tasks g) \<Longrightarrow> forward_body g (gw_store g r) = Inr (b, True) \<Longrightarrow>
    gw_step g (forward_stream_end r ms g)"
| stream_fail: "r \<in> set (gw_tasks g) \<Longrightarrow> forward_body g (gw_store g r) = Inr (b, True) \<Longrightarrow>
    gw_step g (forward_failed msg r ms e g)"
| consume: "gw_step g (snd (stream_get r g))"

inductive gw_reach :: "gateway \<Rightarrow> gateway \<Rightarrow> bool" for g0 where
  start: "gw_reach g0 g0"
| step: "gw_reach g0 g \<Longrightarrow> gw_step g g' \<Longrightarrow> gw_reach g0 g'"

section \<open>The invariant\<close>

definition gw_waiting :: "gateway \<Rightarrow> oref multiset" where
  "gw_waiting g = (case gw_scheduler g of None \<Rightarrow> {#} | Some s \<Rightarrow> any_waiting (gw_store g, s))"

definition gw_open :: "gateway \<Rightarrow> oref multiset" where
  "gw_open g = mset (gw_tasks g) + gw_waiting g"

text \<open>The requests the scheduler's queues refer to, cancelled entries included.\<close>

fun any_refs :: "any_scheduler \<Rightarrow> oref set" where
  "any_refs (AnyFcfs s) = set (fcfs_queue s)"
| "any_refs (AnySjf s) = pi_payload ` set (pq_heap (sjf_queue s))"
| "any_refs (AnyOracle s) = pi_payload ` set (pq_heap (or_queue s))"

text \<open>The counters agree with each other and account for the open requests.\<close>

definition counts_ok :: "gateway \<Rightarrow> bool" where
  "counts_ok g \<longleftrightarrow>
     (\<exists>s. gw_scheduler g = Some s \<and> any_inv (gw_store g, s) \<and> any_refs s \<subseteq> {..<gw_next g} \<and>
        any_scheduled (gw_store g, s) = gw_next g \<and>
        any_finished True (gw_store g, s) = mt_success (gw_metrics g) \<and>
        any_finished False (gw_store g, s) = mt_error (gw_metrics g)) \<and>
     gw_open g \<subseteq># mset [0..<gw_next g] \<and>
     mt_success (gw_metrics g) + mt_error (gw_metrics g) + size (gw_open g) \<le> gw_next g \<and>
     (mt_timeouts (gw_metrics g) = 0 \<longrightarrow>
       mt_success (gw_metrics g) + mt_error (gw_metrics g) + size (gw_open g) = gw_next g)"

text \<open>Each request has its own id and owns its future or its stream.\<close>

definition objects_ok :: "gateway \<Rightarrow> bool" where
  "objects_ok g \<longleftrightarrow>
     inj_on (\<lambda>r. sr_request_id (gw_store g r)) {..<gw_next g} \<and>
     (\<forall>r. gw_futures g r \<noteq> None \<longrightarrow> r < gw_next g) \<and>
     (\<forall>r < gw_next g. dict_get (sr_metadata (gw_store g r)) ''future'' =
        (if gw_futures g r \<noteq> None then Some (MFuture r) else None)) \<and>
     (\<forall>r < gw_next g. \<exists>body. dict_get (sr_metadata (gw_store g r)) ''body'' = Some (MBody body) \<and>
        wants_stream body = Inr (gw_futures g r = None)) \<and>
     (\<forall>r. gw_futures g r = Some FPending \<longrightarrow> r \<in># gw_open g)"

section \<open>What the operations do to the store\<close>

lemma sjf_submit_store:
  assumes "sjf_submit ck r (st, s) = (st', s')"
  shows "(\<forall>r'. r' \<noteq> r \<longrightarrow> st' r' = st r') \<and> sr_request_id (st' r) = sr_request_id (st r) \<and>
    (k \<noteq> ''schedule_ms'' \<longrightarrow> dict_get (sr_metadata (st' r)) k = dict_get (sr_metadata (st r)) k)"
  using assms by (auto simp: sjf_submit_def Let_def dict_simps split: prod.splits)

lemma any_submit_store:
  assumes "any_submit ck r (st, s) = (st', s')"
  shows "\<forall>r'. r' \<noteq> r \<longrightarrow> st' r' = st r'" and "sr_request_id (st' r') = sr_request_id (st r')"
    and "k \<noteq> ''schedule_ms'' \<Longrightarrow> dict_get (sr_metadata (st' r')) k = dict_get (sr_metadata (st r')) k"
proof -
  have "(\<forall>r'. r' \<noteq> r \<longrightarrow> st' r' = st r') \<and> sr_request_id (st' r) = sr_request_id (st r) \<and>
      (k \<noteq> ''schedule_ms'' \<longrightarrow> dict_get (sr_metadata (st' r)) k = dict_get (sr_metadata (st r)) k)"
    using assms sjf_submit_store [of ck r st _ st' _ k]
    by (cases s) (auto simp: oracle_submit_def Let_def split: prod.splits)
  then show "\<forall>r'. r' \<noteq> r \<longrightarrow> st' r' = st r'" "sr_request_id (st' r') = sr_request_id (st r')"
    "k \<noteq> ''schedule_ms'' \<Longrightarrow> dict_get (sr_metadata (st' r')) k = dict_get (sr_metadata (st r')) k"
    by (metis, metis, metis)
qed

lemma any_acquire_store: "any_acquire ck (st, s) = (a, st', s') \<Longrightarrow> st' = st"
  by (cases s) (auto simp: sjf_acquire_def oracle_acquire_def split: prod.splits bool.splits option.splits)

text \<open>A cancellation removes no request with another id.\<close>

lemma queued_cancel_other:
  assumes "queue_world st q" and "r \<in># queued q" and "sr_request_id (st r) \<noteq> k"
  shows "r \<in># queued (snd (pq_cancel k q))"
proof -
  have ok: "pq_ok q" using assms(1) by (simp add: queue_world_def)
  obtain it where it: "it \<in># pq_live q" "pi_payload it = r" using assms(2) by (auto simp: queued_def)
  then have "pi_request_id it \<noteq> k" using assms(1,3) by (auto simp: queue_world_def pq_live_def)
  with it show ?thesis unfolding queued_def pq_live_cancel(1) [OF ok] by auto
qed

lemma any_cancel_other:
  assumes "any_inv (st, s)" and "r \<in># any_waiting (st, s)" and "sr_request_id (st r) \<noteq> k"
  shows "r \<in># any_waiting (st, snd (any_cancel k s))"
proof (cases s)
  case (AnySjf x)
  with assms queued_cancel_other [of st "sjf_queue x" r k] show ?thesis
    by (auto simp: sjf_waiting_def sjf_inv_def falls_back_def sjf_cancel_def Let_def
        split: bool.splits option.splits prod.splits)
next
  case (AnyOracle x)
  with assms queued_cancel_other [of st "or_queue x" r k] show ?thesis
    by (auto simp: oracle_inv_def oracle_cancel_def split: prod.splits)
qed (use assms in auto)

lemma heap_cancel [simp]: "pq_heap (snd (pq_cancel k q)) = pq_heap q"
  by (simp add: pq_cancel_def)

lemma any_refs_ops:
  "any_submit ck r (st, s) = (st', s') \<Longrightarrow> any_refs s' \<subseteq> insert r (any_refs s)"
  "any_acquire ck (st, s) = (a, st', s') \<Longrightarrow> any_refs s' \<subseteq> any_refs s"
  "any_refs (any_complete k b s) = any_refs s"
  "any_refs (snd (any_cancel k s)) = any_refs s"
proof -
  show "any_refs (any_complete k b s) = any_refs s"
    by (cases s) (simp_all add: sjf_complete_def oracle_complete_def)
  show "any_refs (snd (any_cancel k s)) = any_refs s"
    by (cases s) (simp_all add: sjf_cancel_def oracle_cancel_def Let_def case_prod_beta)
  show "any_acquire ck (st, s) = (a, st', s') \<Longrightarrow> any_refs s' \<subseteq> any_refs s"
    by (cases s) (auto simp: sjf_acquire_def oracle_acquire_def fcfs_acquire_def dest!: queue_acquire_subset
        intro!: imageI split: prod.splits bool.splits option.splits list.splits)
  show "any_submit ck r (st, s) = (st', s') \<Longrightarrow> any_refs s' \<subseteq> insert r (any_refs s)"
  proof (cases s)
    case (AnySjf x)
    obtain toks x1 where p: "sjf_predict ck (st r) x = (toks, x1)" by force
    assume "any_submit ck r (st, s) = (st', s')"
    with AnySjf sjf_submit_eq [of ck st r x toks x1, OF p] sjf_predict_cases(1) [OF p] show ?thesis
      by (auto simp: Let_def set_heap_enqueue split: if_splits)
  qed (auto simp: oracle_submit_def Let_def set_heap_enqueue)
qed

text \<open>A request object no queue refers to may be created.\<close>

lemma any_inv_new:
  assumes "any_inv (st, s)" and "n \<notin> any_refs s"
  shows "any_inv (st(n := req), s)"
proof -
  have q: "queue_world (st(n := req)) q" if "queue_world st q" "n \<notin> pi_payload ` set (pq_heap q)" for q
    using that by (auto simp: queue_world_def)
  show ?thesis using assms q by (cases s) (auto simp: sjf_inv_def oracle_inv_def)
qed

text \<open>The abstract state and the counters do not read the store.\<close>

lemma any_store_indep:
  "any_waiting (st, s) = any_waiting (st', s)" "any_scheduled (st, s) = any_scheduled (st', s)"
  "any_finished b (st, s) = any_finished b (st', s)"
proof -
  show "any_waiting (st, s) = any_waiting (st', s)" by (cases s) (simp_all add: sjf_waiting_def split: bool.split option.split)
  show "any_scheduled (st, s) = any_scheduled (st', s)" by (cases s) simp_all
  show "any_finished b (st, s) = any_finished b (st', s)" by (cases s) simp_all
qed

section \<open>Counting\<close>

lemma open_frame [simp]:
  "gw_open (g\<lparr>gw_futures := f\<rparr>) = gw_open g" "gw_open (g\<lparr>gw_streams := ss\<rparr>) = gw_open g"
  "gw_open (g\<lparr>gw_metrics := m\<rparr>) = gw_open g" "gw_open (set_gauge g) = gw_open g"
  by (simp_all add: gw_open_def gw_waiting_def set_gauge_def split: option.split)

lemma set_gauge_frame [simp]:
  "gw_scheduler (set_gauge g) = gw_scheduler g" "gw_store (set_gauge g) = gw_store g"
  "gw_next (set_gauge g) = gw_next g" "gw_futures (set_gauge g) = gw_futures g"
  "gw_streams (set_gauge g) = gw_streams g" "gw_tasks (set_gauge g) = gw_tasks g"
  "mt_success (gw_metrics (set_gauge g)) = mt_success (gw_metrics g)"
  "mt_error (gw_metrics (set_gauge g)) = mt_error (gw_metrics g)"
  "mt_timeouts (gw_metrics (set_gauge g)) = mt_timeouts (gw_metrics g)"
  by (simp_all add: set_gauge_def split: option.split)

lemma counts_frame [simp]:
  "counts_ok (g\<lparr>gw_futures := f\<rparr>) = counts_ok g" "counts_ok (g\<lparr>gw_streams := ss\<rparr>) = counts_ok g"
  "counts_ok (set_gauge g) = counts_ok g"
  "counts_ok (g\<lparr>gw_metrics := (gw_metrics g)\<lparr>mt_predicted := ps\<rparr>\<rparr>) = counts_ok g"
  by (simp_all add: counts_ok_def)

lemma submit_request_counts:
  assumes c: "counts_ok g" and mk: "mk (gw_next g) = Inr req" and ok: "submission_ok g req"
    and e: "submit_request mk ck g = (res, g')"
  shows "res = Inr (gw_next g)" "counts_ok g'" "gw_open g' = add_mset (gw_next g) (gw_open g)"
    "gw_next g' = Suc (gw_next g)" "gw_futures g' = gw_futures g" "gw_streams g' = gw_streams g"
    "\<forall>r. r \<noteq> gw_next g \<longrightarrow> gw_store g' r = gw_store g r"
    "sr_request_id (gw_store g' (gw_next g)) = sr_request_id req"
    "k \<noteq> ''schedule_ms'' \<Longrightarrow> dict_get (sr_metadata (gw_store g' (gw_next g))) k = dict_get (sr_metadata req) k"
    "gw_tasks g' = gw_tasks g"
proof -
  let ?n = "gw_next g" and ?st = "(gw_store g)(gw_next g := req)"
  obtain s where s: "gw_scheduler g = Some s" "any_inv (gw_store g, s)"
    and refs: "any_refs s \<subseteq> {..<?n}" and n: "any_scheduled (gw_store g, s) = ?n"
    "any_finished True (gw_store g, s) = mt_success (gw_metrics g)"
    "any_finished False (gw_store g, s) = mt_error (gw_metrics g)"
    using c by (auto simp: counts_ok_def)
  obtain st' s' where sub: "any_submit ck ?n (?st, s) = (st', s')" by force
  have g': "res = Inr ?n" "g' = g\<lparr>gw_store := st', gw_scheduler := Some s', gw_next := Suc ?n\<rparr>"
    using e mk s(1) sub by (auto simp: submit_request_def Let_def)
  have inv: "any_inv (?st, s)" using any_inv_new [OF s(2)] refs by auto
  note same = any_store_indep [where st = ?st and s = s and st' = "gw_store g"]
  have may: "any_may_submit ?n (?st, s)" using ok s(1) by (simp add: submission_ok_def)
  have "(st', s') = if_submit any_iface ck ?n (?st, s)" using sub by (simp add: any_iface_def)
  note r = any_contract.submit_ok [OF inv may this, unfolded same]
  have op: "gw_open g' = add_mset ?n (gw_open g)"
    using r g' s(1) by (simp add: gw_open_def gw_waiting_def)
  then show "gw_open g' = add_mset ?n (gw_open g)" .
  have "any_refs s' \<subseteq> {..<Suc ?n}" using any_refs_ops(1) [OF sub] refs by auto
  with c r n op show "counts_ok g'" by (auto simp: counts_ok_def g')
  show "res = Inr ?n" "gw_next g' = Suc ?n" "gw_futures g' = gw_futures g" "gw_streams g' = gw_streams g"
    "gw_tasks g' = gw_tasks g" using g' by simp_all
  show "\<forall>r. r \<noteq> ?n \<longrightarrow> gw_store g' r = gw_store g r" "sr_request_id (gw_store g' ?n) = sr_request_id req"
    "k \<noteq> ''schedule_ms'' \<Longrightarrow> dict_get (sr_metadata (gw_store g' ?n)) k = dict_get (sr_metadata req) k"
    using any_submit_store [OF sub] g' by auto
qed

lemma finish_task_counts:
  assumes c: "counts_ok g" and r: "r \<in> set (gw_tasks g)"
  shows "counts_ok (finish_task b r ms g)" "gw_open (finish_task b r ms g) = gw_open g - {#r#}"
    "gw_next (finish_task b r ms g) = gw_next g" "gw_store (finish_task b r ms g) = gw_store g"
    "gw_futures (finish_task b r ms g) = gw_futures g" "gw_streams (finish_task b r ms g) = gw_streams g"
    "gw_tasks (finish_task b r ms g) = remove1 r (gw_tasks g)"
proof -
  let ?g = "finish_task b r ms g" and ?k = "sr_request_id (gw_store g r)"
  obtain s where s: "gw_scheduler g = Some s" "any_inv (gw_store g, s)" "any_refs s \<subseteq> {..<gw_next g}"
    "any_scheduled (gw_store g, s) = gw_next g" "any_finished True (gw_store g, s) = mt_success (gw_metrics g)"
    "any_finished False (gw_store g, s) = mt_error (gw_metrics g)"
    using c by (auto simp: counts_ok_def)
  show fr: "gw_next ?g = gw_next g" "gw_store ?g = gw_store g" "gw_futures ?g = gw_futures g"
    "gw_streams ?g = gw_streams g" "gw_tasks ?g = remove1 r (gw_tasks g)"
    by (simp_all add: finish_task_def Let_def)
  have sc: "gw_scheduler ?g = Some (any_complete ?k b s)" using s(1) by (simp add: finish_task_def Let_def)
  have "(gw_store g, any_complete ?k b s) = if_complete any_iface ?k b (gw_store g, s)"
    by (simp add: any_iface_def)
  note a = any_contract.complete_ok [OF s(2) this]
  have w: "gw_waiting ?g = gw_waiting g" using a s(1) sc fr by (simp add: gw_waiting_def)
  show op: "gw_open ?g = gw_open g - {#r#}" using r w fr by (simp add: gw_open_def)
  have "r \<in># gw_open g" using r by (simp add: gw_open_def)
  then have sz: "size (gw_open g) = Suc (size (gw_open ?g))" by (simp add: op size_Suc_Diff1)
  have m: "mt_success (gw_metrics ?g) = mt_success (gw_metrics g) + (if b then 1 else 0)"
    "mt_error (gw_metrics ?g) = mt_error (gw_metrics g) + (if b then 0 else 1)"
    "mt_timeouts (gw_metrics ?g) = mt_timeouts (gw_metrics g)"
    by (simp_all add: finish_task_def Let_def)
  have sub: "gw_open ?g \<subseteq># mset [0..<gw_next g]"
    using c unfolding op counts_ok_def by (meson diff_subset_eq_self subset_mset.order_trans)
  have "any_finished c (gw_store g, any_complete ?k b s) =
      any_finished c (gw_store g, s) + (if c = b then 1 else 0)" for c using a by simp
  from this [of True] this [of False] a s c m sub sz fr sc show "counts_ok ?g"
    by (auto simp: counts_ok_def any_refs_ops(3))
qed

lemma dispatch_counts:
  assumes c: "counts_ok g"
  shows "counts_ok (dispatch_pass ck g)" "gw_open (dispatch_pass ck g) = gw_open g"
    "gw_next (dispatch_pass ck g) = gw_next g" "gw_store (dispatch_pass ck g) = gw_store g"
    "gw_futures (dispatch_pass ck g) = gw_futures g" "gw_streams (dispatch_pass ck g) = gw_streams g"
proof -
  let ?g = "dispatch_pass ck g" and ?ck = "ck\<lparr>ck_timeout := Some 1\<rparr>"
  obtain s where s: "gw_scheduler g = Some s" "any_inv (gw_store g, s)" "any_refs s \<subseteq> {..<gw_next g}"
    using c by (auto simp: counts_ok_def)
  obtain a st' s' where acq: "any_acquire ?ck (gw_store g, s) = (a, st', s')" by (metis prod.collapse)
  have st: "st' = gw_store g" by (rule any_acquire_store [OF acq])
  have "if_acquire any_iface ?ck (gw_store g, s) = (a, (gw_store g, s'))"
    using acq st by (simp add: any_iface_def)
  note k = any_contract.acquire_ok [OF s(2) this]
  have g: "?g = (if gw_running g
      then g\<lparr>gw_scheduler := Some s', gw_tasks := gw_tasks g @ (case a of Acquired r \<Rightarrow> [r] | _ \<Rightarrow> [])\<rparr> else g)"
    using s(1) acq st by (cases a) (simp_all add: dispatch_pass_def)
  show fr: "gw_next ?g = gw_next g" "gw_store ?g = gw_store g" "gw_futures ?g = gw_futures g"
    "gw_streams ?g = gw_streams g" by (simp_all add: g)
  show op: "gw_open ?g = gw_open g"
    using k s(1) by (cases a) (auto simp: g gw_open_def gw_waiting_def)
  have "any_refs s' \<subseteq> {..<gw_next g}" using any_refs_ops(2) [OF acq] s(3) by blast
  then show "counts_ok ?g" using c k s op by (auto simp: counts_ok_def g split: if_splits)
qed

lemma timeout_counts:
  assumes c: "counts_ok g"
  shows "counts_ok (snd (submit_chat_timeout r g))"
    "gw_open (snd (submit_chat_timeout r g)) \<subseteq># gw_open g"
    "r' \<in># gw_open g \<Longrightarrow> sr_request_id (gw_store g r') \<noteq> sr_request_id (gw_store g r) \<Longrightarrow>
       r' \<in># gw_open (snd (submit_chat_timeout r g))"
    "gw_next (snd (submit_chat_timeout r g)) = gw_next g" "gw_store (snd (submit_chat_timeout r g)) = gw_store g"
    "gw_futures (snd (submit_chat_timeout r g)) = (gw_futures g)(r \<mapsto> FCancelled)"
    "gw_streams (snd (submit_chat_timeout r g)) = gw_streams g"
proof -
  let ?g = "snd (submit_chat_timeout r g)" and ?k = "sr_request_id (gw_store g r)"
  obtain s where s: "gw_scheduler g = Some s" "any_inv (gw_store g, s)" "any_refs s \<subseteq> {..<gw_next g}"
    using c by (auto simp: counts_ok_def)
  show fr: "gw_next ?g = gw_next g" "gw_store ?g = gw_store g" "gw_streams ?g = gw_streams g"
    "gw_futures ?g = (gw_futures g)(r \<mapsto> FCancelled)"
    by (simp_all add: submit_chat_timeout_def Let_def)
  have "(gw_store g, snd (any_cancel ?k s)) = snd (if_cancel any_iface ?k (gw_store g, s))"
    by (simp add: any_iface_def case_prod_beta)
  note a = any_contract.cancel_ok [OF s(2) this]
  have o2: "gw_open ?g = mset (gw_tasks g) + any_waiting (gw_store g, snd (any_cancel ?k s))"
    using s(1) by (simp add: submit_chat_timeout_def Let_def gw_open_def gw_waiting_def)
  show op: "gw_open ?g \<subseteq># gw_open g" using a s(1) unfolding o2 by (simp add: gw_open_def gw_waiting_def)
  have "size (gw_open ?g) \<le> size (gw_open g)" by (rule size_mset_mono [OF op])
  moreover have "gw_open ?g \<subseteq># mset [0..<gw_next g]" using c op by (simp add: counts_ok_def subset_mset.order_trans)
  ultimately show "counts_ok ?g"
    using c a s by (auto simp: counts_ok_def submit_chat_timeout_def Let_def any_refs_ops(4))
  show "r' \<in># gw_open ?g" if "r' \<in># gw_open g" "sr_request_id (gw_store g r') \<noteq> ?k"
    using that any_cancel_other [OF s(2)] s(1) unfolding o2 by (auto simp: gw_open_def gw_waiting_def)
qed

section \<open>Objects\<close>

definition gw_inv :: "gateway \<Rightarrow> bool" where
  "gw_inv g \<longleftrightarrow> counts_ok g \<and> objects_ok g"

lemma objects_submit:
  assumes o: "objects_ok g" and c: "counts_ok g" and mk: "mk (gw_next g) = Inr req"
    and ok: "submission_ok g req" and e: "submit_request mk ck g = (res, g')"
    and f: "dict_get (sr_metadata req) ''future'' = (if b then Some (MFuture (gw_next g)) else None)"
    and body: "dict_get (sr_metadata req) ''body'' = Some (MBody body)" "wants_stream body = Inr (\<not> b)"
    and g'': "gw_futures g'' = (if b then (gw_futures g')(gw_next g \<mapsto> FPending) else gw_futures g')"
    "gw_open g'' = gw_open g'" "gw_next g'' = gw_next g'" "gw_store g'' = gw_store g'"
  shows "objects_ok g''"
proof -
  note s = submit_request_counts [OF c mk ok e]
  let ?id = "\<lambda>st r. sr_request_id (st r)"
  have old: "?id (gw_store g') r = ?id (gw_store g) r \<and> ?id (gw_store g) r \<noteq> ?id (gw_store g') (gw_next g)"
    if "r < gw_next g" for r
    using ok s(7,8) that by (auto simp: submission_ok_def)
  have inj: "?id (gw_store g) x = ?id (gw_store g) y \<Longrightarrow> x < gw_next g \<Longrightarrow> y < gw_next g \<Longrightarrow> x = y" for x y
    using o by (auto simp: objects_ok_def inj_on_def)
  have "inj_on (?id (gw_store g')) {..<Suc (gw_next g)}"
    by (rule inj_onI) (metis inj lessThan_iff less_Suc_eq old)
  moreover have "dict_get (sr_metadata (gw_store g' r)) ''future'' =
      (if gw_futures g'' r \<noteq> None then Some (MFuture r) else None)" if "r < Suc (gw_next g)" for r
  proof (cases "r = gw_next g")
    case True
    have "gw_futures g (gw_next g) = None" using o by (force simp: objects_ok_def)
    with True s(5) s(9) [of "''future''"] f g''(1) show ?thesis by simp
  next
    case False
    with that o s(5,7) g''(1) show ?thesis by (simp add: objects_ok_def)
  qed
  moreover have "\<exists>body. dict_get (sr_metadata (gw_store g' r)) ''body'' = Some (MBody body) \<and>
      wants_stream body = Inr (gw_futures g'' r = None)" if "r < Suc (gw_next g)" for r
  proof (cases "r = gw_next g")
    case True
    have "gw_futures g (gw_next g) = None" using o by (force simp: objects_ok_def)
    with True s(5) s(9) [of "''body''"] body g''(1) show ?thesis by simp
  next
    case False
    with that o s(5,7) g''(1) show ?thesis by (simp add: objects_ok_def)
  qed
  moreover have "gw_futures g'' r = Some FPending \<longrightarrow> r \<in># gw_open g''" "gw_futures g'' r \<noteq> None \<longrightarrow> r < Suc (gw_next g)" for r
    using o s(3,5) g''(1,2) by (auto simp: objects_ok_def less_Suc_eq)
  ultimately show ?thesis using s(4) g''(3,4) unfolding objects_ok_def by simp
qed

text \<open>Dropping or finishing request \<open>r\<close> once its future is settled.\<close>

lemma objects_settle:
  assumes "objects_ok g" and "gw_store g' = gw_store g" and "gw_next g' = gw_next g"
    and "\<forall>r'. (gw_futures g' r' = None) = (gw_futures g r' = None)"
    and "\<forall>r'. gw_futures g' r' = Some FPending \<longrightarrow> gw_futures g r' = Some FPending \<and>
      (r' \<in># gw_open g \<longrightarrow> r' \<in># gw_open g')"
  shows "objects_ok g'"
  using assms unfolding objects_ok_def by auto

text \<open>What the client of a plain request is told.\<close>

definition reply_value :: "(pyexn \<Rightarrow> string) \<Rightarrow> reply \<Rightarrow> pyval" where
  "reply_value msg rep =
     (case reply_result rep of Inr v \<Rightarrow> v | Inl e \<Rightarrow> PDict [(''error'', PStr (msg e))])"

lemma settle_frame [simp]:
  "counts_ok (settle_future n v g) = counts_ok g" "gw_open (settle_future n v g) = gw_open g"
  "gw_next (settle_future n v g) = gw_next g" "gw_store (settle_future n v g) = gw_store g"
  "gw_streams (settle_future n v g) = gw_streams g" "gw_tasks (settle_future n v g) = gw_tasks g"
  by (simp_all add: settle_future_def)

lemma settle_futures:
  "gw_futures (settle_future n v g) =
     (if gw_futures g n = Some FPending then (gw_futures g)(n \<mapsto> FResult v) else gw_futures g)"
  by (simp add: settle_future_def)

lemma task_known:
  assumes "gw_inv g" and "r \<in> set (gw_tasks g)"
  shows "r < gw_next g" and "r \<in># gw_open g" and "count (gw_open g) r = 1"
proof -
  have op: "gw_open g \<subseteq># mset [0..<gw_next g]" using assms(1) by (simp add: gw_inv_def counts_ok_def)
  show r: "r \<in># gw_open g" using assms(2) by (simp add: gw_open_def)
  with op show "r < gw_next g" by (auto dest: mset_subset_eqD)
  have "count (mset [0..<gw_next g]) r \<le> 1"
    using distinct_count_atmost_1 [of "[0..<gw_next g]"] by (metis count_mset_0_iff distinct_upt le_refl zero_le)
  with op have "count (gw_open g) r \<le> 1" by (metis le_trans mset_subset_eq_count)
  moreover have "0 < count (gw_open g) r" using r by simp
  ultimately show "count (gw_open g) r = 1" by linarith
qed

lemma forward_failed_effect:
  assumes "gw_inv g" and "r \<in> set (gw_tasks g)" and "g' = forward_failed msg r ms e g"
  shows "counts_ok g'" "gw_open g' = gw_open g - {#r#}" "gw_next g' = gw_next g" "gw_store g' = gw_store g"
    "gw_streams g' = gw_streams g" "gw_tasks g' = remove1 r (gw_tasks g)"
    "gw_futures g' = (if gw_futures g r = Some FPending
       then (gw_futures g)(r \<mapsto> FResult (PDict [(''error'', PStr (msg e))])) else gw_futures g)"
proof -
  have c: "counts_ok g" using assms(1) by (simp add: gw_inv_def)
  note f = finish_task_counts [OF c assms(2), of False ms]
  have m: "dict_get (sr_metadata (gw_store g r)) ''future'' =
      (if gw_futures g r \<noteq> None then Some (MFuture r) else None)"
    using assms(1) task_known(1) [OF assms(1,2)] by (simp add: gw_inv_def objects_ok_def)
  show "counts_ok g'" "gw_open g' = gw_open g - {#r#}" "gw_next g' = gw_next g" "gw_store g' = gw_store g"
    "gw_streams g' = gw_streams g" "gw_tasks g' = remove1 r (gw_tasks g)"
    "gw_futures g' = (if gw_futures g r = Some FPending
       then (gw_futures g)(r \<mapsto> FResult (PDict [(''error'', PStr (msg e))])) else gw_futures g)"
    using f m by (simp_all add: assms(3) forward_failed_def Let_def settle_futures)
qed

lemma forward_reply_effect:
  assumes "gw_inv g" and "r \<in> set (gw_tasks g)" and "g' = forward_reply msg r ms rep g"
  shows "counts_ok g'" "gw_open g' = gw_open g - {#r#}" "gw_next g' = gw_next g" "gw_store g' = gw_store g"
    "gw_streams g' = gw_streams g" "gw_tasks g' = remove1 r (gw_tasks g)"
    "gw_futures g' = (if gw_futures g r = Some FPending
       then (gw_futures g)(r \<mapsto> FResult (reply_value msg rep)) else gw_futures g)"
proof -
  have c: "counts_ok g" using assms(1) by (simp add: gw_inv_def)
  have m: "dict_get (sr_metadata (gw_store g r)) ''future'' =
      (if gw_futures g r \<noteq> None then Some (MFuture r) else None)"
    using assms(1) task_known(1) [OF assms(1,2)] by (simp add: gw_inv_def objects_ok_def)
  note f = forward_failed_effect [OF assms(1,2) refl, of msg ms]
  have t: "r \<in> set (gw_tasks (settle_future r v g))" "counts_ok (settle_future r v g)" for v
    using c assms(2) by simp_all
  note s = finish_task_counts [OF t(2,1), of True ms]
  show "counts_ok g'" "gw_open g' = gw_open g - {#r#}" "gw_next g' = gw_next g" "gw_store g' = gw_store g"
    "gw_streams g' = gw_streams g" "gw_tasks g' = remove1 r (gw_tasks g)"
    "gw_futures g' = (if gw_futures g r = Some FPending
       then (gw_futures g)(r \<mapsto> FResult (reply_value msg rep)) else gw_futures g)"
    using f s m
    by (auto simp: assms(3) forward_reply_def reply_value_def settle_futures split: sum.split)
qed

section \<open>Every step keeps the invariant\<close>

lemma make_request_metadata:
  "make_request fmt parse rid now extra body = Inr req \<Longrightarrow> sr_metadata req = [(''body'', MBody body), extra]"
  by (auto simp: make_request_def bind_res_Inr_iff)

lemma chat_inv:
  assumes "gw_inv g" and mk: "make_request fmt parse rid now (''future'', MFuture (gw_next g)) body = Inr req"
    and ok: "submission_ok g req" and ws: "wants_stream body = Inr False"
    and e: "submit_chat fmt parse rid now ck body g = (Inr r, g')"
  shows "gw_inv g'" "r = gw_next g" "gw_next g' = Suc (gw_next g)"
    "gw_futures g' = (gw_futures g)(gw_next g \<mapsto> FPending)" "gw_streams g' = gw_streams g"
    "gw_open g' = add_mset (gw_next g) (gw_open g)" "gw_tasks g' = gw_tasks g"
proof -
  let ?mk = "\<lambda>r. make_request fmt parse rid now (''future'', MFuture r) body"
  have c: "counts_ok g" and o: "objects_ok g" using assms(1) by (simp_all add: gw_inv_def)
  obtain res h where h: "submit_request ?mk ck g = (res, h)" by force
  note s = submit_request_counts [where mk = ?mk, OF c mk ok h]
  have f: "dict_get (sr_metadata req) ''future'' = (if True then Some (MFuture (gw_next g)) else None)"
    and b: "dict_get (sr_metadata req) ''body'' = Some (MBody body)" "wants_stream body = Inr (\<not> True)"
    using make_request_metadata [OF mk] ws by simp_all
  have g': "r = gw_next g" "gw_futures g' = (gw_futures h)(gw_next g \<mapsto> FPending)" "gw_open g' = gw_open h"
    "gw_next g' = gw_next h" "gw_store g' = gw_store h" "gw_streams g' = gw_streams h"
    "gw_tasks g' = gw_tasks h" "counts_ok g' = counts_ok h"
    using e s(1) h by (auto simp: submit_chat_def Let_def split: if_splits)
  have "objects_ok g'"
    using objects_submit [where mk = ?mk and b = True, OF o c mk ok h f b, of g'] g' by simp
  with g' s show "gw_inv g'" "r = gw_next g" "gw_next g' = Suc (gw_next g)"
    "gw_futures g' = (gw_futures g)(gw_next g \<mapsto> FPending)" "gw_streams g' = gw_streams g"
    "gw_open g' = add_mset (gw_next g) (gw_open g)" "gw_tasks g' = gw_tasks g"
    by (simp_all add: gw_inv_def)
qed

lemma stream_inv:
  assumes "gw_inv g" and mk: "make_request fmt parse rid now (''stream_queue'', MStream (gw_next g)) body = Inr req"
    and ok: "submission_ok g req" and ws: "wants_stream body = Inr True"
    and e: "submit_chat_stream fmt parse rid now ck body g = (Inr r, g')"
  shows "gw_inv g'" "r = gw_next g" "gw_next g' = Suc (gw_next g)" "gw_futures g' = gw_futures g"
    "gw_streams g' = (gw_streams g)(gw_next g := [])"
    "gw_open g' = add_mset (gw_next g) (gw_open g)" "gw_tasks g' = gw_tasks g"
proof -
  let ?mk = "\<lambda>r. make_request fmt parse rid now (''stream_queue'', MStream r) body"
  have c: "counts_ok g" and o: "objects_ok g" using assms(1) by (simp_all add: gw_inv_def)
  obtain res h where h: "submit_request ?mk ck g = (res, h)" by force
  note s = submit_request_counts [where mk = ?mk, OF c mk ok h]
  have f: "dict_get (sr_metadata req) ''future'' = (if False then Some (MFuture (gw_next g)) else None)"
    and b: "dict_get (sr_metadata req) ''body'' = Some (MBody body)" "wants_stream body = Inr (\<not> False)"
    using make_request_metadata [OF mk] ws by simp_all
  have g': "r = gw_next g" "g' = h\<lparr>gw_streams := (gw_streams h)(gw_next g := [])\<rparr>"
    using e s(1) h by (auto simp: submit_chat_stream_def)
  have "objects_ok g'"
    using objects_submit [where mk = ?mk and b = False, OF o c mk ok h f b, of g'] g' by simp
  with g' s show "gw_inv g'" "r = gw_next g" "gw_next g' = Suc (gw_next g)" "gw_futures g' = gw_futures g"
    "gw_streams g' = (gw_streams g)(gw_next g := [])"
    "gw_open g' = add_mset (gw_next g) (gw_open g)" "gw_tasks g' = gw_tasks g"
    by (simp_all add: gw_inv_def)
qed

lemma finished_open: "r' \<noteq> r \<Longrightarrow> r' \<in># M \<Longrightarrow> r' \<in># M - {#r#}"
  by (simp add: in_diff_count)

lemma objects_finish:
  assumes "objects_ok g" and "gw_store g' = gw_store g" and "gw_next g' = gw_next g"
    and "gw_futures g' = (if gw_futures g r = Some FPending then (gw_futures g)(r \<mapsto> FResult v) else gw_futures g)"
    and "gw_open g' = gw_open g - {#r#}"
  shows "objects_ok g'"
  using assms(4,5) finished_open [of _ r "gw_open g"]
  by (intro objects_settle [OF assms(1-3)]) (auto split: if_splits, metis)

lemma timeout_inv:
  assumes "gw_inv g" and "gw_futures g r = Some FPending"
  shows "gw_inv (snd (submit_chat_timeout r g))"
proof -
  have c: "counts_ok g" and o: "objects_ok g" using assms(1) by (simp_all add: gw_inv_def)
  note t = timeout_counts [OF c, where r = r]
  have "sr_request_id (gw_store g r') \<noteq> sr_request_id (gw_store g r)"
    if "r' \<noteq> r" "gw_futures g r' \<noteq> None" for r'
    using o that assms(2) by (auto simp: objects_ok_def inj_on_def)
  then have "objects_ok (snd (submit_chat_timeout r g))"
    using t(3-6) assms(2) by (intro objects_settle [OF o]) auto
  with t(1) show ?thesis by (simp add: gw_inv_def)
qed

lemma stream_end_effect:
  assumes "gw_inv g" and "r \<in> set (gw_tasks g)" and "g' = forward_stream_end r ms g"
  shows "counts_ok g'" "gw_open g' = gw_open g - {#r#}" "gw_next g' = gw_next g" "gw_store g' = gw_store g"
    "gw_futures g' = gw_futures g" "gw_tasks g' = remove1 r (gw_tasks g)"
    "gw_streams g' = (gw_streams g)(r := gw_streams g r @ [EndOfStream])"
proof -
  have t: "counts_ok (put_stream r EndOfStream g)" "r \<in> set (gw_tasks (put_stream r EndOfStream g))"
    using assms(1,2) by (simp_all add: gw_inv_def put_stream_def)
  from finish_task_counts [OF this, of True ms]
  show "counts_ok g'" "gw_open g' = gw_open g - {#r#}" "gw_next g' = gw_next g" "gw_store g' = gw_store g"
    "gw_futures g' = gw_futures g" "gw_tasks g' = remove1 r (gw_tasks g)"
    "gw_streams g' = (gw_streams g)(r := gw_streams g r @ [EndOfStream])"
    by (simp_all add: assms(3) forward_stream_end_def put_stream_def)
qed

lemma streaming_no_future:
  assumes "gw_inv g" and "r \<in> set (gw_tasks g)" and "forward_body g (gw_store g r) = Inr (b, True)"
  shows "gw_futures g r = None"
proof -
  obtain body where b: "dict_get (sr_metadata (gw_store g r)) ''body'' = Some (MBody body)"
    "wants_stream body = Inr (gw_futures g r = None)"
    using assms(1) task_known(1) [OF assms(1,2)] by (auto simp: gw_inv_def objects_ok_def)
  with assms(3) show ?thesis
    by (cases body) (auto simp: forward_body_def Let_def wants_stream_def dict_simps split: option.splits if_splits)
qed

lemma gw_step_inv: "gw_step g g' \<Longrightarrow> gw_inv g \<Longrightarrow> gw_inv g'"
proof (induction rule: gw_step.induct)
  case (chat fmt parse rid now g body req ck r g')
  then show ?case using chat_inv(1) by blast
next
  case (stream fmt parse rid now g body req ck r g')
  then show ?case using stream_inv(1) by blast
next
  case (expire g r)
  then show ?case using timeout_inv by blast
next
  case (dispatch g ck)
  then have c: "counts_ok g" "objects_ok g" by (simp_all add: gw_inv_def)
  from dispatch_counts [OF this(1), of ck] c(2) show ?case by (simp add: gw_inv_def objects_ok_def)
next
  case (reply r g b msg ms rep)
  note e = forward_reply_effect [OF reply(3,1) refl, of msg ms rep]
  from objects_finish [OF _ e(4,3,7,2)] e(1) reply(3) show ?case by (simp add: gw_inv_def)
next
  case (chunk r g b bytes)
  then show ?case by (simp add: gw_inv_def forward_chunk_def put_stream_def objects_ok_def)
next
  case (stream_end r g b ms)
  note e = stream_end_effect [OF stream_end(3,1) refl, of ms]
  have n: "gw_futures g r = None" using streaming_no_future stream_end by blast
  from objects_finish [OF _ e(4,3) _ e(2), where v = PNone] e(1,5) n stream_end(3) show ?case
    by (simp add: gw_inv_def)
next
  case (stream_fail r g b msg ms e)
  note f = forward_failed_effect [OF stream_fail(3,1) refl, of msg ms e]
  from objects_finish [OF _ f(4,3,7,2)] f(1) stream_fail(3) show ?case by (simp add: gw_inv_def)
next
  case (consume g r)
  then show ?case by (simp add: gw_inv_def stream_get_def objects_ok_def split: list.split)
qed

lemma gw_reach_inv: "gw_reach g0 g \<Longrightarrow> gw_inv g0 \<Longrightarrow> gw_inv g"
  by (induction rule: gw_reach.induct) (auto intro: gw_step_inv)

section \<open>The started gateway\<close>

definition started :: "gateway \<Rightarrow> bool" where
  "started g \<longleftrightarrow>
     (\<exists>parse config hc st g0 ckpt fresh.
        mk_gateway parse config hc st = Inr g0 \<and> gateway_startup ckpt fresh g0 = (None, g))"

lemma mk_gateway_fields:
  assumes "mk_gateway parse config hc st = Inr g"
  shows "gw_running g = False" "gw_scheduler g = None" "gw_client g = hc" "gw_owns_client g = (\<not> hc)"
    "gw_workers g = 0" "gw_next g = 0" "gw_futures g = (\<lambda>_. None)" "gw_tasks g = []" "gw_metrics g = metrics_init"
    "gw_config g = config" "gw_streams g = (\<lambda>_. [])"
  using assms by (auto simp: mk_gateway_def bind_res_Inr_iff)

lemma sjf_start_fields [simp]:
  "sjf_queue (sjf_start s) = sjf_queue s" "sjf_use_fallback (sjf_start s) = sjf_use_fallback s"
  "sjf_fcfs_fallback (sjf_start s) = sjf_fcfs_fallback s" "bs_total_scheduled (sjf_start s) = bs_total_scheduled s"
  "finished_count b (sjf_start s) = finished_count b s"
  by (simp_all add: sjf_start_def finished_count_def)

lemma map_sum_Inr_iff: "map_sum id f x = Inr y \<longleftrightarrow> (\<exists>z. x = Inr z \<and> y = f z)"
  by (cases x) auto

lemma built_scheduler:
  assumes "build_scheduler ty p config = Inr s"
  shows "any_inv (st, start_if_sjf s)" "any_waiting (st, start_if_sjf s) = {#}" "any_refs (start_if_sjf s) = {}"
    "any_scheduled (st, start_if_sjf s) = 0" "any_finished b (st, start_if_sjf s) = 0"
proof -
  consider "s = AnyFcfs fcfs_init" | "s = AnyOracle oracle_init"
    | x p cfg f i n t where "s = AnySjf x" "mk_sjf p cfg f i n t = Inr x"
  proof (cases ty)
    case SJF
    with assms that(3) show ?thesis
      by (cases p) (auto simp: build_scheduler_def Let_def bind_res_Inr_iff map_sum_Inr_iff)
  qed (use assms that in \<open>auto simp: build_scheduler_def\<close>)
  then have "any_inv (st, start_if_sjf s) \<and> any_waiting (st, start_if_sjf s) = {#} \<and> any_refs (start_if_sjf s) = {} \<and>
      any_scheduled (st, start_if_sjf s) = 0 \<and> any_finished b (st, start_if_sjf s) = 0"
  proof cases
    case 1
    then show ?thesis by (simp add: start_if_sjf_def)
  next
    case 2
    then show ?thesis using oracle_init_inv
      by (auto simp: start_if_sjf_def) (auto simp: oracle_init_def base_init_def base_state.defs
        oracle_sched.defs pq_init_def finished_count_def)
  next
    case 3
    note f = mk_sjf_fields [OF 3(2)] and i = mk_sjf_inv [OF 3(2), of st]
    from 3 f i show ?thesis
      by (auto simp: start_if_sjf_def sjf_inv_def sjf_waiting_def falls_back_def) (simp add: pq_init_def)
  qed
  then show "any_inv (st, start_if_sjf s)" "any_waiting (st, start_if_sjf s) = {#}" "any_refs (start_if_sjf s) = {}"
    "any_scheduled (st, start_if_sjf s) = 0" "any_finished b (st, start_if_sjf s) = 0" by blast+
qed

lemma startup_effect:
  assumes "gateway_startup ckpt fresh g0 = (None, g)" and "\<not> gw_running g0"
  shows "\<exists>p s n cfg. gw_scheduler g = Some (start_if_sjf s) \<and> gw_running g \<and> gw_client g \<and>
      gw_owns_client g = (if gw_client g0 then gw_owns_client g0 else True) \<and>
      gw_workers g = gw_workers g0 + n \<and> py_range (gw_max_workers g0) = Inr n \<and>
      build_scheduler (gw_type g0) (Some p) cfg = Inr s"
    and "gw_store g = gw_store g0" "gw_next g = gw_next g0" "gw_futures g = gw_futures g0"
    "gw_tasks g = gw_tasks g0" "gw_metrics g = gw_metrics g0"
  using assms
  by (auto simp: gateway_startup_def Let_def bind_res_Inr_iff split: sum.splits if_splits) blast+

lemma started_inv: "started g \<Longrightarrow> gw_inv g"
proof -
  assume "started g"
  then obtain parse config hc st g0 ckpt fresh where
    m: "mk_gateway parse config hc st = Inr g0" and u: "gateway_startup ckpt fresh g0 = (None, g)"
    by (auto simp: started_def)
  note f = mk_gateway_fields [OF m]
  have r: "\<not> gw_running g0" using f(1) by simp
  note e = startup_effect [OF u r]
  from e(1) obtain p s cfg where g: "gw_scheduler g = Some (start_if_sjf s)"
    and b: "build_scheduler (gw_type g0) (Some p) cfg = Inr s" by blast
  show "gw_inv g"
    using built_scheduler [OF b] f e(2-) g
    by (auto simp: gw_inv_def counts_ok_def objects_ok_def gw_open_def gw_waiting_def metrics_init_def)
qed

section \<open>Properties\<close>


text \<open>A gateway on an FCFS scheduler, one client whose request is dispatched.\<close>

definition sample_gateway :: gateway where
  "sample_gateway =
     \<lparr>gw_config = PDict [(''scheduler'', PDict [(''type'', PStr ''fcfs''), (''max_workers'', PInt 2)])],
      gw_vllm_url = PStr ''http://localhost:8000'', gw_model = PStr ''HuggingFaceTB/SmolLM3-3B'',
      gw_type = FCFS, gw_max_workers = PInt 2, gw_request_timeout = 300, gw_connect_timeout = 5,
      gw_predictor = Some (sample_predictor 3), gw_scheduler = Some (AnyFcfs fcfs_init),
      gw_client = True, gw_owns_client = True, gw_workers = 2, gw_running = True,
      gw_store = (\<lambda>_. sample_request ''none'' 0), gw_next = 0, gw_futures = (\<lambda>_. None),
      gw_streams = (\<lambda>_. []), gw_tasks = [], gw_metrics = metrics_init\<rparr>"

lemma sample_gateway_started: "started sample_gateway"
proof -
  let ?cfg = "PDict [(''scheduler'', PDict [(''type'', PStr ''fcfs''), (''max_workers'', PInt 2)])]"
  have "\<exists>g0. mk_gateway (\<lambda>_. None) ?cfg False (\<lambda>_. sample_request ''none'' 0) = Inr g0 \<and>
      gateway_startup (\<lambda>_. None) (sample_predictor 3) g0 = (None, sample_gateway)"
    by (simp add: mk_gateway_def scheduler_type_of_def gateway_startup_def startup_predictor_def Let_def
        build_scheduler_def start_if_sjf_def sample_gateway_def)
  then show ?thesis unfolding started_def by blast
qed

definition chat_body :: pyval where
  "chat_body = PDict [(''messages'', PList [PDict [(''role'', PStr ''user''), (''content'', PStr ''hi'')]])]"

definition stream_body :: pyval where
  "stream_body = PDict [(''stream'', PBool True)]"

abbreviation chat_submitted :: "gateway \<Rightarrow> gateway" where
  "chat_submitted g \<equiv> snd (submit_chat (\<lambda>_. []) (\<lambda>_. None) ''a'' 0 some_clocks chat_body g)"

abbreviation stream_submitted :: "gateway \<Rightarrow> gateway" where
  "stream_submitted g \<equiv> snd (submit_chat_stream (\<lambda>_. []) (\<lambda>_. None) ''b'' 0 some_clocks stream_body g)"

lemma fst_conv_eq: "fst p = a \<Longrightarrow> p = (a, snd p)"
  by (cases p) simp

lemma sample_chat_step: "gw_reach sample_gateway (chat_submitted sample_gateway)"
proof -
  obtain req where req: "make_request (\<lambda>_. []) (\<lambda>_. None) ''a'' 0 (''future'', MFuture (gw_next sample_gateway)) chat_body = Inr req"
    by (simp add: make_request_def chat_body_def chat_prompt_def message_line_def)
  have "submission_ok sample_gateway req" by (simp add: submission_ok_def sample_gateway_def)
  moreover have "wants_stream chat_body = Inr False" by (simp add: wants_stream_def chat_body_def)
  moreover have "submit_chat (\<lambda>_. []) (\<lambda>_. None) ''a'' 0 some_clocks chat_body sample_gateway = (Inr 0, chat_submitted sample_gateway)"
  proof -
    have "fst (submit_chat (\<lambda>_. []) (\<lambda>_. None) ''a'' 0 some_clocks chat_body sample_gateway) = Inr 0" by code_simp
    then show ?thesis by (rule fst_conv_eq)
  qed
  ultimately show ?thesis by (rule gw_reach.step [OF gw_reach.start gw_step.chat [OF req]])
qed

lemma sample_stream_step: "gw_reach sample_gateway (stream_submitted sample_gateway)"
proof -
  obtain req where req: "make_request (\<lambda>_. []) (\<lambda>_. None) ''b'' 0 (''stream_queue'', MStream (gw_next sample_gateway)) stream_body = Inr req"
    by (simp add: make_request_def stream_body_def chat_prompt_def)
  have "submission_ok sample_gateway req" by (simp add: submission_ok_def sample_gateway_def)
  moreover have "wants_stream stream_body = Inr True" by (simp add: wants_stream_def stream_body_def)
  moreover have "submit_chat_stream (\<lambda>_. []) (\<lambda>_. None) ''b'' 0 some_clocks stream_body sample_gateway =
      (Inr 0, stream_submitted sample_gateway)"
  proof -
    have "fst (submit_chat_stream (\<lambda>_. []) (\<lambda>_. None) ''b'' 0 some_clocks stream_body sample_gateway) = Inr 0"
      by code_simp
    then show ?thesis by (rule fst_conv_eq)
  qed
  ultimately show ?thesis by (rule gw_reach.step [OF gw_reach.start gw_step.stream [OF req]])
qed

definition chat_in_flight :: gateway where
  "chat_in_flight = dispatch_pass some_clocks (chat_submitted sample_gateway)"

definition stream_in_flight :: gateway where
  "stream_in_flight = dispatch_pass some_clocks (stream_submitted sample_gateway)"

lemma in_flight_reach: "gw_reach sample_gateway chat_in_flight" "gw_reach sample_gateway stream_in_flight"
  unfolding chat_in_flight_def stream_in_flight_def
  by (rule gw_reach.step [OF sample_chat_step gw_step.dispatch]
      gw_reach.step [OF sample_stream_step gw_step.dispatch])+

lemma in_flight_tasks: "gw_tasks chat_in_flight = [0]" "gw_tasks stream_in_flight = [0]"
  "gw_futures chat_in_flight 0 = Some FPending"
  "map_sum id snd (forward_body chat_in_flight (gw_store chat_in_flight 0)) = Inr False"
  "map_sum id snd (forward_body stream_in_flight (gw_store stream_in_flight 0)) = Inr True"
  "gw_streams stream_in_flight 0 = []"
  by code_simp+


lemma step_settled:
  "gw_step g g' \<Longrightarrow> gw_inv g \<Longrightarrow> gw_futures g r = Some f \<Longrightarrow> f \<noteq> FPending \<Longrightarrow> gw_futures g' r = Some f"
proof (induction rule: gw_step.induct)
  case (chat fmt parse rid now g body req ck r0 g')
  have "r < gw_next g" using chat.prems by (auto simp: gw_inv_def objects_ok_def)
  with chat chat_inv(4) [OF chat.prems(1) chat.hyps] show ?case by simp
next
  case (stream fmt parse rid now g body req ck r0 g')
  then show ?case using stream_inv(4) by metis
next
  case (expire g r0)
  then show ?case using timeout_counts(6) [of g r0] by (auto simp: gw_inv_def)
next
  case (dispatch g ck)
  then show ?case using dispatch_counts(5) [of g ck] by (auto simp: gw_inv_def)
next
  case (reply r0 g b msg ms rep)
  then show ?case using forward_reply_effect(7) [OF reply.prems(1) reply.hyps(1) refl, of msg ms rep] by auto
next
  case (chunk r0 g b bytes)
  then show ?case by (simp add: forward_chunk_def put_stream_def)
next
  case (stream_end r0 g b ms)
  then show ?case using stream_end_effect(5) [OF stream_end.prems(1) stream_end.hyps(1) refl, of ms] by simp
next
  case (stream_fail r0 g b msg ms e)
  then show ?case
    using forward_failed_effect(7) [OF stream_fail.prems(1) stream_fail.hyps(1) refl, of msg ms e] by auto
next
  case (consume g r0)
  then show ?case by (simp add: stream_get_def split: list.split)
qed



text \<open>
  C8: what the client of a plain request receives. When the reply to its in-flight request
  arrives, its handler answers with the JSON of a 200 reply that has no \<^verbatim>\<open>error\<close> key; every other
  status becomes 502 with the reply's text, and so does an exception of the HTTP client, with
  its message. A request that times out is answered with 504.
\<close>

theorem chat_reply_outcome:
  assumes "started g0" and "gw_reach g0 g" and "r \<in> set (gw_tasks g)" and "gw_futures g r = Some FPending"
    and "g' = forward_reply msg r ms rep g"
  shows "\<exists>v. submit_chat_result r g' = Some (Inr v) \<and>
    (case rep of
       Reply status txt js \<Rightarrow>
         (status \<noteq> 200 \<longrightarrow> chat_response (Inr v) = Inr (Http 502 (PStr txt))) \<and>
         (\<forall>d. status = 200 \<and> js = Inr (PDict d) \<and> dict_get d ''error'' = None \<longrightarrow>
            chat_response (Inr v) = Inr (Http 200 (PDict d))) \<and>
         (\<forall>e. status = 200 \<and> js = Inl e \<longrightarrow> chat_response (Inr v) = Inr (Http 502 (PStr (msg e))))
     | ReplyError e \<Rightarrow> chat_response (Inr v) = Inr (Http 502 (PStr (msg e)))) \<and>
    chat_response (Inl (fst (submit_chat_timeout r g))) = Inr (Http 504 (PStr ''Request timed out''))"
proof -
  have i: "gw_inv g" using gw_reach_inv [OF assms(2) started_inv [OF assms(1)]] .
  have "submit_chat_result r g' = Some (Inr (reply_value msg rep))"
    using forward_reply_effect(7) [OF i assms(3,5)] assms(4) by (simp add: submit_chat_result_def)
  then show ?thesis
    by (auto simp: reply_value_def chat_response_def submit_chat_timeout_def Let_def split: reply.split)
qed

theorem chat_reply_outcome_witness:
  "\<exists>v. submit_chat_result 0 (forward_reply (\<lambda>_. []) 0 1 (Reply 503 ''overloaded'' (Inl TypeError)) chat_in_flight)
       = Some (Inr v) \<and> chat_response (Inr v) = Inr (Http 502 (PStr ''overloaded''))"
  using chat_reply_outcome [OF sample_gateway_started in_flight_reach(1), of 0 _ "\<lambda>_. []" 1
      "Reply 503 ''overloaded'' (Inl TypeError)"] in_flight_tasks(1,3) by auto

text \<open>The end marker of a stream is put by the stream's own task only.\<close>

lemma step_stream_closed:
  "gw_step g g' \<Longrightarrow> gw_inv g \<Longrightarrow> r < gw_next g \<Longrightarrow> r \<notin># gw_open g \<Longrightarrow> EndOfStream \<notin> set (gw_streams g r) \<Longrightarrow>
     r < gw_next g' \<and> r \<notin># gw_open g' \<and> EndOfStream \<notin> set (gw_streams g' r)"
proof (induction rule: gw_step.induct)
  case (chat fmt parse rid now g body req ck r0 g')
  then show ?case using chat_inv [OF chat.prems(1) chat.hyps] by simp
next
  case (stream fmt parse rid now g body req ck r0 g')
  then show ?case using stream_inv [OF stream.prems(1) stream.hyps] by simp
next
  case (expire g r0)
  then show ?case using timeout_counts(2,4,7) [of g r0] by (auto simp: gw_inv_def dest: mset_subset_eqD)
next
  case (dispatch g ck)
  then show ?case using dispatch_counts(2,3,6) [of g ck] by (simp add: gw_inv_def)
next
  case (reply r0 g b msg ms rep)
  then show ?case using forward_reply_effect(2,3,5) [OF reply.prems(1) reply.hyps(1) refl, of msg ms rep]
    by (auto dest: in_diffD)
next
  case (chunk r0 g b bytes)
  then show ?case by (auto simp: forward_chunk_def put_stream_def)
next
  case (stream_end r0 g b ms)
  have "r \<noteq> r0" using stream_end.prems(3) stream_end.hyps(1) by (auto simp: gw_open_def)
  with stream_end show ?case
    using stream_end_effect(2,3,7) [OF stream_end.prems(1) stream_end.hyps(1) refl, of ms] by (auto dest: in_diffD)
next
  case (stream_fail r0 g b msg ms e)
  then show ?case
    using forward_failed_effect(2,3,5) [OF stream_fail.prems(1) stream_fail.hyps(1) refl, of msg ms e]
    by (auto dest: in_diffD)
next
  case (consume g r0)
  then show ?case by (auto simp: stream_get_def split: list.split)
qed



lemma dispatch_fcfs:
  "gw_scheduler g = Some (AnyFcfs s) \<Longrightarrow> gw_running g \<Longrightarrow> fcfs_queue s = r # rs \<Longrightarrow>
     dispatch_pass ck g = g\<lparr>gw_scheduler := Some (AnyFcfs (s\<lparr>fcfs_queue := rs\<rparr>)), gw_tasks := gw_tasks g @ [r]\<rparr>"
  by (simp add: dispatch_pass_def fcfs_acquire_def)

text \<open>
  \<^verbatim>\<open>max_workers\<close> does not bound the requests in flight. A dispatcher hands each request to a task
  of its own and goes on: \<open>n\<close> turns of a single dispatcher put the first \<open>n\<close> queued requests in
  flight together, for every \<open>n\<close> up to the queue's length and whatever the number of workers.
\<close>

theorem in_flight_not_bounded_by_workers:
  assumes "gw_scheduler g = Some (AnyFcfs s)" and "gw_running g" and "n \<le> length (fcfs_queue s)"
  shows "gw_tasks ((dispatch_pass ck ^^ n) g) = gw_tasks g @ take n (fcfs_queue s) \<and>
    gw_workers ((dispatch_pass ck ^^ n) g) = gw_workers g"
  using assms
proof (induction n arbitrary: g s)
  case 0
  then show ?case by simp
next
  case (Suc n)
  then obtain r rs where q: "fcfs_queue s = r # rs" by (cases "fcfs_queue s") auto
  note d = dispatch_fcfs [OF Suc.prems(1,2) q, of ck]
  have "gw_scheduler (dispatch_pass ck g) = Some (AnyFcfs (s\<lparr>fcfs_queue := rs\<rparr>))"
    "gw_running (dispatch_pass ck g)" "n \<le> length (fcfs_queue (s\<lparr>fcfs_queue := rs\<rparr>))"
    using d Suc.prems q by simp_all
  from Suc.IH [OF this] show ?case by (simp add: funpow_swap1 d q)
qed

theorem in_flight_not_bounded_by_workers_witness:
  "length (gw_tasks ((dispatch_pass some_clocks ^^ 5) (sample_gateway
     \<lparr>gw_workers := 1, gw_scheduler := Some (AnyFcfs (fcfs_init\<lparr>fcfs_queue := [0, 1, 2, 3, 4]\<rparr>))\<rparr>))) = 5"
  using in_flight_not_bounded_by_workers [of "sample_gateway
     \<lparr>gw_workers := 1, gw_scheduler := Some (AnyFcfs (fcfs_init\<lparr>fcfs_queue := [0, 1, 2, 3, 4]\<rparr>))\<rparr>"
     "fcfs_init\<lparr>fcfs_queue := [0, 1, 2, 3, 4]\<rparr>" 5 some_clocks]
  by (simp add: sample_gateway_def)

text \<open>
  Start and stop. A start that succeeds leaves the gateway running with a client and
  as many dispatchers as configured, and starting it again changes nothing; stopping it then
  leaves it not running and closes the client exactly if the gateway created it, unless the
  aging task has failed: then \<^verbatim>\<open>shutdown\<close> raises that task's exception and the client stays open.
\<close>

theorem start_stop_outcome:
  assumes "mk_gateway parse config hc st = Inr g0" and "gateway_startup ckpt fresh g0 = (None, g1)"
    and "gateway_shutdown g1 = (err, g2)"
  shows "gw_running g1 \<and> gw_client g1 \<and> py_range (gw_max_workers g0) = Inr (gw_workers g1) \<and>
    gateway_startup ckpt fresh g1 = (None, g1) \<and>
    \<not> gw_running g2 \<and> err = None \<and> gw_client g2 = hc \<and>
    (\<forall>s e. gateway_shutdown (g1\<lparr>gw_scheduler := Some (AnySjf (s\<lparr>sjf_aging_task := Failed e\<rparr>))\<rparr>) =
       (Some e, g1\<lparr>gw_running := False, gw_scheduler := Some (AnySjf (s\<lparr>sjf_aging_task := Failed e\<rparr>))\<rparr>))"
proof -
  note f = mk_gateway_fields [OF assms(1)]
  have r: "\<not> gw_running g0" using f(1) by simp
  obtain p s n cfg where g1: "gw_scheduler g1 = Some (start_if_sjf s)" "gw_running g1" "gw_client g1"
    "gw_owns_client g1 = (\<not> hc)" "gw_workers g1 = n" "py_range (gw_max_workers g0) = Inr n"
    and b: "build_scheduler (gw_type g0) (Some p) cfg = Inr s"
    using startup_effect(1) [OF assms(2) r] f by auto
  have "sjf_aging_task x = Running" if "start_if_sjf s = AnySjf x" for x
  proof -
    obtain y where y: "s = AnySjf y" "x = sjf_start y"
      using \<open>start_if_sjf s = AnySjf x\<close> by (auto simp: start_if_sjf_def split: any_scheduler.splits)
    with b obtain p' cfg' f' i' n' t' where "mk_sjf p' cfg' f' i' n' t' = Inr y"
      by (cases "gw_type g0") (auto simp: build_scheduler_def Let_def bind_res_Inr_iff map_sum_Inr_iff)
    from mk_sjf_fields(9) [OF this] y show ?thesis by (simp add: sjf_start_def)
  qed
  then have "err = None \<and> \<not> gw_running g2 \<and> gw_client g2 = hc"
    using assms(3) g1 by (auto simp: gateway_shutdown_def sjf_stop_def Let_def split: any_scheduler.splits)
  with g1 show ?thesis by (auto simp: gateway_startup_def gateway_shutdown_def sjf_stop_def Let_def)
qed

theorem start_stop_outcome_witness:
  "\<exists>g0 g1. mk_gateway (\<lambda>_. None) (PDict []) True (\<lambda>_. sample_request ''none'' 0) = Inr g0 \<and>
     gateway_startup (\<lambda>_. None) (sample_predictor 3) g0 = (None, g1) \<and>
     gw_workers g1 = 32 \<and> gateway_startup (\<lambda>_. None) (sample_predictor 3) g1 = (None, g1)"
proof -
  obtain g0 g1 where m: "mk_gateway (\<lambda>_. None) (PDict []) True (\<lambda>_. sample_request ''none'' 0) = Inr g0"
    and u: "gateway_startup (\<lambda>_. None) (sample_predictor 3) g0 = (None, g1)"
    and w: "py_range (gw_max_workers g0) = Inr 32"
    by (auto simp: mk_gateway_def scheduler_type_of_def gateway_startup_def startup_predictor_def Let_def
        build_scheduler_def mk_sjf_def create_aging_def default_aging_config_def)
  obtain err g2 where "gateway_shutdown g1 = (err, g2)" by force
  from start_stop_outcome [OF m u this] m u w show ?thesis by auto
qed

end
