(* ===== verification/GatewayApp.thy ===== *)
theory GatewayApp
  imports GatewaySystem
begin

text \<open>
  The web application around the gateway, from \<^verbatim>\<open>load_config\<close> to the end of
  \<^verbatim>\<open>python/scheduler/gateway.py\<close>: \<^verbatim>\<open>create_app\<close>, the lifespan that starts and stops the gateway, the
  table of routes, and each handler up to the point where it suspends, with the rest of it as a
  function of what it was waiting for. Reading and parsing the YAML file, the Prometheus text
  format, the web framework's own routes and its router are arguments; the router is only used
  through its documented behaviour, that the first route in order matching path and method wins.
\<close>

section \<open>Routes\<close>

datatype endpoint = Health | Ready | Live | Metrics | SchedulerStats | ChatCompletions | Proxy | Framework string

text \<open>A fixed path, or the template \<^verbatim>\<open>/{path:path}\<close>.\<close>

datatype route_path = Exact string | AnyPath

record route =
  rt_path :: route_path
  rt_methods :: "string list"
  rt_endpoint :: endpoint

definition proxy_methods :: "string list" where
  "proxy_methods = [''GET'', ''POST'', ''PUT'', ''DELETE'']"

text \<open>The routes in the order in which \<^verbatim>\<open>create_app\<close> declares them, after those of \<^verbatim>\<open>FastAPI(...)\<close> itself.\<close>

definition app_routes :: "route list \<Rightarrow> route list" where
  "app_routes builtin = builtin @
     [\<lparr>rt_path = Exact ''/health'', rt_methods = [''GET''], rt_endpoint = Health\<rparr>,
      \<lparr>rt_path = Exact ''/ready'', rt_methods = [''GET''], rt_endpoint = Ready\<rparr>,
      \<lparr>rt_path = Exact ''/live'', rt_methods = [''GET''], rt_endpoint = Live\<rparr>,
      \<lparr>rt_path = Exact ''/metrics'', rt_methods = [''GET''], rt_endpoint = Metrics\<rparr>,
      \<lparr>rt_path = Exact ''/scheduler/stats'', rt_methods = [''GET''], rt_endpoint = SchedulerStats\<rparr>,
      \<lparr>rt_path = Exact ''/v1/chat/completions'', rt_methods = [''POST''], rt_endpoint = ChatCompletions\<rparr>,
      \<lparr>rt_path = AnyPath, rt_methods = proxy_methods, rt_endpoint = Proxy\<rparr>]"

datatype routed = Endpoint endpoint | NotFound | MethodNotAllowed

fun path_match :: "string \<Rightarrow> route_path \<Rightarrow> bool" where
  "path_match p (Exact q) = (p = q)"
| "path_match p AnyPath = (take 1 p = ''/'')"

definition full_match :: "string \<Rightarrow> string \<Rightarrow> route \<Rightarrow> bool" where
  "full_match m p r \<longleftrightarrow> path_match p (rt_path r) \<and> m \<in> set (rt_methods r)"

text \<open>
  The documented behaviour of the router, on paths without a line break (which the template's
  pattern does not match): routes are tried in order, and a path that only matches with another
  method is refused as such.
\<close>

definition plain_path :: "string \<Rightarrow> bool" where
  "plain_path p \<longleftrightarrow> take 1 p = ''/'' \<and> CHR 0x0A \<notin> set p"

definition routes_in_order :: "(route list \<Rightarrow> string \<Rightarrow> string \<Rightarrow> routed) \<Rightarrow> bool" where
  "routes_in_order router \<longleftrightarrow>
     (\<forall>pre r post m p. plain_path p \<and> full_match m p r \<and> (\<forall>x \<in> set pre. \<not> full_match m p x) \<longrightarrow>
        router (pre @ r # post) m p = Endpoint (rt_endpoint r)) \<and>
     (\<forall>rs m p. plain_path p \<and> (\<forall>x \<in> set rs. \<not> full_match m p x) \<and> (\<exists>x \<in> set rs. path_match p (rt_path x)) \<longrightarrow>
        router rs m p = MethodNotAllowed)"

section \<open>The application\<close>

text \<open>\<open>ap_gateway\<close> is the gateway \<^verbatim>\<open>create_app\<close> closes over, \<open>ap_attached\<close> says that \<^verbatim>\<open>app.state.gateway\<close> is set.\<close>

record app =
  ap_gateway :: gateway
  ap_attached :: bool
  ap_routes :: "route list"

definition load_config :: "(string \<Rightarrow> string pyres) \<Rightarrow> (string \<Rightarrow> pyval pyres) \<Rightarrow> string \<Rightarrow> pyval pyres" where
  "load_config open_file safe_load path = bind_res (open_file path) safe_load"

text \<open>The configuration is read even when a gateway is given.\<close>

definition create_app ::
  "(string \<Rightarrow> real option) \<Rightarrow> (string \<Rightarrow> string pyres) \<Rightarrow> (string \<Rightarrow> pyval pyres) \<Rightarrow> route list \<Rightarrow> store \<Rightarrow>
   string \<Rightarrow> gateway option \<Rightarrow> app pyres" where
  "create_app parse open_file safe_load builtin st config_path gw =
     bind_res (load_config open_file safe_load config_path) (\<lambda>config.
     bind_res (case gw of Some g \<Rightarrow> Inr g | None \<Rightarrow> mk_gateway parse config False st) (\<lambda>g.
       Inr \<lparr>ap_gateway = g, ap_attached = False, ap_routes = app_routes builtin\<rparr>))"

text \<open>The two halves of \<^verbatim>\<open>lifespan\<close>.\<close>

definition lifespan_enter ::
  "(string \<Rightarrow> predictor pyres option) \<Rightarrow> predictor \<Rightarrow> app \<Rightarrow> pyexn option \<times> app" where
  "lifespan_enter ckpt fresh a =
     (case gateway_startup ckpt fresh (ap_gateway a) of
        (Some e, g) \<Rightarrow> (Some e, a\<lparr>ap_gateway := g\<rparr>)
      | (None, g) \<Rightarrow> (None, a\<lparr>ap_gateway := g, ap_attached := True\<rparr>))"

definition lifespan_exit :: "app \<Rightarrow> pyexn option \<times> app" where
  "lifespan_exit a = (case gateway_shutdown (ap_gateway a) of (e, g) \<Rightarrow> (e, a\<lparr>ap_gateway := g\<rparr>))"

definition state_gateway :: "app \<Rightarrow> gateway pyres" where
  "state_gateway a = (if ap_attached a then Inr (ap_gateway a) else Inl AttributeError)"

section \<open>Handlers\<close>

text \<open>A request: \<open>hr_json\<close> is what \<^verbatim>\<open>request.json()\<close> gives, \<open>hr_headers\<close> is \<^verbatim>\<open>dict(request.headers)\<close>.\<close>

record http_request =
  hr_method :: string
  hr_path :: string
  hr_query :: string
  hr_json :: "pyval pyres"
  hr_body :: string
  hr_headers :: "(string, string) dict"

text \<open>
  What a handler has done when it first suspends or returns: a response; the call of the vLLM
  server it waits for; the future it waits for; a streaming response, whose generator has not
  run yet; or an exception.
\<close>

datatype activity =
    Respond int pyval
  | RespondText string
  | Refused int
  | AskHealth real
  | AwaitChat oref
  | StreamBody pyval
  | Forward string string string "(string, string) dict"
  | RespondRaw int string
  | Raised pyexn

definition stats_value :: "scheduler_stats option \<times> nat \<Rightarrow> pyval" where
  "stats_value sd =
     PDict [(''scheduler'',
              PDict (case fst sd of
                 None \<Rightarrow> []
               | Some s \<Rightarrow> [(''scheduler_type'', PStr (ss_scheduler_type s)), (''queue_depth'', PInt (int (ss_queue_depth s))),
                   (''total_scheduled'', PInt (int (ss_total_scheduled s))), (''total_completed'', PInt (int (ss_total_completed s))),
                   (''total_errors'', PInt (int (ss_total_errors s))), (''avg_feature_ms'', PFloat (ss_avg_feature_ms s)),
                   (''avg_predict_ms'', PFloat (ss_avg_predict_ms s)), (''avg_schedule_ms'', PFloat (ss_avg_schedule_ms s))])),
            (''queue_depth'', PInt (int (snd sd)))]"

definition ready_value :: "ready_info \<Rightarrow> pyval" where
  "ready_value i =
     PDict [(''status'', PStr (ri_status i)), (''scheduler'', PStr (ri_scheduler i)),
            (''queue_depth'', PInt (int (ri_queue_depth i))), (''vllm_backend'', PStr (ri_vllm_backend i))]"

text \<open>What a handler reads besides the request: conversions, the new id, the clock, the text of the metrics.\<close>

record surroundings =
  su_fmt :: "pyval \<Rightarrow> string"
  su_parse :: "string \<Rightarrow> int option"
  su_rid :: string
  su_now :: real
  su_clocks :: clocks
  su_generate_latest :: "metrics \<Rightarrow> string"

definition raise_or :: "'a pyres \<Rightarrow> app \<Rightarrow> ('a \<Rightarrow> activity \<times> app) \<Rightarrow> activity \<times> app" where
  "raise_or r a f = (case r of Inl e \<Rightarrow> (Raised e, a) | Inr x \<Rightarrow> f x)"

definition handle_ready :: "app \<Rightarrow> activity \<times> app" where
  "handle_ready a = raise_or (state_gateway a) a (\<lambda>g.
     if gw_client g then (AskHealth (gw_connect_timeout g), a)
     else (Respond 200 (ready_value (ready (Inl AttributeError) g)), a))"

definition resume_ready :: "int pyres \<Rightarrow> app \<Rightarrow> activity" where
  "resume_ready backend a = Respond 200 (ready_value (ready backend (ap_gateway a)))"

definition handle_stats :: "app \<Rightarrow> activity \<times> app" where
  "handle_stats a = raise_or (state_gateway a) a (\<lambda>g. (Respond 200 (stats_value (gateway_stats g)), a))"

definition handle_chat :: "surroundings \<Rightarrow> http_request \<Rightarrow> app \<Rightarrow> activity \<times> app" where
  "handle_chat X req a =
     raise_or (hr_json req) a (\<lambda>body.
     raise_or (state_gateway a) a (\<lambda>g.
     raise_or (wants_stream body) a (\<lambda>stream.
       if stream then (StreamBody body, a)
       else case submit_chat (su_fmt X) (su_parse X) (su_rid X) (su_now X) (su_clocks X) body g of
              (Inl e, g') \<Rightarrow> (Raised e, a\<lparr>ap_gateway := g'\<rparr>)
            | (Inr r, g') \<Rightarrow> (AwaitChat r, a\<lparr>ap_gateway := g'\<rparr>))))"

text \<open>An \<^verbatim>\<open>HTTPException\<close> is answered with its status and a \<^verbatim>\<open>detail\<close>.\<close>

definition resume_chat :: "pyval pyres \<Rightarrow> activity" where
  "resume_chat outcome =
     (case chat_response outcome of
        Inl e \<Rightarrow> Raised e
      | Inr (Http status v) \<Rightarrow> Respond status (if status = 200 then v else PDict [(''detail'', v)])
      | Inr (Streaming r) \<Rightarrow> AwaitChat r)"

text \<open>The proxy: method, path, body and headers are passed on; the query string is not.\<close>

definition handle_proxy :: "http_request \<Rightarrow> app \<Rightarrow> activity \<times> app" where
  "handle_proxy req a = raise_or (state_gateway a) a (\<lambda>g.
     if gw_client g then (Forward (hr_method req) (''/'' @ drop 1 (hr_path req)) (hr_body req) (hr_headers req), a)
     else (Raised AssertionError, a))"

text \<open>The client's status and content are passed on without its headers; its exceptions propagate.\<close>

definition resume_proxy :: "(int \<times> string) pyres \<Rightarrow> activity" where
  "resume_proxy resp = (case resp of Inl e \<Rightarrow> Raised e | Inr (status, content) \<Rightarrow> RespondRaw status content)"

fun serve :: "surroundings \<Rightarrow> endpoint \<Rightarrow> http_request \<Rightarrow> app \<Rightarrow> activity \<times> app" where
  "serve X Health req a = (Respond 200 (PDict [(''status'', PStr ''ok'')]), a)"
| "serve X Ready req a = handle_ready a"
| "serve X Live req a = (Respond 200 (PDict [(''status'', PStr ''alive'')]), a)"
| "serve X Metrics req a = (RespondText (su_generate_latest X (gw_metrics (ap_gateway a))), a)"
| "serve X SchedulerStats req a = handle_stats a"
| "serve X ChatCompletions req a = handle_chat X req a"
| "serve X Proxy req a = handle_proxy req a"
| "serve X (Framework t) req a = (RespondText t, a)"

definition app_handle ::
  "surroundings \<Rightarrow> (route list \<Rightarrow> string \<Rightarrow> string \<Rightarrow> routed) \<Rightarrow> http_request \<Rightarrow> app \<Rightarrow> activity \<times> app" where
  "app_handle X router req a =
     (case router (ap_routes a) (hr_method req) (hr_path req) of
        Endpoint e \<Rightarrow> serve X e req a
      | NotFound \<Rightarrow> (Refused 404, a)
      | MethodNotAllowed \<Rightarrow> (Refused 405, a))"

section \<open>Routing\<close>

text \<open>The declared routes as a table from method and path to endpoint.\<close>

definition fixed_routes :: "((string \<times> string) \<times> endpoint) list" where
  "fixed_routes =
     [((''GET'', ''/health''), Health), ((''GET'', ''/ready''), Ready), ((''GET'', ''/live''), Live),
      ((''GET'', ''/metrics''), Metrics), ((''GET'', ''/scheduler/stats''), SchedulerStats),
      ((''POST'', ''/v1/chat/completions''), ChatCompletions)]"

definition framework_apart :: "route list \<Rightarrow> string \<Rightarrow> bool" where
  "framework_apart builtin p \<longleftrightarrow> (\<forall>r \<in> set builtin. \<not> path_match p (rt_path r))"

lemma routed_first:
  assumes "routes_in_order router" and "plain_path p" and "find (full_match m p) rs = Some r"
  shows "router rs m p = Endpoint (rt_endpoint r)"
proof -
  obtain i where i: "i < length rs" "full_match m p (rs ! i)" "r = rs ! i" "\<forall>j < i. \<not> full_match m p (rs ! j)"
    using assms(3) by (auto simp: find_Some_iff)
  have "rs = take i rs @ r # drop (Suc i) rs" using i by (simp add: id_take_nth_drop)
  moreover have "\<forall>x \<in> set (take i rs). \<not> full_match m p x" using i by (auto simp: in_set_conv_nth)
  ultimately show ?thesis using assms(1, 2) i unfolding routes_in_order_def by metis
qed

lemma routed_none:
  "routes_in_order router \<Longrightarrow> plain_path p \<Longrightarrow> find (full_match m p) rs = None \<Longrightarrow>
   \<exists>x \<in> set rs. path_match p (rt_path x) \<Longrightarrow> router rs m p = MethodNotAllowed"
  unfolding routes_in_order_def find_None_iff by blast

lemma find_apart: "framework_apart builtin p \<Longrightarrow> find (full_match m p) (builtin @ rs) = find (full_match m p) rs"
  by (induction builtin) (auto simp: framework_apart_def full_match_def)

definition fixed_route :: "(string \<times> string) \<times> endpoint \<Rightarrow> route" where
  "fixed_route x = \<lparr>rt_path = Exact (snd (fst x)), rt_methods = [fst (fst x)], rt_endpoint = snd x\<rparr>"

lemma app_routes_table:
  "app_routes builtin =
     builtin @ map fixed_route fixed_routes @ [\<lparr>rt_path = AnyPath, rt_methods = proxy_methods, rt_endpoint = Proxy\<rparr>]"
  by (simp add: app_routes_def fixed_routes_def fixed_route_def)

lemma find_fixed:
  "find (full_match m p) (map fixed_route T @ rs) =
     (case map_of T (m, p) of Some e \<Rightarrow> Some (fixed_route ((m, p), e)) | None \<Rightarrow> find (full_match m p) rs)"
proof -
  have "full_match m p (fixed_route x) \<longleftrightarrow> fst x = (m, p)" for x
    by (auto simp: full_match_def fixed_route_def prod_eq_iff)
  then show ?thesis by (induction T) auto
qed

lemma app_routed:
  assumes "routes_in_order router" and "plain_path p" and "framework_apart builtin p"
  shows "router (app_routes builtin) m p =
    (case map_of fixed_routes (m, p) of
       Some e \<Rightarrow> Endpoint e
     | None \<Rightarrow> if m \<in> set proxy_methods then Endpoint Proxy else MethodNotAllowed)"
proof -
  have any: "path_match p AnyPath" using assms(2) by (simp add: plain_path_def)
  note f = find_apart [OF assms(3)] find_fixed
  show ?thesis
  proof (cases "find (full_match m p) (app_routes builtin)")
    case None
    then have "map_of fixed_routes (m, p) = None" "m \<notin> set proxy_methods"
      using any by (auto simp: app_routes_table f full_match_def split: option.splits if_splits)
    with routed_none [OF assms(1,2) None] any show ?thesis by (auto simp: app_routes_table)
  next
    case (Some r)
    with routed_first [OF assms(1,2) Some] show ?thesis
      by (auto simp: app_routes_table f fixed_route_def full_match_def split: option.splits if_splits)
  qed
qed

section \<open>The serving application\<close>

text \<open>Requests arrive and the gateway works, in any order; ids are fresh as in \<open>gw_step\<close>.\<close>

definition fresh_chat :: "surroundings \<Rightarrow> http_request \<Rightarrow> gateway \<Rightarrow> bool" where
  "fresh_chat X req g \<longleftrightarrow>
     (\<forall>body r. hr_json req = Inr body \<longrightarrow>
        make_request (su_fmt X) (su_parse X) (su_rid X) (su_now X) (''future'', MFuture (gw_next g)) body = Inr r \<longrightarrow>
        submission_ok g r)"

inductive app_step :: "(route list \<Rightarrow> string \<Rightarrow> string \<Rightarrow> routed) \<Rightarrow> app \<Rightarrow> app \<Rightarrow> bool" for router where
  request: "fresh_chat X req (ap_gateway a) \<Longrightarrow> app_step router a (snd (app_handle X router req a))"
| work: "ap_attached a \<Longrightarrow> gw_step (ap_gateway a) g \<Longrightarrow> app_step router a (a\<lparr>ap_gateway := g\<rparr>)"

definition serving :: "app \<Rightarrow> bool" where
  "serving a \<longleftrightarrow> ap_attached a \<and> gw_running (ap_gateway a) \<and> gw_client (ap_gateway a) \<and> gw_owns_client (ap_gateway a) \<and>
     gw_inv (ap_gateway a)"

lemma set_gauge_flags [frame_simps]:
  "gw_running (set_gauge g) = gw_running g" "gw_client (set_gauge g) = gw_client g" "gw_type (set_gauge g) = gw_type g" "gw_owns_client (set_gauge g) = gw_owns_client g"
  by (simp_all add: set_gauge_def split: option.splits)

lemma finish_task_flags [frame_simps]:
  "gw_running (finish_task b r ms g) = gw_running g" "gw_client (finish_task b r ms g) = gw_client g"
  "gw_type (finish_task b r ms g) = gw_type g" "gw_owns_client (finish_task b r ms g) = gw_owns_client g"
  by (simp_all add: finish_task_def Let_def frame_simps)

lemma settle_flags [frame_simps]:
  "gw_running (settle_future n v g) = gw_running g" "gw_client (settle_future n v g) = gw_client g"
  "gw_type (settle_future n v g) = gw_type g" "gw_owns_client (settle_future n v g) = gw_owns_client g"
  by (simp_all add: settle_future_def)

lemma submit_request_flags [frame_simps]:
  "submit_request mk ck g = (r, g') \<Longrightarrow> gw_running g' = gw_running g \<and> gw_client g' = gw_client g \<and> gw_type g' = gw_type g \<and> gw_owns_client g' = gw_owns_client g"
  by (auto simp: submit_request_def Let_def split: sum.splits option.splits prod.splits)

lemma gw_step_flags:
  "gw_step g g' \<Longrightarrow> gw_running g' = gw_running g \<and> gw_client g' = gw_client g \<and> gw_type g' = gw_type g \<and>
     gw_owns_client g' = gw_owns_client g"
proof (induction rule: gw_step.induct)
  case (chat fmt parse rid now g body req ck r g')
  then show ?case
    by (auto simp: submit_chat_def Let_def frame_simps split: sum.splits prod.splits if_splits dest!: submit_request_flags)
next
  case (stream fmt parse rid now g body req ck r g')
  then show ?case
    by (auto simp: submit_chat_stream_def split: sum.splits prod.splits dest!: submit_request_flags)
qed (auto simp: submit_chat_timeout_def dispatch_pass_def forward_reply_def forward_failed_def forward_chunk_def
    forward_stream_end_def put_stream_def stream_get_def Let_def frame_simps
    split: option.splits sum.splits prod.splits acq.splits metaval.splits list.splits)

lemma submit_chat_split:
  assumes "submit_chat fmt parse rid now ck body g = (res, g')" and "counts_ok g"
  shows "case make_request fmt parse rid now (''future'', MFuture (gw_next g)) body of
      Inl e \<Rightarrow> res = Inl e \<and> g' = g | Inr req \<Rightarrow> \<exists>r. res = Inr r"
  using assms by (auto simp: submit_chat_def submit_request_def counts_ok_def Let_def split: sum.splits prod.splits)

text \<open>A chat request either changes nothing or is accepted, as a step of the gateway.\<close>

lemma handle_chat_effect:
  assumes "serving a" and "fresh_chat X req (ap_gateway a)" and "handle_chat X req a = (act, a')"
  shows "(\<exists>body r. hr_json req = Inr body \<and> wants_stream body = Inr False \<and> act = AwaitChat r \<and>
      r = gw_next (ap_gateway a) \<and> gw_step (ap_gateway a) (ap_gateway a') \<and> a' = a\<lparr>ap_gateway := ap_gateway a'\<rparr> \<and>
      gw_futures (ap_gateway a') r = Some FPending \<and> gw_open (ap_gateway a') = add_mset r (gw_open (ap_gateway a))) \<or>
    (a' = a \<and> (\<exists>body. hr_json req = Inr body \<and> wants_stream body = Inr True \<and> act = StreamBody body)) \<or>
    (a' = a \<and> (\<exists>e. act = Raised e \<and> (hr_json req = Inl e \<or> (\<exists>body. hr_json req = Inr body \<and>
      (wants_stream body = Inl e \<or>
       make_request (su_fmt X) (su_parse X) (su_rid X) (su_now X) (''future'', MFuture (gw_next (ap_gateway a))) body = Inl e)))))"
proof (cases "\<exists>body. hr_json req = Inr body \<and> wants_stream body = Inr False")
  case False
  with assms(1,3) show ?thesis
    by (auto simp: handle_chat_def raise_or_def state_gateway_def serving_def split: sum.splits if_splits)
next
  case True
  then obtain body where b: "hr_json req = Inr body" "wants_stream body = Inr False" by blast
  let ?g = "ap_gateway a" and ?mk = "make_request (su_fmt X) (su_parse X) (su_rid X) (su_now X)"
  obtain res g' where sub: "submit_chat (su_fmt X) (su_parse X) (su_rid X) (su_now X) (su_clocks X) body ?g = (res, g')" by force
  have inv: "gw_inv ?g" "counts_ok ?g" "ap_attached a" using assms(1) by (simp_all add: serving_def gw_inv_def)
  have h: "(act, a') = (case res of Inl e \<Rightarrow> Raised e | Inr r \<Rightarrow> AwaitChat r, a\<lparr>ap_gateway := g'\<rparr>)"
    using assms(3) b inv sub by (auto simp: handle_chat_def raise_or_def state_gateway_def split: sum.splits)
  note split = submit_chat_split [OF sub inv(2)]
  show ?thesis
  proof (cases "?mk (''future'', MFuture (gw_next ?g)) body")
    case (Inl e)
    with split h b show ?thesis by auto
  next
    case (Inr rq)
    then obtain r where r: "res = Inr r" using split by auto
    have ok: "submission_ok ?g rq" using assms(2) b Inr by (simp add: fresh_chat_def)
    note sub' = sub [unfolded r]
    have "gw_step ?g g'" by (rule gw_step.chat [OF Inr ok b(2) sub'])
    with chat_inv(2,4,6) [OF inv(1) Inr ok b(2) sub'] h b r show ?thesis by auto
  qed
qed

lemma serve_effect:
  assumes "serving a" and "fresh_chat X req (ap_gateway a)" and "serve X e req a = (act, a')"
  shows "a' = a \<or> (gw_step (ap_gateway a) (ap_gateway a') \<and> a' = a\<lparr>ap_gateway := ap_gateway a'\<rparr>)"
  using assms handle_chat_effect [OF assms(1,2), of act a']
  by (cases e) (auto simp: handle_ready_def handle_stats_def handle_proxy_def raise_or_def split: sum.splits if_splits)

lemma serving_step: "gw_step (ap_gateway a) g \<Longrightarrow> serving a \<Longrightarrow> serving (a\<lparr>ap_gateway := g\<rparr>)"
  using gw_step_flags gw_step_inv by (auto simp: serving_def)

lemma app_step_serving: "app_step router a a' \<Longrightarrow> serving a \<Longrightarrow> serving a' \<and> ap_routes a' = ap_routes a"
proof (induction rule: app_step.induct)
  case (request X req a)
  obtain act a' where h: "app_handle X router req a = (act, a')" by force
  show ?case
  proof (cases "router (ap_routes a) (hr_method req) (hr_path req)")
    case (Endpoint e)
    with h have "serve X e req a = (act, a')" by (simp add: app_handle_def)
    from serve_effect [OF request.prems request.hyps this] show ?thesis
    proof (elim disjE conjE)
      assume "gw_step (ap_gateway a) (ap_gateway a')" "a' = a\<lparr>ap_gateway := ap_gateway a'\<rparr>"
      with serving_step [OF _ request.prems, of "ap_gateway a'"] h show ?thesis by (metis app.select_convs(3) app.surjective app.update_convs(1) snd_conv)
    qed (use h request.prems in simp)
  qed (use h request.prems in \<open>auto simp: app_handle_def\<close>)
next
  case (work a g)
  then show ?case using serving_step by simp
qed

lemma app_reach_serving: "(app_step router)\<^sup>*\<^sup>* a1 a \<Longrightarrow> serving a1 \<Longrightarrow> serving a \<and> ap_routes a = ap_routes a1"
  by (induction rule: rtranclp_induct) (auto dest: app_step_serving)

lemma created_app:
  assumes "create_app parse open_file safe_load builtin st path None = Inr a0" and "lifespan_enter ckpt fresh a0 = (None, a1)"
  shows "serving a1" "ap_routes a1 = app_routes builtin"
proof -
  obtain config where m: "mk_gateway parse config False st = Inr (ap_gateway a0)" and r: "ap_routes a0 = app_routes builtin"
    using assms(1) by (auto simp: create_app_def bind_res_Inr_iff)
  obtain g where u: "gateway_startup ckpt fresh (ap_gateway a0) = (None, g)"
    and a1: "a1 = a0\<lparr>ap_gateway := g, ap_attached := True\<rparr>"
    using assms(2) by (auto simp: lifespan_enter_def split: prod.splits option.splits)
  have "started g" unfolding started_def using m u by blast
  with startup_effect(1) [OF u] mk_gateway_fields(1,3,4) [OF m] show "serving a1" "ap_routes a1 = app_routes builtin"
    using a1 r by (auto simp: serving_def started_inv)
qed

lemma stats_total:
  "ss_total_scheduled (any_stats s) = any_scheduled (st, s)" "ss_total_completed (any_stats s) = any_finished True (st, s)"
  "ss_total_errors (any_stats s) = any_finished False (st, s)" "ss_queue_depth (any_stats s) = any_queue_depth s"
  by (cases s; simp add: base_stats_def finished_count_def)+

lemma fixed_endpoints: "map_of fixed_routes k = Some e \<Longrightarrow> e \<noteq> Proxy \<and> e \<noteq> Framework t"
  by (drule map_of_SomeD) (auto simp: fixed_routes_def)

lemma handle_chat_flags: "gw_running (ap_gateway (snd (handle_chat X req a))) = gw_running (ap_gateway a)"
proof -
  have "gw_running g' = gw_running g" if "submit_chat fmt parse rid now ck body g = (res, g')" for fmt parse rid now ck body g res g'
    using that by (auto simp: submit_chat_def Let_def frame_simps split: sum.splits prod.splits if_splits dest!: submit_request_flags)
  then show ?thesis
    by (auto simp: handle_chat_def raise_or_def state_gateway_def split: sum.splits prod.splits)
qed

lemma unattached_handle:
  assumes "routes_in_order router" and "plain_path (hr_path req)" and "framework_apart builtin (hr_path req)"
    and "\<not> ap_attached a" and "ap_routes a = app_routes builtin"
  shows "app_handle X router req a =
         (case map_of fixed_routes (hr_method req, hr_path req) of
            Some Health \<Rightarrow> (Respond 200 (PDict [(''status'', PStr ''ok'')]), a)
          | Some Live \<Rightarrow> (Respond 200 (PDict [(''status'', PStr ''alive'')]), a)
          | Some Metrics \<Rightarrow> (RespondText (su_generate_latest X (gw_metrics (ap_gateway a))), a)
          | Some ChatCompletions \<Rightarrow> (Raised (case hr_json req of Inl e \<Rightarrow> e | Inr _ \<Rightarrow> AttributeError), a)
          | Some _ \<Rightarrow> (Raised AttributeError, a)
          | None \<Rightarrow> (if hr_method req \<in> set proxy_methods then Raised AttributeError else Refused 405, a))"
  using assms(4,5) app_routed [OF assms(1-3), of "hr_method req"] fixed_endpoints [of "(hr_method req, hr_path req)"]
  by (auto simp: app_handle_def handle_ready_def handle_stats_def handle_chat_def handle_proxy_def state_gateway_def raise_or_def
      split: option.splits endpoint.splits sum.splits)

lemma not_started_app:
  assumes "create_app parse open_file safe_load builtin st path None = Inr a0"
    and "a = a0 \<or> (\<exists>e. lifespan_enter ckpt fresh a0 = (Some e, a))"
  shows "\<not> ap_attached a" "ap_routes a = app_routes builtin"
  using assms by (auto simp: create_app_def lifespan_enter_def bind_res_Inr_iff split: prod.splits option.splits)

lemma stopped_gateway:
  assumes "serving a" and "lifespan_exit a = (None, a2)"
  shows "ap_attached a2" "\<not> gw_running (ap_gateway a2)" "\<not> gw_client (ap_gateway a2)"
    "gw_type (ap_gateway a2) = gw_type (ap_gateway a)"
  using assms by (auto simp: lifespan_exit_def serving_def gateway_shutdown_def Let_def
      split: prod.splits option.splits any_scheduler.splits)

lemma idle_dispatch: "\<not> gw_running g \<Longrightarrow> dispatch_pass ck g = g"
  by (simp add: dispatch_pass_def split: option.splits)

section \<open>Properties\<close>

text \<open>
  C9: once the lifespan has started the gateway, every request finds its handler and the handlers
  work, whatever the gateway has done in between. The six declared endpoints are never taken by
  the proxy; every other path, and a declared path with another method, goes to the vLLM server
  with its method, body and headers; other methods are refused. Only an accepted
  \<^verbatim>\<open>POST /v1/chat/completions\<close> without streaming changes the gateway, by one more open request whose
  future its handler waits for; everything the proxy forwards passes the scheduler by. The
  statistics report the accepted, completed and failed requests exactly, and \<^verbatim>\<open>/ready\<close> reports
  \<^verbatim>\<open>ready\<close> with the state of the backend.
\<close>

theorem app_serving:
  assumes "create_app parse open_file safe_load builtin st path None = Inr a0"
    and "lifespan_enter ckpt fresh a0 = (None, a1)" and "(app_step router)\<^sup>*\<^sup>* a1 a"
    and "routes_in_order router" and "plain_path (hr_path req)" and "framework_apart builtin (hr_path req)"
    and "fresh_chat X req (ap_gateway a)" and "app_handle X router req a = (act, a')"
  shows "case map_of fixed_routes (hr_method req, hr_path req) of
      None \<Rightarrow> a' = a \<and> act = (if hr_method req \<in> set proxy_methods
        then Forward (hr_method req) (hr_path req) (hr_body req) (hr_headers req) else Refused 405)
    | Some ChatCompletions \<Rightarrow>
        (\<exists>r. act = AwaitChat r \<and> gw_futures (ap_gateway a') r = Some FPending \<and>
           gw_open (ap_gateway a') = add_mset r (gw_open (ap_gateway a))) \<or>
        a' = a \<and> (\<exists>body e. act = Raised e \<or> hr_json req = Inr body \<and> act = StreamBody body)
    | Some Ready \<Rightarrow> a' = a \<and> act = AskHealth (gw_connect_timeout (ap_gateway a)) \<and>
        (\<forall>backend. \<exists>depth. resume_ready backend a = Respond 200 (PDict [(''status'', PStr ''ready''),
           (''scheduler'', PStr (scheduler_type_value (gw_type (ap_gateway a)))), (''queue_depth'', PInt depth),
           (''vllm_backend'', PStr (if \<exists>status. backend = Inr status \<and> status < 500 then ''ok'' else ''unavailable''))]))
    | Some SchedulerStats \<Rightarrow> a' = a \<and> (\<exists>s. act = Respond 200 (stats_value (Some s, ss_queue_depth s)) \<and>
        ss_total_scheduled s = gw_next (ap_gateway a) \<and> ss_total_completed s = mt_success (gw_metrics (ap_gateway a)) \<and>
        ss_total_errors s = mt_error (gw_metrics (ap_gateway a)))
    | Some Metrics \<Rightarrow> a' = a \<and> act = RespondText (su_generate_latest X (gw_metrics (ap_gateway a)))
    | Some e \<Rightarrow> a' = a \<and> (\<exists>status. act = Respond 200 (PDict [(''status'', PStr status)]))"
proof -
  note sv = created_app [OF assms(1,2)]
  have s: "serving a" "ap_routes a = app_routes builtin" using app_reach_serving [OF assms(3) sv(1)] sv(2) by auto
  let ?e = "map_of fixed_routes (hr_method req, hr_path req)"
  have h: "(act, a') = (case ?e of Some e \<Rightarrow> serve X e req a
      | None \<Rightarrow> if hr_method req \<in> set proxy_methods then handle_proxy req a else (Refused 405, a))"
    using assms(8) app_routed [OF assms(4-6), of "hr_method req"] s(2) by (auto simp: app_handle_def split: option.splits)
  have path: "''/'' @ drop 1 (hr_path req) = hr_path req"
    using assms(5) append_take_drop_id [of 1 "hr_path req"] by (simp add: plain_path_def)
  have g: "state_gateway a = Inr (ap_gateway a)" "gw_client (ap_gateway a)" "gw_running (ap_gateway a)"
    and inv: "counts_ok (ap_gateway a)"
    using s(1) by (simp_all add: serving_def state_gateway_def gw_inv_def)
  obtain sc where sc: "gw_scheduler (ap_gateway a) = Some sc" "any_scheduled (gw_store (ap_gateway a), sc) = gw_next (ap_gateway a)"
    "any_finished True (gw_store (ap_gateway a), sc) = mt_success (gw_metrics (ap_gateway a))"
    "any_finished False (gw_store (ap_gateway a), sc) = mt_error (gw_metrics (ap_gateway a))"
    using inv by (auto simp: counts_ok_def)
  show ?thesis
  proof (cases ?e)
    case None
    with h path g show ?thesis by (auto simp: handle_proxy_def raise_or_def)
  next
    case (Some e)
    note e = fixed_endpoints [OF Some]
    from Some h have se: "serve X e req a = (act, a')" by simp
    show ?thesis
    proof (cases e)
      case ChatCompletions
      with Some se handle_chat_effect [OF s(1) assms(7), of act a'] show ?thesis by auto
    next
      case SchedulerStats
      with Some se g sc stats_total(1-3) [of sc "gw_store (ap_gateway a)"] stats_total(4) [of sc] show ?thesis
        by (auto simp: handle_stats_def raise_or_def gateway_stats_def intro!: exI [of _ "any_stats sc"])
    next
      case Ready
      with Some se g sc show ?thesis
        by (auto simp: handle_ready_def raise_or_def resume_ready_def ready_value_def ready_def Let_def split: sum.splits)
    qed (use Some se e in auto)
  qed
qed

text \<open>
  A serving application on the configuration \<^verbatim>\<open>scheduler: {type: fcfs}\<close>, with the router that takes
  the first match: \<^verbatim>\<open>GET /v1/models\<close> is forwarded, \<^verbatim>\<open>POST /health\<close> as well, \<^verbatim>\<open>PATCH\<close> is refused.
\<close>

definition first_match :: "route list \<Rightarrow> string \<Rightarrow> string \<Rightarrow> routed" where
  "first_match rs m p =
     (case find (full_match m p) rs of
        Some r \<Rightarrow> Endpoint (rt_endpoint r)
      | None \<Rightarrow> if \<exists>r \<in> set rs. path_match p (rt_path r) then MethodNotAllowed else NotFound)"

lemma first_match_in_order: "routes_in_order first_match"
proof -
  have "find P (pre @ r # post) = Some r" if "P r" "\<forall>x \<in> set pre. \<not> P x" for P pre post and r :: route
    using that by (induction pre) auto
  moreover have "find P rs = None" if "\<forall>x \<in> set rs. \<not> P x" for P and rs :: "route list"
    using that by (auto simp: find_None_iff)
  ultimately show ?thesis by (auto simp: routes_in_order_def first_match_def)
qed

definition sample_config :: pyval where
  "sample_config = PDict [(''scheduler'', PDict [(''type'', PStr ''fcfs'')])]"

definition sample_app :: "app pyres" where
  "sample_app = create_app (\<lambda>_. None) Inr (\<lambda>_. Inr sample_config) [] (\<lambda>_. sample_request ''none'' 0) ''configs/scheduler.yaml'' None"

definition plain_request :: "string \<Rightarrow> string \<Rightarrow> http_request" where
  "plain_request m p = \<lparr>hr_method = m, hr_path = p, hr_query = [], hr_json = Inl (ValueError ''JSON''), hr_body = [], hr_headers = []\<rparr>"

definition sample_surroundings :: surroundings where
  "sample_surroundings = \<lparr>su_fmt = (\<lambda>_. []), su_parse = (\<lambda>_. None), su_rid = ''a'', su_now = 0, su_clocks = some_clocks,
     su_generate_latest = (\<lambda>_. [])\<rparr>"

lemma sample_app_starts: "\<exists>a0 a1. sample_app = Inr a0 \<and> lifespan_enter (\<lambda>_. None) (sample_predictor 3) a0 = (None, a1)"
  by (simp add: sample_app_def sample_config_def create_app_def load_config_def mk_gateway_def scheduler_type_of_def
      lifespan_enter_def gateway_startup_def startup_predictor_def build_scheduler_def Let_def)

theorem app_serving_witness:
  "\<exists>a. fst (app_handle sample_surroundings first_match (plain_request ''GET'' ''/v1/models'') a) = Forward ''GET'' ''/v1/models'' [] [] \<and>
     fst (app_handle sample_surroundings first_match (plain_request ''POST'' ''/health'') a) = Forward ''POST'' ''/health'' [] [] \<and>
     fst (app_handle sample_surroundings first_match (plain_request ''PATCH'' ''/health'') a) = Refused 405"
proof -
  obtain a0 a where a: "sample_app = Inr a0" "lifespan_enter (\<lambda>_. None) (sample_predictor 3) a0 = (None, a)"
    using sample_app_starts by blast
  have fr: "fresh_chat sample_surroundings (plain_request m p) g" for m p g by (simp add: fresh_chat_def plain_request_def)
  have at: "plain_path (hr_path (plain_request m (CHR ''/'' # q)))" if "CHR 0x0A \<notin> set q" for m q
    using that by (simp add: plain_path_def plain_request_def)
  have fa: "framework_apart [] (hr_path (plain_request m p))" for m p by (simp add: framework_apart_def)
  note use = app_serving [OF a(1) [unfolded sample_app_def] a(2) rtranclp.rtrancl_refl first_match_in_order at fa fr
      prod.collapse [symmetric]]
  have "fst (app_handle sample_surroundings first_match (plain_request ''GET'' ''/v1/models'') a) = Forward ''GET'' ''/v1/models'' [] []"
    using use [of "''v1/models''" "''GET''"] by (simp add: fixed_routes_def proxy_methods_def plain_request_def)
  moreover have "fst (app_handle sample_surroundings first_match (plain_request ''POST'' ''/health'') a) = Forward ''POST'' ''/health'' [] []"
    using use [of "''health''" "''POST''"] by (simp add: fixed_routes_def proxy_methods_def plain_request_def)
  moreover have "fst (app_handle sample_surroundings first_match (plain_request ''PATCH'' ''/health'') a) = Refused 405"
    using use [of "''health''" "''PATCH''"] by (simp add: fixed_routes_def proxy_methods_def plain_request_def)
  ultimately show ?thesis by blast
qed


text \<open>
  C10: the application outside its lifespan. Without its configuration file it cannot be created,
  even around a given gateway. Before the start, and after a start that failed, \<^verbatim>\<open>/health\<close>, \<^verbatim>\<open>/live\<close>
  and \<^verbatim>\<open>/metrics\<close> answer while every other handler raises an \<^verbatim>\<open>AttributeError\<close> (a chat request with a
  malformed body raises the error of the JSON parser first). After a regular stop the proxy raises an
  \<^verbatim>\<open>AssertionError\<close>, \<^verbatim>\<open>/ready\<close> reports \<^verbatim>\<open>starting\<close>, and a chat request that is still accepted is never
  dispatched.
\<close>

theorem app_outside_lifespan:
  assumes "create_app parse open_file safe_load builtin st path None = Inr a0"
    and "routes_in_order router" and "plain_path (hr_path req)" and "framework_apart builtin (hr_path req)"
  shows "(open_file path' = Inl e \<longrightarrow> create_app parse open_file safe_load builtin st path' gw = Inl e) \<and>
    (\<forall>a. a = a0 \<or> (\<exists>e. lifespan_enter ckpt fresh a0 = (Some e, a)) \<longrightarrow>
       app_handle X router req a =
         (case map_of fixed_routes (hr_method req, hr_path req) of
            Some Health \<Rightarrow> (Respond 200 (PDict [(''status'', PStr ''ok'')]), a)
          | Some Live \<Rightarrow> (Respond 200 (PDict [(''status'', PStr ''alive'')]), a)
          | Some Metrics \<Rightarrow> (RespondText (su_generate_latest X (gw_metrics (ap_gateway a))), a)
          | Some ChatCompletions \<Rightarrow> (Raised (case hr_json req of Inl e \<Rightarrow> e | Inr _ \<Rightarrow> AttributeError), a)
          | Some _ \<Rightarrow> (Raised AttributeError, a)
          | None \<Rightarrow> (if hr_method req \<in> set proxy_methods then Raised AttributeError else Refused 405, a))) \<and>
    (\<forall>a1 a a2 backend ck. lifespan_enter ckpt fresh a0 = (None, a1) \<and> (app_step router)\<^sup>*\<^sup>* a1 a \<and> lifespan_exit a = (None, a2) \<longrightarrow>
       handle_proxy req a2 = (Raised AssertionError, a2) \<and>
       (\<exists>d. handle_ready a2 = (Respond 200 (PDict [(''status'', PStr ''starting''),
          (''scheduler'', PStr (scheduler_type_value (gw_type (ap_gateway a)))), (''queue_depth'', PInt d),
          (''vllm_backend'', PStr ''unavailable'')]), a2)) \<and>
       dispatch_pass ck (ap_gateway (snd (handle_chat X req a2))) = ap_gateway (snd (handle_chat X req a2)))"
proof (intro conjI allI impI)
  fix a1 a a2 ck
  assume "lifespan_enter ckpt fresh a0 = (None, a1) \<and> (app_step router)\<^sup>*\<^sup>* a1 a \<and> lifespan_exit a = (None, a2)"
  then have "serving a" "lifespan_exit a = (None, a2)" using app_reach_serving created_app(1) [OF assms(1)] by blast+
  note g = stopped_gateway [OF this]
  then show "handle_proxy req a2 = (Raised AssertionError, a2)"
    and "\<exists>d. handle_ready a2 = (Respond 200 (PDict [(''status'', PStr ''starting''),
          (''scheduler'', PStr (scheduler_type_value (gw_type (ap_gateway a)))), (''queue_depth'', PInt d),
          (''vllm_backend'', PStr ''unavailable'')]), a2)"
    by (simp_all add: handle_proxy_def handle_ready_def state_gateway_def raise_or_def ready_value_def ready_def)
  show "dispatch_pass ck (ap_gateway (snd (handle_chat X req a2))) = ap_gateway (snd (handle_chat X req a2))"
    using g(2) handle_chat_flags [of X req a2] by (intro idle_dispatch) simp
qed (simp add: create_app_def load_config_def,
    rule unattached_handle [OF assms(2-4) not_started_app [OF assms(1)]])

theorem app_outside_lifespan_witness:
  "\<exists>a. sample_app = Inr a \<and>
     app_handle sample_surroundings first_match (plain_request ''GET'' ''/v1/models'') a = (Raised AttributeError, a) \<and>
     app_handle sample_surroundings first_match (plain_request ''POST'' ''/v1/chat/completions'') a = (Raised (ValueError ''JSON''), a)"
proof -
  obtain a where a: "sample_app = Inr a" using sample_app_starts by blast
  have ok: "plain_path (hr_path (plain_request m p))" "framework_apart [] (hr_path (plain_request m p))"
    if "take 1 p = ''/''" "CHR 0x0A \<notin> set p" for m p
    using that by (simp_all add: plain_path_def plain_request_def framework_apart_def)
  note use = app_outside_lifespan [OF a [unfolded sample_app_def] first_match_in_order, THEN conjunct2, THEN conjunct1,
      THEN spec, THEN mp, OF _ _ disjI1 [OF refl]]
  have "app_handle sample_surroundings first_match (plain_request ''GET'' ''/v1/models'') a = (Raised AttributeError, a)"
    by (subst use) (simp_all add: ok fixed_routes_def proxy_methods_def, simp_all add: plain_request_def)
  moreover have "app_handle sample_surroundings first_match (plain_request ''POST'' ''/v1/chat/completions'') a =
      (Raised (ValueError ''JSON''), a)"
    by (subst use) (simp_all add: ok fixed_routes_def, simp_all add: plain_request_def)
  ultimately show ?thesis using a by blast
qed

end
