(* ===== verification/OutputModel.thy ===== *)
theory OutputModel
  imports Predictor Py_Text
begin

text \<open>
  The network of the output-length model, \<^verbatim>\<open>python/predictor/model.py\<close>: its parameters with their
  shapes, the layers in evaluation mode on one row (where dropout is the identity), the loading of
  a state dictionary, and the loss. The layers follow PyTorch's documentation; floats are reals.
\<close>

section \<open>Layers\<close>

definition linear :: "real list list \<Rightarrow> real list \<Rightarrow> real list \<Rightarrow> real list pyres" where
  "linear wt bias x =
     (if \<forall>r \<in> set wt. length r = length x then Inr (map2 (\<lambda>r b. sum_list (map2 (*) r x) + b) wt bias)
      else Inl (OtherError ''RuntimeError''))"

text \<open>\<^verbatim>\<open>nn.LayerNorm\<close> with its default \<^verbatim>\<open>eps\<close>, over a row that is not empty.\<close>

definition layer_norm :: "real list \<Rightarrow> real list \<Rightarrow> real list \<Rightarrow> real list" where
  "layer_norm gain shift x =
     (let n = real (length x); mu = sum_list x / n; var = sum_list (map (\<lambda>v. (v - mu)\<^sup>2) x) / n
      in map2 (\<lambda>v (g, s). (v - mu) / sqrt (var + 1 / 10 ^ 5) * g + s) x (zip gain shift))"

definition relu :: "real list \<Rightarrow> real list" where
  "relu = map (max 0)"

section \<open>The network\<close>

text \<open>The entries \<^verbatim>\<open>net.<i>.weight\<close> and \<^verbatim>\<open>net.<i>.bias\<close> of the state dictionary.\<close>

record mlp_state =
  net0_weight :: "real list list"
  net0_bias :: "real list"
  net1_weight :: "real list"
  net1_bias :: "real list"
  net4_weight :: "real list list"
  net4_bias :: "real list"
  net5_weight :: "real list"
  net5_bias :: "real list"
  net8_weight :: "real list list"
  net8_bias :: "real list"

definition matrix_shape :: "nat \<Rightarrow> nat \<Rightarrow> real list list \<Rightarrow> bool" where
  "matrix_shape rows cols m \<longleftrightarrow> length m = rows \<and> (\<forall>r \<in> set m. length r = cols)"

text \<open>The shapes that the constructor declares, which \<^verbatim>\<open>load_state_dict\<close> insists on.\<close>

definition mlp_shape :: "model_config \<Rightarrow> mlp_state \<Rightarrow> bool" where
  "mlp_shape c s \<longleftrightarrow>
     (let h = mc_hidden_dim c; k = h div 2
      in matrix_shape h (mc_input_dim c) (net0_weight s) \<and> length (net0_bias s) = h \<and>
         length (net1_weight s) = h \<and> length (net1_bias s) = h \<and>
         matrix_shape k h (net4_weight s) \<and> length (net4_bias s) = k \<and>
         length (net5_weight s) = k \<and> length (net5_bias s) = k \<and>
         matrix_shape 1 k (net8_weight s) \<and> length (net8_bias s) = 1)"

text \<open>\<^verbatim>\<open>self.net(x).squeeze(-1)\<close>; the last layer has one output.\<close>

definition net_forward :: "mlp_state \<Rightarrow> network" where
  "net_forward s x =
     bind_res (linear (net0_weight s) (net0_bias s) x) (\<lambda>a.
     bind_res (linear (net4_weight s) (net4_bias s) (relu (layer_norm (net1_weight s) (net1_bias s) a))) (\<lambda>b.
     bind_res (linear (net8_weight s) (net8_bias s) (relu (layer_norm (net5_weight s) (net5_bias s) b))) (\<lambda>y.
       Inr (hd y))))"

definition load_state_dict :: "model_config \<Rightarrow> mlp_state \<Rightarrow> network pyres" where
  "load_state_dict c s = (if mlp_shape c s then Inr (net_forward s) else Inl (OtherError ''RuntimeError''))"

text \<open>\<^verbatim>\<open>OutputLengthMLP.predict\<close>: evaluation mode, then the forward pass.\<close>

definition mlp_predict :: "model_config \<Rightarrow> mlp_state \<Rightarrow> real list \<Rightarrow> real pyres" where
  "mlp_predict c s x = mlp_forward c (net_forward s) x"

text \<open>\<^verbatim>\<open>OutputLengthPredictor.predict_batch\<close>, with the clock readings of every prediction.\<close>

definition predict_batch :: "predictor \<Rightarrow> (real \<times> real) list \<Rightarrow> string list \<Rightarrow> prediction_result list pyres" where
  "predict_batch p clocks prompts = map_res (\<lambda>((t0, t1), s). predict p t0 t1 s) (zip clocks prompts)"

section \<open>Loss\<close>

definition huber :: "real \<Rightarrow> real \<Rightarrow> real \<Rightarrow> real" where
  "huber delta p y = (let d = \<bar>p - y\<bar> in if d \<le> delta then d\<^sup>2 / 2 else delta * (d - delta / 2))"

text \<open>The default reduction is the mean.\<close>

definition huber_loss :: "real list \<Rightarrow> real list \<Rightarrow> real \<Rightarrow> real" where
  "huber_loss pred target delta = sum_list (map2 (huber delta) pred target) / real (length pred)"

section \<open>Facts\<close>

lemma linear_total: "matrix_shape n (length x) w \<Longrightarrow> length b = n \<Longrightarrow> \<exists>y. linear w b x = Inr y \<and> length y = n"
  by (simp add: linear_def matrix_shape_def)

lemma layer_norm_length: "length g = length x \<Longrightarrow> length s = length x \<Longrightarrow> length (layer_norm g s x) = length x"
  by (simp add: layer_norm_def Let_def)

lemma relu_length [simp]: "length (relu x) = length x"
  by (simp add: relu_def)

text \<open>A loaded network accepts exactly the rows of its input width.\<close>

lemma net_forward_outcome:
  assumes "mlp_shape c s" and "0 < mc_hidden_dim c"
  shows "if length x = mc_input_dim c then \<exists>y. net_forward s x = Inr y
    else net_forward s x = Inl (OtherError ''RuntimeError'')"
proof (cases "length x = mc_input_dim c")
  case True
  let ?h = "mc_hidden_dim c"
  note sh = assms(1) [unfolded mlp_shape_def Let_def]
  obtain a where a: "linear (net0_weight s) (net0_bias s) x = Inr a" "length a = ?h"
    using linear_total [of ?h x] sh True by auto
  let ?a = "relu (layer_norm (net1_weight s) (net1_bias s) a)"
  have "length ?a = ?h" using sh a(2) by (simp add: layer_norm_length)
  then obtain b where b: "linear (net4_weight s) (net4_bias s) ?a = Inr b" "length b = ?h div 2"
    using linear_total [of "?h div 2" ?a] sh by auto
  let ?b = "relu (layer_norm (net5_weight s) (net5_bias s) b)"
  have "length ?b = ?h div 2" using sh b(2) by (simp add: layer_norm_length)
  then obtain y where "linear (net8_weight s) (net8_bias s) ?b = Inr y"
    using linear_total [of 1 ?b] sh by auto
  with a b True show ?thesis by (simp add: net_forward_def)
next
  case False
  have "net0_weight s \<noteq> []" "\<forall>r \<in> set (net0_weight s). length r = mc_input_dim c"
    using assms by (auto simp: mlp_shape_def Let_def matrix_shape_def)
  then obtain r where "r \<in> set (net0_weight s)" "length r \<noteq> length x" using False by (cases "net0_weight s") auto
  with False show ?thesis by (auto simp: net_forward_def linear_def)
qed

text \<open>The shapes determine the hidden width.\<close>

lemma mlp_shape_width: "mlp_shape c s \<Longrightarrow> mlp_shape c' s \<Longrightarrow> mc_hidden_dim c = mc_hidden_dim c'"
  by (simp add: mlp_shape_def Let_def)

text \<open>The loss is never negative, zero exactly for equal values, and at most half the squared error.\<close>

lemma huber_bounds:
  assumes "0 < delta"
  shows "0 \<le> huber delta p y \<and> huber delta p y \<le> (p - y)\<^sup>2 / 2 \<and> (huber delta p y = 0 \<longleftrightarrow> p = y)"
proof (cases "\<bar>p - y\<bar> \<le> delta")
  case True
  then show ?thesis by (simp add: huber_def Let_def)
next
  case False
  let ?d = "\<bar>p - y\<bar>"
  have "0 \<le> (?d - delta)\<^sup>2" by simp
  then have "delta * (?d - delta / 2) \<le> ?d\<^sup>2 / 2" by (simp add: power2_eq_square field_simps)
  moreover have "0 < delta * (?d - delta / 2)" using False assms by (intro mult_pos_pos) simp_all
  ultimately show ?thesis using False by (auto simp: huber_def Let_def)
qed

text \<open>A state of a given shape, all zero except the last bias.\<close>

definition constant_state :: "model_config \<Rightarrow> real \<Rightarrow> mlp_state" where
  "constant_state c v =
     (let h = mc_hidden_dim c; k = h div 2
      in \<lparr>net0_weight = replicate h (replicate (mc_input_dim c) 0), net0_bias = replicate h 0,
          net1_weight = replicate h 1, net1_bias = replicate h 0,
          net4_weight = replicate k (replicate h 0), net4_bias = replicate k 0,
          net5_weight = replicate k 1, net5_bias = replicate k 0,
          net8_weight = [replicate k 0], net8_bias = [v]\<rparr>)"

lemma constant_state_shape: "mlp_shape c (constant_state c v)"
  by (simp add: mlp_shape_def constant_state_def matrix_shape_def Let_def)

end
