(* ===== verification/SmolLM3.thy ===== *)
theory SmolLM3
  imports Py_Text
begin

text \<open>
  The vLLM port of SmolLM3, \<^verbatim>\<open>vllm_port/smollm3.py\<close>: which layers rotate queries and keys, the
  head counts, the residual stream of the decoder stack in its vLLM and in its standalone form,
  and the loading of checkpoint weights by name. Tensor kernels (projections, norms, rotary
  embedding, attention, the weight loaders) are vLLM's or PyTorch's and are arguments.
\<close>

section \<open>Configuration\<close>

text \<open>\<^verbatim>\<open>_cfg\<close>: a dictionary's entry or an object's attribute, with a default.\<close>

datatype hf_config = CfgDict "(string, pyval) dict" | CfgObj "string \<Rightarrow> pyval option"

fun cfg :: "hf_config \<Rightarrow> string \<Rightarrow> pyval \<Rightarrow> pyval" where
  "cfg (CfgDict d) k dflt = (case dict_get d k of None \<Rightarrow> dflt | Some v \<Rightarrow> v)"
| "cfg (CfgObj f) k dflt = (case f k of None \<Rightarrow> dflt | Some v \<Rightarrow> v)"

text \<open>Integer operands; \<^verbatim>\<open>//\<close> and \<^verbatim>\<open>%\<close> round towards minus infinity and raise on zero.\<close>

fun as_int :: "pyval \<Rightarrow> int pyres" where
  "as_int (PInt i) = Inr i"
| "as_int (PBool b) = Inr (if b then 1 else 0)"
| "as_int _ = Inl TypeError"

definition py_floordiv :: "int \<Rightarrow> int \<Rightarrow> int pyres" where
  "py_floordiv a b = (if b = 0 then Inl (OtherError ''ZeroDivisionError'') else Inr (a div b))"

definition py_mod :: "int \<Rightarrow> int \<Rightarrow> int pyres" where
  "py_mod a b = (if b = 0 then Inl (OtherError ''ZeroDivisionError'') else Inr (a mod b))"

section \<open>Attention\<close>

record attention =
  at_hidden_size :: int
  at_num_heads :: int
  at_num_kv_heads :: int
  at_head_dim :: int
  at_scaling :: real
  at_use_rope :: bool

definition use_rope :: "int \<Rightarrow> int \<Rightarrow> bool pyres" where
  "use_rope layer_idx nope_interval =
     bind_res (py_mod layer_idx nope_interval) (\<lambda>m. Inr (m \<noteq> nope_interval - 1))"

text \<open>
  \<^verbatim>\<open>SmolLM3Attention.__init__\<close>: \<open>tp\<close> is the tensor-parallel world size inside vLLM and \<open>None\<close>
  standalone. The default of \<^verbatim>\<open>head_dim\<close> is computed even when the key is present, and
  \<^verbatim>\<open>head_dim**-0.5\<close> raises for 0. Head sizes are not negative: Python would compute a complex
  scaling there.
\<close>

definition head_scaling :: "int \<Rightarrow> real pyres" where
  "head_scaling head_dim =
     (if head_dim = 0 then Inl (OtherError ''ZeroDivisionError'') else Inr (1 / sqrt (real_of_int head_dim)))"

definition attention_init :: "int option \<Rightarrow> hf_config \<Rightarrow> int \<Rightarrow> attention pyres" where
  "attention_init tp config layer_idx =
     bind_res (as_int (cfg config ''hidden_size'' (PInt 2048))) (\<lambda>hidden.
     bind_res (as_int (cfg config ''num_attention_heads'' (PInt 32))) (\<lambda>heads.
     bind_res (as_int (cfg config ''num_key_value_heads'' (PInt 8))) (\<lambda>kv.
     bind_res (py_floordiv hidden heads) (\<lambda>dflt.
     bind_res (as_int (cfg config ''head_dim'' (PInt dflt))) (\<lambda>head_dim.
     bind_res (head_scaling head_dim) (\<lambda>scaling.
     bind_res (as_int (cfg config ''nope_layer_interval'' (PInt 2))) (\<lambda>nope.
     bind_res (use_rope layer_idx nope) (\<lambda>rope.
       case tp of
         None \<Rightarrow> Inr \<lparr>at_hidden_size = hidden, at_num_heads = heads, at_num_kv_heads = kv,
                      at_head_dim = head_dim, at_scaling = scaling, at_use_rope = rope\<rparr>
       | Some n \<Rightarrow>
           bind_res (py_floordiv heads n) (\<lambda>h.
           bind_res (py_floordiv kv n) (\<lambda>k.
             Inr \<lparr>at_hidden_size = hidden, at_num_heads = h, at_num_kv_heads = max 1 k,
                  at_head_dim = head_dim, at_scaling = scaling, at_use_rope = rope\<rparr>))))))))))"

text \<open>\<^verbatim>\<open>qkv.split([a, b, c], dim=-1)\<close>: the sizes must add up.\<close>

definition split3 :: "nat \<Rightarrow> nat \<Rightarrow> nat \<Rightarrow> 'a list \<Rightarrow> ('a list \<times> 'a list \<times> 'a list) pyres" where
  "split3 a b c xs =
     (if length xs = a + b + c then Inr (take a xs, take b (drop a xs), drop (a + b) xs)
      else Inl (OtherError ''split_with_sizes''))"

text \<open>The forward pass inside vLLM, for one token's hidden state.\<close>

definition attention_forward ::
  "attention \<Rightarrow> ('h \<Rightarrow> 'a list) \<Rightarrow> ('pos \<Rightarrow> 'a list \<Rightarrow> 'a list \<Rightarrow> 'a list \<times> 'a list) \<Rightarrow>
   ('a list \<Rightarrow> 'a list \<Rightarrow> 'a list \<Rightarrow> 'b) \<Rightarrow> ('b \<Rightarrow> 'h) \<Rightarrow> 'pos \<Rightarrow> 'h \<Rightarrow> 'h pyres" where
  "attention_forward a qkv_proj rotary attn o_proj positions h =
     bind_res (split3 (nat (at_num_heads a * at_head_dim a)) (nat (at_num_kv_heads a * at_head_dim a))
         (nat (at_num_kv_heads a * at_head_dim a)) (qkv_proj h)) (\<lambda>(q, k, v).
       let (q, k) = (if at_use_rope a then rotary positions q k else (q, k))
       in Inr (o_proj (attn q k v)))"

text \<open>\<^verbatim>\<open>repeat_interleave\<close> of the key and value heads in the standalone form.\<close>

definition gqa_expand :: "nat \<Rightarrow> 'a list \<Rightarrow> 'a list" where
  "gqa_expand n heads = concat (map (replicate n) heads)"

section \<open>The decoder stack\<close>

text \<open>
  A layer's sublayers on the residual stream. \<open>dl_norm1\<close> and \<open>dl_norm2\<close> are the plain norms,
  \<open>dl_fused1\<close> and \<open>dl_fused2\<close> vLLM's fused form, which adds the residual first and returns the
  normed value and the new residual.
\<close>

record ('v, 'c) decoder_layer =
  dl_attn :: "'c option \<Rightarrow> 'v \<Rightarrow> 'v"
  dl_mlp :: "'v \<Rightarrow> 'v"
  dl_norm1 :: "'v \<Rightarrow> 'v"
  dl_norm2 :: "'v \<Rightarrow> 'v"
  dl_fused1 :: "'v \<Rightarrow> 'v \<Rightarrow> 'v \<times> 'v"
  dl_fused2 :: "'v \<Rightarrow> 'v \<Rightarrow> 'v \<times> 'v"

definition layer_forward ::
  "bool \<Rightarrow> ('v :: ab_group_add, 'c) decoder_layer \<Rightarrow> 'v \<Rightarrow> 'c option \<Rightarrow> 'v option \<Rightarrow> 'v \<times> 'v" where
  "layer_forward vllm l hidden kv_cache residual =
     (let (h1, r1) =
            (if vllm
             then (case residual of
                     None \<Rightarrow> (dl_norm1 l hidden, hidden)
                   | Some r \<Rightarrow> dl_fused1 l hidden r)
             else (case residual of
                     None \<Rightarrow> (dl_norm1 l hidden, hidden)
                   | Some r \<Rightarrow> (let h = hidden + r in (dl_norm1 l h, h))));
          h2 = dl_attn l kv_cache h1;
          (h3, r3) = (if vllm then dl_fused2 l h2 r1 else (let h = h2 + r1 in (dl_norm2 l h, h)))
      in (dl_mlp l h3, r3))"

text \<open>
  \<^verbatim>\<open>kv_caches[i] if kv_caches else None\<close>: no caches and an empty list are alike, a list that is too
  short raises.
\<close>

definition kv_cache_at :: "'c list \<Rightarrow> nat \<Rightarrow> 'c option pyres" where
  "kv_cache_at kv i =
     (if kv = [] then Inr None else if i < length kv then Inr (Some (kv ! i)) else Inl IndexError)"

fun layers_forward ::
  "bool \<Rightarrow> 'c list \<Rightarrow> nat \<Rightarrow> ('v :: ab_group_add, 'c) decoder_layer list \<Rightarrow> 'v \<Rightarrow> 'v option \<Rightarrow> ('v \<times> 'v option) pyres" where
  "layers_forward vllm kv i [] hidden residual = Inr (hidden, residual)"
| "layers_forward vllm kv i (l # ls) hidden residual =
     bind_res (kv_cache_at kv i) (\<lambda>c.
       case layer_forward vllm l hidden c residual of (h, r) \<Rightarrow> layers_forward vllm kv (Suc i) ls h (Some r))"

text \<open>
  \<^verbatim>\<open>SmolLM3Model.forward\<close> with the embedding, the final norm and its fused form as arguments;
  without layers the fused final norm gets no residual and its result is no pair.
\<close>

definition model_forward ::
  "bool \<Rightarrow> ('i \<Rightarrow> 'v) \<Rightarrow> ('v :: ab_group_add \<Rightarrow> 'v) \<Rightarrow> ('v \<Rightarrow> 'v \<Rightarrow> 'v \<times> 'v) \<Rightarrow> ('v, 'c) decoder_layer list \<Rightarrow>
   'i \<Rightarrow> 'c list \<Rightarrow> 'v option \<Rightarrow> 'v pyres" where
  "model_forward vllm emb nrm fused layers input_ids kv_caches inputs_embeds =
     bind_res (layers_forward vllm kv_caches 0 layers
         (case inputs_embeds of Some e \<Rightarrow> e | None \<Rightarrow> emb input_ids) None) (\<lambda>(h, residual).
       if vllm
       then (case residual of None \<Rightarrow> Inl (ValueError ''unpack'') | Some r \<Rightarrow> Inr (fst (fused h r)))
       else Inr (nrm (h + (case residual of None \<Rightarrow> 0 | Some r \<Rightarrow> r))))"

text \<open>
  The architecture the comments describe, \<^verbatim>\<open>x + Attention(Norm(x))\<close>, then \<^verbatim>\<open>x + MLP(Norm(x))\<close>, and
  the stack of such blocks, each with its own cache.
\<close>

definition prenorm_block :: "('v :: ab_group_add, 'c) decoder_layer \<Rightarrow> 'c option \<Rightarrow> 'v \<Rightarrow> 'v" where
  "prenorm_block l c x =
     (let y = x + dl_attn l c (dl_norm1 l x) in y + dl_mlp l (dl_norm2 l y))"

fun prenorm_stack :: "'c list \<Rightarrow> nat \<Rightarrow> ('v :: ab_group_add, 'c) decoder_layer list \<Rightarrow> 'v \<Rightarrow> 'v" where
  "prenorm_stack kv i [] x = x"
| "prenorm_stack kv i (l # ls) x =
     prenorm_stack kv (Suc i) ls (prenorm_block l (if kv = [] then None else Some (kv ! i)) x)"

section \<open>Weights\<close>

datatype shard = ShardQ | ShardK | ShardV | ShardIdx nat

definition stacked_params_mapping :: "(string \<times> string \<times> shard) list" where
  "stacked_params_mapping =
     [(''q_proj'', ''qkv_proj'', ShardQ), (''k_proj'', ''qkv_proj'', ShardK), (''v_proj'', ''qkv_proj'', ShardV),
      (''gate_proj'', ''gate_up_proj'', ShardIdx 0), (''up_proj'', ''gate_up_proj'', ShardIdx 1)]"

text \<open>
  A parameter is the list of tensors its loader received, oldest first, each with its shard.
  \<open>lm_tied\<close> says that \<^verbatim>\<open>lm_head.weight\<close> is the embedding's parameter.
\<close>

type_synonym 'w params = "(string, (shard option \<times> 'w) list) dict"

record 'w causal_lm =
  lm_vllm :: bool
  lm_tie_word_embeddings :: bool
  lm_params :: "'w params"
  lm_tied :: bool

definition load_param :: "string \<Rightarrow> shard option \<Rightarrow> 'w \<Rightarrow> 'w params \<Rightarrow> 'w params" where
  "load_param key sh wt ps =
     (case dict_get ps key of None \<Rightarrow> ps | Some lg \<Rightarrow> dict_set key (lg @ [(sh, wt)]) ps)"

text \<open>The inner \<^verbatim>\<open>for\<close> loop: whether the weight was stacked, and the parameters after it.\<close>

fun try_stacked :: "bool \<Rightarrow> string \<Rightarrow> 'w \<Rightarrow> (string \<times> string \<times> shard) list \<Rightarrow> 'w params \<Rightarrow> bool \<times> 'w params" where
  "try_stacked vllm name wt [] ps = (False, ps)"
| "try_stacked vllm name wt ((suffix, vname, sh) # rest) ps =
     (if ends_with name suffix
      then (let key = py_replace suffix vname name
            in if dict_get ps key = None then (False, ps)
               else (True, if vllm then load_param key (Some sh) wt ps else ps))
      else try_stacked vllm name wt rest ps)"

definition load_one :: "string \<Rightarrow> 'w \<Rightarrow> 'w causal_lm \<Rightarrow> 'w causal_lm" where
  "load_one name wt m =
     (if name = ''lm_head.weight'' \<and> lm_tie_word_embeddings m then m
      else case try_stacked (lm_vllm m) name wt stacked_params_mapping (lm_params m) of
        (True, ps) \<Rightarrow> m\<lparr>lm_params := ps\<rparr>
      | (False, ps) \<Rightarrow> m\<lparr>lm_params := load_param name None wt ps\<rparr>)"

text \<open>Both modules have a \<^verbatim>\<open>weight\<close>, so the tying at the end depends on the flag only.\<close>

definition load_weights :: "(string \<times> 'w) list \<Rightarrow> 'w causal_lm \<Rightarrow> 'w causal_lm" where
  "load_weights weights m =
     (let m' = fold (\<lambda>(name, wt). load_one name wt) weights m
      in if lm_tie_word_embeddings m' then m'\<lparr>lm_tied := True\<rparr> else m')"

section \<open>Facts\<close>

lemma ends_with_iff: "ends_with s suf \<longleftrightarrow> (\<exists>p. s = p @ suf)"
proof
  assume "ends_with s suf"
  then have "s = take (length s - length suf) s @ suf"
    by (metis append_take_drop_id ends_with_def)
  then show "\<exists>p. s = p @ suf" by blast
qed (auto simp: ends_with_def)

text \<open>A name that ends in \<^verbatim>\<open>.weight\<close> ends in none of the projection names.\<close>

lemma weight_name_not_stacked:
  assumes "(suf, v, sh) \<in> set stacked_params_mapping"
  shows "\<not> ends_with (p @ ''.weight'') suf"
proof
  assume "ends_with (p @ ''.weight'') suf"
  then obtain q where q: "p @ ''.weight'' = q @ suf" by (auto simp: ends_with_iff)
  have "last (q @ suf) = CHR ''t''" unfolding q [symmetric] by simp
  with assms show False by (auto simp: stacked_params_mapping_def)
qed

lemma try_stacked_weight:
  "\<forall>x \<in> set mp. \<not> ends_with name (fst x) \<Longrightarrow> try_stacked vllm name wt mp ps = (False, ps)"
  by (induction mp) auto

lemma load_one_weight_name:
  assumes "ends_with name ''.weight''"
  shows "load_one name wt m =
    (if name = ''lm_head.weight'' \<and> lm_tie_word_embeddings m then m
     else m\<lparr>lm_params := load_param name None wt (lm_params m)\<rparr>)"
proof -
  obtain p where p: "name = p @ ''.weight''" using assms by (auto simp: ends_with_iff)
  have "\<forall>x \<in> set stacked_params_mapping. \<not> ends_with name (fst x)"
    using weight_name_not_stacked unfolding p by fastforce
  then show ?thesis by (simp add: load_one_def try_stacked_weight)
qed

lemma load_param_get:
  "dict_get (load_param key sh wt ps) k =
     (case dict_get ps k of None \<Rightarrow> None
      | Some lg \<Rightarrow> Some (if k = key then lg @ [(sh, wt)] else lg))"
  by (auto simp: load_param_def dict_simps split: option.splits)

section \<open>Properties\<close>

lemma layer_forward_stream:
  assumes "\<And>h r. dl_fused1 l h r = (dl_norm1 l (h + r), h + r)"
    and "\<And>h r. dl_fused2 l h r = (dl_norm2 l (h + r), h + r)"
    and "layer_forward vllm l h c res = (h', r')"
  shows "h' + r' = prenorm_block l c (case res of None \<Rightarrow> h | Some r \<Rightarrow> h + r)"
  using assms
  by (auto simp: layer_forward_def prenorm_block_def Let_def algebra_simps split: option.splits if_splits)

lemma layers_forward_stream:
  assumes "\<forall>l \<in> set ls. (\<forall>h r. dl_fused1 l h r = (dl_norm1 l (h + r), h + r)) \<and>
      (\<forall>h r. dl_fused2 l h r = (dl_norm2 l (h + r), h + r))"
    and "kv = [] \<or> i + length ls \<le> length kv"
  shows "\<exists>h' res'. layers_forward vllm kv i ls h res = Inr (h', res') \<and> (ls \<noteq> [] \<or> res \<noteq> None \<longrightarrow> res' \<noteq> None) \<and>
    (case res' of None \<Rightarrow> h' | Some r \<Rightarrow> h' + r) = prenorm_stack kv i ls (case res of None \<Rightarrow> h | Some r \<Rightarrow> h + r)"
  using assms
proof (induction ls arbitrary: i h res)
  case (Cons l ls)
  let ?c = "if kv = [] then None else Some (kv ! i)"
  have c: "kv_cache_at kv i = Inr ?c" using Cons.prems(2) by (auto simp: kv_cache_at_def)
  obtain h1 r1 where l: "layer_forward vllm l h ?c res = (h1, r1)" by force
  have "h1 + r1 = prenorm_block l ?c (case res of None \<Rightarrow> h | Some r \<Rightarrow> h + r)"
    using layer_forward_stream [OF _ _ l] Cons.prems(1) by simp
  with Cons.IH [of "Suc i" h1 "Some r1"] Cons.prems l c show ?case by simp
qed auto

text \<open>
  C24: the decoder stack computes the pre-norm transformer. If vLLM's fused norms add the residual
  and return the normed sum with the sum (their documented behaviour), then for at least one
  layer and a cache per layer (or none) the vLLM path and the standalone path, which both carry
  the residual beside the hidden state, return the final norm of the same value: the plain
  composition of \<^verbatim>\<open>x + Attention(Norm(x))\<close> and \<^verbatim>\<open>x + MLP(Norm(x))\<close> over all layers, in order, each
  with its own cache, from the given embeddings or the embedded tokens.
\<close>

theorem decoder_stack_is_prenorm:
  assumes "\<forall>l \<in> set layers. (\<forall>h r. dl_fused1 l h r = (dl_norm1 l (h + r), h + r)) \<and>
      (\<forall>h r. dl_fused2 l h r = (dl_norm2 l (h + r), h + r))"
    and "\<forall>h r. fused h r = (nrm (h + r), h + r)" and "layers \<noteq> []"
    and "kv_caches = [] \<or> length layers \<le> length kv_caches"
  shows "model_forward vllm emb nrm fused layers input_ids kv_caches inputs_embeds =
    Inr (nrm (prenorm_stack kv_caches 0 layers (case inputs_embeds of Some e \<Rightarrow> e | None \<Rightarrow> emb input_ids)))"
proof -
  let ?x = "case inputs_embeds of Some e \<Rightarrow> e | None \<Rightarrow> emb input_ids"
  obtain h r where "layers_forward vllm kv_caches 0 layers ?x None = Inr (h, Some r)"
    "h + r = prenorm_stack kv_caches 0 layers ?x"
    using layers_forward_stream [OF assms(1), of kv_caches 0 vllm ?x None] assms(3,4) by auto
  with assms(2) show ?thesis by (simp add: model_forward_def)
qed

definition sample_layer :: "(int, int) decoder_layer" where
  "sample_layer = \<lparr>dl_attn = (\<lambda>c x. 2 * x + (case c of None \<Rightarrow> 0 | Some k \<Rightarrow> k)), dl_mlp = (\<lambda>x. x + 1), dl_norm1 = (\<lambda>x. x - 1),
     dl_norm2 = (\<lambda>x. 3 * x), dl_fused1 = (\<lambda>h r. (h + r - 1, h + r)), dl_fused2 = (\<lambda>h r. (3 * (h + r), h + r))\<rparr>"

theorem decoder_stack_is_prenorm_witness:
  "model_forward True (\<lambda>i. i) (\<lambda>x. - x) (\<lambda>h r. (- (h + r), h + r)) [sample_layer, sample_layer] 5 [1, 2] None =
     model_forward False (\<lambda>i. i) (\<lambda>x. - x) (\<lambda>h r. (- (h + r), h + r)) [sample_layer, sample_layer] 5 [1, 2] None \<and>
   model_forward True (\<lambda>i. i) (\<lambda>x. - x) (\<lambda>h r. (- (h + r), h + r)) [sample_layer, sample_layer] 5 [1, 2] None = Inr (- 685)"
proof -
  have l: "\<forall>l \<in> set [sample_layer, sample_layer]. (\<forall>h r. dl_fused1 l h r = (dl_norm1 l (h + r), h + r)) \<and>
      (\<forall>h r. dl_fused2 l h r = (dl_norm2 l (h + r), h + r))"
    by (simp add: sample_layer_def)
  have "prenorm_stack [1, 2] 0 [sample_layer, sample_layer] 5 = (685 :: int)" by code_simp
  with decoder_stack_is_prenorm [OF l, of "\<lambda>h r. (- (h + r), h + r)" "\<lambda>x. - x" "[1, 2]" _ "\<lambda>i. i" 5 None] show ?thesis by simp
qed

text \<open>
  A Hugging Face checkpoint never reaches the merged projections. Every tensor name of such a
  checkpoint ends in \<^verbatim>\<open>.weight\<close>, none ends in a projection's name, so nothing is ever stacked:
  a parameter receives exactly the tensors of its own name, in order (\<^verbatim>\<open>lm_head.weight\<close> excepted
  when it is tied). A merged parameter such as \<^verbatim>\<open>self_attn.qkv_proj.weight\<close> or
  \<^verbatim>\<open>mlp.gate_up_proj.weight\<close>, whose name the checkpoint does not have, receives nothing, and
  the tensors of the separate projections are dropped without an error.
\<close>

theorem merged_projections_never_loaded:
  assumes "\<forall>(name, wt) \<in> set weights. ends_with name ''.weight''"
    and "dict_get (lm_params m) key = Some lg"
  shows "dict_get (lm_params (load_weights weights m)) key =
    Some (lg @ map (\<lambda>(name, wt). (None, wt))
      (filter (\<lambda>(name, wt). name = key \<and> \<not> (name = ''lm_head.weight'' \<and> lm_tie_word_embeddings m)) weights))"
proof -
  let ?load = "\<lambda>(name, wt). load_one name wt"
  have "dict_get (lm_params (fold ?load weights m)) key =
      Some (lg @ map (\<lambda>(name, wt). (None, wt))
        (filter (\<lambda>(name, wt). name = key \<and> \<not> (name = ''lm_head.weight'' \<and> lm_tie_word_embeddings m)) weights)) \<and>
      lm_tie_word_embeddings (fold ?load weights m) = lm_tie_word_embeddings m"
    using assms
  proof (induction weights arbitrary: m lg)
    case Nil
    then show ?case by simp
  next
    case (Cons x weights)
    obtain name wt where x: "x = (name, wt)" by force
    have e: "ends_with name ''.weight''" using Cons.prems(1) x by simp
    note l = load_one_weight_name [OF e, of wt m]
    have t: "lm_tie_word_embeddings (load_one name wt m) = lm_tie_word_embeddings m" using l by simp
    have "dict_get (lm_params (load_one name wt m)) key =
        Some (lg @ (if name = key \<and> \<not> (name = ''lm_head.weight'' \<and> lm_tie_word_embeddings m) then [(None, wt)] else []))"
      using l Cons.prems(2) by (auto simp: load_param_get)
    from Cons.IH [OF _ this] Cons.prems(1) x t show ?case by auto
  qed
  then show ?thesis by (simp add: load_weights_def Let_def)
qed

definition sample_lm :: "nat causal_lm" where
  "sample_lm = \<lparr>lm_vllm = True, lm_tie_word_embeddings = True,
     lm_params = [(''model.embed_tokens.weight'', []), (''model.layers.0.self_attn.qkv_proj.weight'', [])],
     lm_tied = False\<rparr>"

theorem merged_projections_never_loaded_witness:
  "dict_get (lm_params (load_weights [(''model.embed_tokens.weight'', 1), (''model.layers.0.self_attn.q_proj.weight'', 2),
     (''model.layers.0.self_attn.k_proj.weight'', 3), (''model.layers.0.self_attn.v_proj.weight'', 4)] sample_lm))
     ''model.layers.0.self_attn.qkv_proj.weight'' = Some []"
proof -
  let ?ws = "[(''model.embed_tokens.weight'', 1), (''model.layers.0.self_attn.q_proj.weight'', 2),
     (''model.layers.0.self_attn.k_proj.weight'', 3), (''model.layers.0.self_attn.v_proj.weight'', 4)] :: (string \<times> nat) list"
  have "\<forall>(name, wt) \<in> set ?ws. ends_with name ''.weight''" by (simp add: ends_with_def)
  moreover have "dict_get (lm_params sample_lm) ''model.layers.0.self_attn.qkv_proj.weight'' = Some []"
    by (simp add: sample_lm_def)
  ultimately show ?thesis using merged_projections_never_loaded [of ?ws sample_lm] by simp
qed

lemma use_rope_iff:
  assumes "0 < n"
  shows "use_rope (int i) (int n) = Inr (\<not> n dvd Suc i)"
proof -
  have "int i mod int n = int (i mod n)" "int n - 1 = int (n - 1)"
    using assms by (simp_all add: of_nat_mod of_nat_diff)
  then have "(int i mod int n \<noteq> int n - 1) = (Suc (i mod n) \<noteq> n)" using assms by linarith
  also have "\<dots> = (\<not> n dvd Suc i)" by (auto simp: mod_Suc dvd_eq_mod_eq_0)
  finally show ?thesis using assms by (simp add: use_rope_def py_mod_def)
qed

lemma attention_init_rope:
  "attention_init tp config i = Inr a \<Longrightarrow> as_int (cfg config ''nope_layer_interval'' (PInt 2)) = Inr n \<Longrightarrow>
   use_rope i n = Inr (at_use_rope a)"
  by (auto simp: attention_init_def bind_res_Inr_iff split: option.splits)

end
