(* ===== verification/SmolLM3Modules.thy ===== *)
theory SmolLM3Modules
  imports SmolLM3
begin

text \<open>
  The modules of the vLLM port of SmolLM3, \<^verbatim>\<open>vllm_port/smollm3.py\<close>: the SwiGLU network, the
  grouped-query attention of the standalone form, the construction of the layers from a
  configuration, and the head of the causal model. Linear projections and the kernels of vLLM are
  arguments; a standalone tensor is modelled for one element of the batch, as a list of rows, and
  floats are reals.
\<close>

section \<open>Feed-forward network\<close>

definition silu :: "real \<Rightarrow> real" where
  "silu x = x / (1 + exp (- x))"

text \<open>\<^verbatim>\<open>chunk(2, dim=-1)\<close>, unpacked into two variables: one column gives a single chunk.\<close>

definition chunk2 :: "'a list \<Rightarrow> ('a list \<times> 'a list) pyres" where
  "chunk2 xs =
     (if length xs = 1 then Inl (ValueError ''not enough values to unpack'')
      else let c = (length xs + 1) div 2 in Inr (take c xs, drop c xs))"

text \<open>The elementwise product of rows, with broadcasting.\<close>

definition mul_rows :: "real list \<Rightarrow> real list \<Rightarrow> real list pyres" where
  "mul_rows xs ys =
     (if length xs = length ys then Inr (map2 (*) xs ys)
      else if length ys = 1 then Inr (map (\<lambda>x. x * hd ys) xs)
      else if length xs = 1 then Inr (map (\<lambda>y. hd xs * y) ys)
      else Inl (OtherError ''RuntimeError''))"

text \<open>\<^verbatim>\<open>SmolLM3MLP\<close>: the sizes of its two projections (input and output) and its forward pass.\<close>

record smol_mlp =
  ml_gate_up_proj :: "int \<times> int"
  ml_down_proj :: "int \<times> int"

definition mlp_init :: "int \<Rightarrow> int \<Rightarrow> smol_mlp" where
  "mlp_init hidden_size intermediate_size =
     \<lparr>ml_gate_up_proj = (hidden_size, intermediate_size * 2), ml_down_proj = (intermediate_size, hidden_size)\<rparr>"

definition swiglu_forward ::
  "bool \<Rightarrow> ('h \<Rightarrow> real list) \<Rightarrow> (real list \<Rightarrow> real list) \<Rightarrow> (real list \<Rightarrow> 'h) \<Rightarrow> 'h \<Rightarrow> 'h pyres" where
  "swiglu_forward vllm gate_up_proj act_fn down_proj x =
     (if vllm then Inr (down_proj (act_fn (gate_up_proj x)))
      else bind_res (chunk2 (gate_up_proj x)) (\<lambda>(gate, up).
           bind_res (mul_rows (map silu gate) up) (\<lambda>y. Inr (down_proj y))))"

section \<open>Standalone attention\<close>

text \<open>The part of a projected row that belongs to head \<open>h\<close>, and \<^verbatim>\<open>view(b, s, n, d).transpose(1, 2)\<close>.\<close>

definition head_slice :: "nat \<Rightarrow> nat \<Rightarrow> 'a list \<Rightarrow> 'a list" where
  "head_slice d h row = take d (drop (h * d) row)"

definition to_heads :: "nat \<Rightarrow> nat \<Rightarrow> 'a list list \<Rightarrow> 'a list list list pyres" where
  "to_heads n d rows =
     (if \<forall>row \<in> set rows. length row = n * d
      then Inr (map (\<lambda>h. map (head_slice d h) rows) [0..<n])
      else Inl (OtherError ''RuntimeError''))"

definition dot :: "real list \<Rightarrow> real list \<Rightarrow> real" where
  "dot xs ys = sum_list (map2 (*) xs ys)"

definition softmax :: "real list \<Rightarrow> real list" where
  "softmax xs = map (\<lambda>x. exp x / sum_list (map exp xs)) xs"

text \<open>One query of one head against all its keys and values, of \<open>d\<close> columns.\<close>

definition attend :: "nat \<Rightarrow> real \<Rightarrow> real list \<Rightarrow> real list list \<Rightarrow> real list list \<Rightarrow> real list" where
  "attend d scaling q ks vs =
     (let ws = softmax (map (\<lambda>k. dot q k * scaling) ks)
      in map (\<lambda>c. sum_list (map2 (\<lambda>w v. w * v ! c) ws vs)) [0..<d])"

text \<open>
  The standalone branch of \<^verbatim>\<open>SmolLM3Attention.forward\<close>. The product of queries and keys needs as
  many expanded key heads as query heads, and \<^verbatim>\<open>reshape(b, s, -1)\<close> cannot infer the last size of
  an empty sequence. No mask and no rotation is applied.
\<close>

definition standalone_attention ::
  "attention \<Rightarrow> ('h \<Rightarrow> real list) \<Rightarrow> ('h \<Rightarrow> real list) \<Rightarrow> ('h \<Rightarrow> real list) \<Rightarrow> (real list \<Rightarrow> 'h) \<Rightarrow> 'h list \<Rightarrow> 'h list pyres" where
  "standalone_attention a q_proj k_proj v_proj o_proj hs =
     (let n = nat (at_num_heads a); kv = nat (at_num_kv_heads a); d = nat (at_head_dim a)
      in bind_res (to_heads n d (map q_proj hs)) (\<lambda>q.
         bind_res (to_heads kv d (map k_proj hs)) (\<lambda>k.
         bind_res (to_heads kv d (map v_proj hs)) (\<lambda>v.
         bind_res (py_floordiv (at_num_heads a) (at_num_kv_heads a)) (\<lambda>repeat.
           let k = gqa_expand (nat repeat) k; v = gqa_expand (nat repeat) v
           in if length k \<noteq> n \<or> hs = [] then Inl (OtherError ''RuntimeError'')
              else Inr (map (\<lambda>i. o_proj (concat (map (\<lambda>h. attend d (at_scaling a) (q ! h ! i) (k ! h) (v ! h)) [0..<n])))
                     [0..<length hs]))))))"

section \<open>Construction\<close>

text \<open>\<^verbatim>\<open>SmolLM3DecoderLayer.__init__\<close> and \<^verbatim>\<open>SmolLM3Model.__init__\<close>, without the norms.\<close>

definition layer_init :: "int option \<Rightarrow> hf_config \<Rightarrow> int \<Rightarrow> (attention \<times> smol_mlp) pyres" where
  "layer_init tp config layer_idx =
     bind_res (as_int (cfg config ''hidden_size'' (PInt 2048))) (\<lambda>hidden_size.
     bind_res (attention_init tp config layer_idx) (\<lambda>self_attn.
     bind_res (as_int (cfg config ''intermediate_size'' (PInt 8192))) (\<lambda>intermediate_size.
       Inr (self_attn, mlp_init hidden_size intermediate_size))))"

record smol_model =
  mo_embed_tokens :: "int \<times> int"
  mo_layers :: "(attention \<times> smol_mlp) list"

definition model_init :: "int option \<Rightarrow> hf_config \<Rightarrow> smol_model pyres" where
  "model_init tp config =
     bind_res (as_int (cfg config ''hidden_size'' (PInt 2048))) (\<lambda>hidden_size.
     bind_res (as_int (cfg config ''vocab_size'' (PInt 49152))) (\<lambda>vocab_size.
     bind_res (as_int (cfg config ''num_hidden_layers'' (PInt 32))) (\<lambda>num_layers.
     bind_res (map_res (\<lambda>i. layer_init tp config (int i)) [0..<nat num_layers]) (\<lambda>layers.
       Inr \<lparr>mo_embed_tokens = (vocab_size, hidden_size), mo_layers = layers\<rparr>))))"

text \<open>
  \<^verbatim>\<open>SmolLM3ForCausalLM\<close>: \<open>params\<close> are the named parameters of the modules before loading; then
  \<^verbatim>\<open>compute_logits\<close> and \<^verbatim>\<open>sample\<close>.
\<close>

definition causal_lm_init :: "int option \<Rightarrow> hf_config \<Rightarrow> 'w params \<Rightarrow> (smol_model \<times> 'w causal_lm) pyres" where
  "causal_lm_init tp config params =
     bind_res (model_init tp config) (\<lambda>m.
       Inr (m, \<lparr>lm_vllm = (tp \<noteq> None), lm_tie_word_embeddings = truthy (cfg config ''tie_word_embeddings'' (PBool True)),
                lm_params = params, lm_tied = False\<rparr>))"

definition compute_logits :: "bool \<Rightarrow> (('h \<Rightarrow> 'l) \<Rightarrow> 'h \<Rightarrow> 's \<Rightarrow> 'l option) \<Rightarrow> ('h \<Rightarrow> 'l) \<Rightarrow> 'h \<Rightarrow> 's \<Rightarrow> 'l option" where
  "compute_logits vllm logits_processor lm_head hidden_states sampling_metadata =
     (if vllm then logits_processor lm_head hidden_states sampling_metadata else Some (lm_head hidden_states))"

definition sample_token :: "bool \<Rightarrow> ('l \<Rightarrow> 's \<Rightarrow> 'o option) \<Rightarrow> 'l \<Rightarrow> 's \<Rightarrow> 'o option" where
  "sample_token vllm sampler logits sampling_metadata = (if vllm then sampler logits sampling_metadata else None)"

text \<open>
  Both constructors take a vLLM configuration, whose three parts are used when vLLM is there, or the
  parts themselves. \<^verbatim>\<open>SmolLM3ForCausalLM.forward\<close> is the forward pass of the decoder stack.
\<close>

definition resolve_configs :: "bool \<Rightarrow> ('c \<times> 'k \<times> 'q) option \<Rightarrow> 'c \<times> 'k \<times> 'q \<Rightarrow> 'c \<times> 'k \<times> 'q" where
  "resolve_configs vllm vllm_config given =
     (case vllm_config of Some parts \<Rightarrow> if vllm then parts else given | None \<Rightarrow> given)"

definition causal_forward ::
  "bool \<Rightarrow> ('i \<Rightarrow> 'v) \<Rightarrow> ('v :: ab_group_add \<Rightarrow> 'v) \<Rightarrow> ('v \<Rightarrow> 'v \<Rightarrow> 'v \<times> 'v) \<Rightarrow> ('v, 'c) decoder_layer list \<Rightarrow>
   'i \<Rightarrow> 'c list \<Rightarrow> 'v option \<Rightarrow> 'v pyres" where
  "causal_forward vllm emb nrm fused layers input_ids kv_caches inputs_embeds =
     model_forward vllm emb nrm fused layers input_ids kv_caches inputs_embeds"

text \<open>The table of merged modules for LoRA, which has to agree with the one of the weight loader.\<close>

definition packed_modules_mapping :: "(string, string list) dict" where
  "packed_modules_mapping = [(''qkv_proj'', [''q_proj'', ''k_proj'', ''v_proj'']), (''gate_up_proj'', [''gate_proj'', ''up_proj''])]"

definition embedding_modules :: "(string, string) dict" where
  "embedding_modules = [(''model.embed_tokens'', ''input_embeddings'')]"

section \<open>Facts\<close>

lemma packed_modules_agree:
  "concat (map (\<lambda>(merged, parts). map (\<lambda>p. (p, merged)) parts) packed_modules_mapping) =
     map (\<lambda>(part, merged, shard). (part, merged)) stacked_params_mapping"
  by (simp add: packed_modules_mapping_def stacked_params_mapping_def)

lemma gqa_expand_length: "length (gqa_expand r xs) = length xs * r"
  by (induction xs) (simp_all add: gqa_expand_def)

lemma gqa_expand_nth: "h < length xs * r \<Longrightarrow> gqa_expand r xs ! h = xs ! (h div r)"
proof (induction xs arbitrary: h)
  case (Cons x xs)
  then have r: "0 < r" by (cases r) auto
  show ?case
  proof (cases "h < r")
    case True
    then show ?thesis by (simp add: gqa_expand_def nth_append)
  next
    case False
    then have "h - r < length xs * r" using Cons.prems by simp
    from Cons.IH [OF this] False r show ?thesis
      by (simp add: gqa_expand_def nth_append le_div_geq)
  qed
qed simp

lemma to_heads_Inr: "\<forall>row \<in> set rows. length row = n * d \<Longrightarrow> to_heads n d rows = Inr (map (\<lambda>h. map (head_slice d h) rows) [0..<n])"
  by (simp add: to_heads_def)

lemma softmax_weights:
  assumes "xs \<noteq> []"
  shows "length (softmax xs) = length xs" and "\<forall>w \<in> set (softmax xs). 0 < w" and "sum_list (softmax xs) = 1"
proof -
  have pos: "0 < sum_list (map exp xs)" if "xs \<noteq> []" for xs :: "real list"
    using that by (induction xs rule: list_nonempty_induct) (simp_all add: add_pos_pos)
  show "length (softmax xs) = length xs" by (simp add: softmax_def)
  show "\<forall>w \<in> set (softmax xs). 0 < w" using pos [OF assms] by (simp add: softmax_def)
  have "sum_list (map (\<lambda>x. exp x / s) ys) = sum_list (map exp ys) / s" for ys :: "real list" and s
    by (induction ys) (simp_all add: add_divide_distrib)
  with pos [OF assms] show "sum_list (softmax xs) = 1" by (simp add: softmax_def)
qed

text \<open>A weighted mean stays between the bounds of the values.\<close>

lemma weighted_bounds:
  assumes "length ws = length vs" and "\<forall>w \<in> set ws. 0 < w" and "\<forall>v \<in> set vs. lo \<le> f v \<and> f v \<le> hi"
  shows "lo * sum_list ws \<le> sum_list (map2 (\<lambda>w v. w * f v) ws vs) \<and>
    sum_list (map2 (\<lambda>w v. w * f v) ws vs) \<le> hi * (sum_list ws :: real)"
  using assms
proof (induction ws vs rule: list_induct2)
  case (Cons w ws v vs)
  have "lo * w \<le> w * f v" "w * f v \<le> hi * w" using Cons.prems by (simp_all add: mult.commute)
  moreover have "lo * sum_list ws \<le> sum_list (map2 (\<lambda>w v. w * f v) ws vs)"
    "sum_list (map2 (\<lambda>w v. w * f v) ws vs) \<le> hi * sum_list ws" using Cons by simp_all
  ultimately show ?case by (simp add: distrib_left add_mono)
qed simp

lemma attend_bounds:
  assumes "vs \<noteq> []" and "length ks = length vs" and "\<forall>v \<in> set vs. lo \<le> v ! c \<and> v ! c \<le> hi" and "c < d"
  shows "lo \<le> attend d s q ks vs ! c \<and> attend d s q ks vs ! c \<le> hi"
proof -
  let ?xs = "map (\<lambda>k. dot q k * s) ks"
  have ne: "?xs \<noteq> []" using assms(1,2) by auto
  have "length (softmax ?xs) = length vs" using softmax_weights(1) [OF ne] assms(2) by simp
  from weighted_bounds [OF this softmax_weights(2) [OF ne] assms(3)] softmax_weights(3) [OF ne] assms(4)
  show ?thesis by (simp add: attend_def Let_def)
qed

text \<open>The reference: query head \<open>h\<close> attends to key and value head \<open>h div g\<close>, for groups of \<open>g\<close> heads.\<close>

definition gqa_reference ::
  "nat \<Rightarrow> nat \<Rightarrow> nat \<Rightarrow> real \<Rightarrow> ('h \<Rightarrow> real list) \<Rightarrow> ('h \<Rightarrow> real list) \<Rightarrow> ('h \<Rightarrow> real list) \<Rightarrow> (real list \<Rightarrow> 'h) \<Rightarrow> 'h list \<Rightarrow> 'h list" where
  "gqa_reference n g d s q_proj k_proj v_proj o_proj hs =
     map (\<lambda>x. o_proj (concat (map (\<lambda>h. attend d s (head_slice d h (q_proj x))
            (map (head_slice d (h div g) \<circ> k_proj) hs) (map (head_slice d (h div g) \<circ> v_proj) hs)) [0..<n]))) hs"

lemma to_heads_nth:
  "h < n \<Longrightarrow> map (\<lambda>h. map (head_slice d h) (map f hs)) [0..<n] ! h = map (head_slice d h \<circ> f) hs"
  by simp

section \<open>Properties\<close>

text \<open>
  C35: standalone attention is grouped-query attention. With \<open>kv\<close> key heads that divide the \<open>n\<close>
  query heads, projections of the configured sizes and a sequence that is not empty, the forward
  pass succeeds and equals the reference in which query head \<open>h\<close> reads key and value head
  \<open>h div (n div kv)\<close>; whatever the queries and keys are, each column a head returns lies between
  any bounds of the values it attends to. If \<open>kv\<close> does not divide \<open>n\<close> the pass raises.
\<close>

theorem standalone_attention_is_gqa:
  assumes "at_num_heads a = int n" and "at_num_kv_heads a = int kv" and "at_head_dim a = int d" and "0 < kv" and "hs \<noteq> []"
    and "\<forall>x \<in> set hs. length (q_proj x) = n * d \<and> length (k_proj x) = kv * d \<and> length (v_proj x) = kv * d"
  shows "standalone_attention a q_proj k_proj v_proj o_proj hs =
      (if kv dvd n then Inr (gqa_reference n (n div kv) d (at_scaling a) q_proj k_proj v_proj o_proj hs)
       else Inl (OtherError ''RuntimeError'')) \<and>
    (\<forall>h q c lo hi. c < d \<and> (\<forall>x \<in> set hs. lo \<le> head_slice d h (v_proj x) ! c \<and> head_slice d h (v_proj x) ! c \<le> hi) \<longrightarrow>
       (let y = attend d (at_scaling a) q (map (head_slice d h \<circ> k_proj) hs) (map (head_slice d h \<circ> v_proj) hs)
        in lo \<le> y ! c \<and> y ! c \<le> hi))"
proof -
  let ?heads = "\<lambda>n f. map (\<lambda>h. map (head_slice d h) (map f hs)) [0..<n]"
  let ?g = "n div kv"
  have heads: "to_heads n d (map q_proj hs) = Inr (?heads n q_proj)"
    "to_heads kv d (map k_proj hs) = Inr (?heads kv k_proj)" "to_heads kv d (map v_proj hs) = Inr (?heads kv v_proj)"
    using assms(6) by (auto simp: to_heads_def)
  have r: "py_floordiv (at_num_heads a) (at_num_kv_heads a) = Inr (int ?g)"
    using assms(1,2,4) by (simp add: py_floordiv_def of_nat_div)
  have len: "kv * ?g = n \<longleftrightarrow> kv dvd n" by (metis dvd_mult_div_cancel dvd_triv_left)
  have "standalone_attention a q_proj k_proj v_proj o_proj hs =
      Inr (gqa_reference n ?g d (at_scaling a) q_proj k_proj v_proj o_proj hs)" if "kv dvd n"
  proof -
    have e: "gqa_expand ?g (?heads kv f) ! h = map (head_slice d (h div ?g) \<circ> f) hs" if "h < n" for f h
    proof -
      have h: "h < kv * ?g" using that len \<open>kv dvd n\<close> by simp
      then have "h div ?g < kv" by (simp add: less_mult_imp_div_less)
      with h show ?thesis by (simp add: gqa_expand_nth)
    qed
    have "concat (map (\<lambda>h. attend d s (?heads n q_proj ! h ! i) (gqa_expand ?g (?heads kv k_proj) ! h)
          (gqa_expand ?g (?heads kv v_proj) ! h)) [0..<n]) =
        concat (map (\<lambda>h. attend d s (head_slice d h (q_proj (hs ! i))) (map (head_slice d (h div ?g) \<circ> k_proj) hs)
          (map (head_slice d (h div ?g) \<circ> v_proj) hs)) [0..<n])" if "i < length hs" for i s
      using that by (intro arg_cong [where f = concat] map_cong refl) (simp add: e del: map_map)
    with heads r len assms(1-3,5) that show ?thesis
      by (simp add: standalone_attention_def gqa_expand_length gqa_reference_def map_equality_iff)
  qed
  moreover have "standalone_attention a q_proj k_proj v_proj o_proj hs = Inl (OtherError ''RuntimeError'')" if "\<not> kv dvd n"
    using heads r len assms(1-3) that by (simp add: standalone_attention_def gqa_expand_length)
  moreover have "lo \<le> attend d s q (map (head_slice d h \<circ> k_proj) hs) (map (head_slice d h \<circ> v_proj) hs) ! c \<and>
      attend d s q (map (head_slice d h \<circ> k_proj) hs) (map (head_slice d h \<circ> v_proj) hs) ! c \<le> hi"
    if "c < d" "\<forall>x \<in> set hs. lo \<le> head_slice d h (v_proj x) ! c \<and> head_slice d h (v_proj x) ! c \<le> hi" for c h q s lo hi
    using that assms(5) by (intro attend_bounds) simp_all
  ultimately show ?thesis unfolding Let_def by (cases "kv dvd n") (simp_all, blast+)
qed

definition sample_attention :: attention where
  "sample_attention = \<lparr>at_hidden_size = 4, at_num_heads = 4, at_num_kv_heads = 2, at_head_dim = 1, at_scaling = 1, at_use_rope = True\<rparr>"

theorem standalone_attention_is_gqa_witness:
  "standalone_attention sample_attention (\<lambda>x. x) (take 2) (drop 2) (\<lambda>x. x) [[0, 0, 0, 0], [0, 0, 2, 4]] =
     Inr [[1, 1, 2, 2], [1, 1, 2, 2]]"
proof -
  let ?hs = "[[0, 0, 0, 0], [0, 0, 2, 4]] :: real list list"
  have "standalone_attention sample_attention (\<lambda>x. x) (take 2) (drop 2) (\<lambda>x. x) ?hs =
      (if (2 :: nat) dvd 4 then Inr (gqa_reference 4 (4 div 2) 1 (at_scaling sample_attention) (\<lambda>x. x) (take 2) (drop 2) (\<lambda>x. x) ?hs)
       else Inl (OtherError ''RuntimeError''))"
    by (rule standalone_attention_is_gqa [THEN conjunct1]) (simp_all add: sample_attention_def)
  moreover have "[0..<4] = [0, 1, 2, 3 :: nat]" by (simp add: upt_rec)
  ultimately show ?thesis by (simp add: gqa_reference_def attend_def softmax_def dot_def head_slice_def Let_def)
qed

text \<open>
  The two forms of the feed-forward network agree. If vLLM's activation multiplies the
  activated first half of its row with the second half (its documented behaviour) and the merged
  projection has an even number of at least two columns, the vLLM form and the standalone form
  return the same value, without an error.
\<close>

theorem swiglu_forms_agree:
  assumes "\<And>gate up. length gate = length up \<Longrightarrow> act_fn (gate @ up) = map2 (*) (map silu gate) up"
    and "length (gate_up_proj x) = 2 * m" and "0 < m"
  shows "swiglu_forward True gate_up_proj act_fn down_proj x = swiglu_forward False gate_up_proj act_fn down_proj x \<and>
    swiglu_forward False gate_up_proj act_fn down_proj x =
      Inr (down_proj (map (\<lambda>i. silu (gate_up_proj x ! i) * gate_up_proj x ! (m + i)) [0..<m]))"
proof -
  let ?y = "gate_up_proj x"
  have c: "chunk2 ?y = Inr (take m ?y, drop m ?y)" using assms(2,3) by (auto simp: chunk2_def Let_def)
  have l: "length (take m ?y) = length (drop m ?y)" using assms(2) by simp
  have p: "map2 (*) (map silu (take m ?y)) (drop m ?y) = map (\<lambda>i. silu (?y ! i) * ?y ! (m + i)) [0..<m]"
    by (rule nth_equalityI) (use assms(2) in simp_all)
  from assms(1) [OF l] have "act_fn ?y = map2 (*) (map silu (take m ?y)) (drop m ?y)" by simp
  with c l p show ?thesis by (simp add: swiglu_forward_def mul_rows_def)
qed

definition silu_and_mul :: "real list \<Rightarrow> real list" where
  "silu_and_mul xs = map2 (*) (map silu (take (length xs div 2) xs)) (drop (length xs div 2) xs)"

theorem swiglu_forms_agree_witness:
  "swiglu_forward True (\<lambda>x. [x, 2 * x]) silu_and_mul sum_list 3 = swiglu_forward False (\<lambda>x. [x, 2 * x]) silu_and_mul sum_list 3"
proof -
  have "silu_and_mul (gate @ up) = map2 (*) (map silu gate) up" if "length gate = length up" for gate up
    using that by (simp add: silu_and_mul_def mult_2)
  from swiglu_forms_agree [OF this, of "\<lambda>x. [x, 2 * x]" 3 1 sum_list] show ?thesis by simp
qed

lemma map_res_nth:
  "map_res f xs = Inr ys \<Longrightarrow> length ys = length xs \<and> (\<forall>i < length xs. f (xs ! i) = Inr (ys ! i))"
proof (induction xs arbitrary: ys)
  case (Cons x xs)
  then obtain z zs where "f x = Inr z" "map_res f xs = Inr zs" "ys = z # zs" by (auto simp: bind_res_Inr_iff)
  with Cons.IH show ?case by (auto simp: less_Suc_eq_0_disj)
qed simp

lemma count_multiples: "0 < n \<Longrightarrow> length (filter (\<lambda>i. n dvd Suc i) [0..<k]) = k div n"
proof (induction k)
  case (Suc k)
  then show ?case by (simp add: div_Suc dvd_eq_mod_eq_0)
qed simp

text \<open>
  C36: the layers without positional encoding. In every model built from a configuration with an
  interval \<open>n\<close> there is one layer for each configured index; layer \<open>i\<close> skips the rotation exactly
  when \<open>n\<close> divides \<open>i + 1\<close>, which is one in \<open>n\<close> layers, rounded down; and the output of such a
  layer does not depend on the positions. With an interval of 0 only a model without layers can
  be built.
\<close>

theorem nope_layers_spaced:
  assumes "as_int (cfg config ''nope_layer_interval'' (PInt 2)) = Inr (int n)"
    and "as_int (cfg config ''num_hidden_layers'' (PInt 32)) = Inr (int k)"
  shows "case model_init tp config of
      Inl e \<Rightarrow> True
    | Inr m \<Rightarrow> (n = 0 \<longrightarrow> k = 0) \<and> length (mo_layers m) = k \<and>
        (\<forall>i < k. at_use_rope (fst (mo_layers m ! i)) = (\<not> n dvd Suc i)) \<and>
        (0 < n \<longrightarrow> length (filter (\<lambda>l. \<not> at_use_rope (fst l)) (mo_layers m)) = k div n) \<and>
        (\<forall>l \<in> set (mo_layers m). \<not> at_use_rope (fst l) \<longrightarrow>
           attention_forward (fst l) qkv rotary attn out p1 h = attention_forward (fst l) qkv rotary attn out p2 h)"
proof (cases "model_init tp config")
  case (Inr m)
  then have "map_res (\<lambda>i. layer_init tp config (int i)) [0..<k] = Inr (mo_layers m)"
    using assms(2) by (auto simp: model_init_def bind_res_Inr_iff)
  from map_res_nth [OF this] have len: "length (mo_layers m) = k"
    and ly: "\<And>i. i < k \<Longrightarrow> layer_init tp config (int i) = Inr (mo_layers m ! i)" by simp_all
  have r: "use_rope (int i) (int n) = Inr (at_use_rope (fst (mo_layers m ! i)))" if "i < k" for i
  proof -
    obtain a x where "attention_init tp config (int i) = Inr a" "mo_layers m ! i = (a, x)"
      using ly [OF \<open>i < k\<close>] unfolding layer_init_def bind_res_Inr_iff by (metis sum.inject(2))
    with attention_init_rope [OF _ assms(1)] show ?thesis by simp
  qed
  have n0: "k = 0" if "n = 0" using r [of 0] that by (cases k) (auto simp: use_rope_def py_mod_def)
  have u: "at_use_rope (fst (mo_layers m ! i)) = (\<not> n dvd Suc i)" if "i < k" for i
    using r [OF that] use_rope_iff [of n i] n0 that by (cases "n = 0") auto
  let ?nope = "\<lambda>l. \<not> at_use_rope (fst l)"
  have "length (filter ?nope (mo_layers m)) = length (filter ?nope (map (nth (mo_layers m)) [0..<k]))"
    using map_nth [of "mo_layers m"] len by simp
  also have "\<dots> = length (filter (\<lambda>i. n dvd Suc i) [0..<k])"
    unfolding filter_map length_map by (rule arg_cong [where f = length], rule filter_cong) (simp_all add: u)
  finally have "0 < n \<longrightarrow> length (filter ?nope (mo_layers m)) = k div n" by (simp add: count_multiples)
  with Inr n0 len u show ?thesis by (auto simp: attention_forward_def)
qed simp

theorem nope_layers_spaced_witness:
  "case model_init None (CfgDict [(''num_hidden_layers'', PInt 6), (''nope_layer_interval'', PInt 4)]) of
     Inl e \<Rightarrow> False
   | Inr m \<Rightarrow> length (filter (\<lambda>l. \<not> at_use_rope (fst l)) (mo_layers m)) = 1"
proof -
  let ?c = "CfgDict [(''num_hidden_layers'', PInt 6), (''nope_layer_interval'', PInt 4)]"
  obtain m where m: "model_init None ?c = Inr m"
    by (simp add: model_init_def layer_init_def attention_init_def use_rope_def py_mod_def py_floordiv_def head_scaling_def
        upt_rec)
  have "as_int (cfg ?c ''nope_layer_interval'' (PInt 2)) = Inr (int 4)"
    "as_int (cfg ?c ''num_hidden_layers'' (PInt 32)) = Inr (int 6)" by simp_all
  from nope_layers_spaced [OF this, where tp = None and qkv = "\<lambda>h :: nat. [h]" and rotary = "\<lambda>p q k. (q, k)"
      and attn = "\<lambda>q k v. v" and out = hd and ?p1.0 = "0 :: nat" and ?p2.0 = 1 and h = 0] m show ?thesis by simp
qed

end
