(* ===== verification/SmolLM3Loading.thy ===== *)
theory SmolLM3Loading
  imports SmolLM3Modules
begin

text \<open>
  The constructors and the weight loader of \<^verbatim>\<open>vllm_port/smollm3.py\<close> together: the names of the parameters that
  the modules register in both forms of the port, and what \<^verbatim>\<open>load_weights\<close> gives them from a checkpoint
  in the layout of the published model. A linear, embedding or norm module has the parameter \<^verbatim>\<open>weight\<close>, and
  PyTorch's layer norm also a \<^verbatim>\<open>bias\<close>.
\<close>

section \<open>Parameter names\<close>

text \<open>\<^verbatim>\<open>SmolLM3Attention\<close>, \<^verbatim>\<open>SmolLM3MLP\<close> and the norms of \<^verbatim>\<open>SmolLM3DecoderLayer\<close>.\<close>

definition attention_params :: "bool \<Rightarrow> string list" where
  "attention_params vllm =
     (if vllm then [''qkv_proj.weight'', ''o_proj.weight'']
      else [''q_proj.weight'', ''k_proj.weight'', ''v_proj.weight'', ''o_proj.weight''])"

definition mlp_params :: "string list" where
  "mlp_params = [''gate_up_proj.weight'', ''down_proj.weight'']"

definition norm_params :: "bool \<Rightarrow> string list" where
  "norm_params vllm = (if vllm then [''weight''] else [''weight'', ''bias''])"

definition layer_params :: "bool \<Rightarrow> string list" where
  "layer_params vllm =
     map (append ''.self_attn.'') (attention_params vllm) @ map (append ''.mlp.'') mlp_params @
     map (append ''.input_layernorm.'') (norm_params vllm) @ map (append ''.post_attention_layernorm.'') (norm_params vllm)"

text \<open>The prefix of layer \<open>i\<close>, and the parameters of the whole model with \<open>n\<close> layers.\<close>

definition in_layer :: "nat \<Rightarrow> string \<Rightarrow> string" where
  "in_layer i name = ''model.layers.'' @ show_nat i @ name"

definition param_names :: "bool \<Rightarrow> nat \<Rightarrow> string list" where
  "param_names vllm n =
     [''model.embed_tokens.weight''] @ concat (map (\<lambda>i. map (in_layer i) (layer_params vllm)) [0..<n]) @
     map (append ''model.norm.'') (norm_params vllm) @ [''lm_head.weight'']"

text \<open>The model before loading: every parameter is registered and has received no tensor.\<close>

definition fresh_lm :: "bool \<Rightarrow> bool \<Rightarrow> nat \<Rightarrow> 'w causal_lm" where
  "fresh_lm vllm tie n =
     \<lparr>lm_vllm = vllm, lm_tie_word_embeddings = tie, lm_params = map (\<lambda>k. (k, [])) (param_names vllm n), lm_tied = False\<rparr>"

section \<open>The published checkpoint\<close>

text \<open>Its layout: separate projections, no head, since it is tied to the embedding.\<close>

definition checkpoint_layer :: "string list" where
  "checkpoint_layer =
     [''.self_attn.q_proj.weight'', ''.self_attn.k_proj.weight'', ''.self_attn.v_proj.weight'', ''.self_attn.o_proj.weight'',
      ''.mlp.gate_proj.weight'', ''.mlp.up_proj.weight'', ''.mlp.down_proj.weight'',
      ''.input_layernorm.weight'', ''.post_attention_layernorm.weight'']"

definition checkpoint_names :: "nat \<Rightarrow> string list" where
  "checkpoint_names n =
     [''model.embed_tokens.weight''] @ concat (map (\<lambda>i. map (in_layer i) checkpoint_layer) [0..<n]) @ [''model.norm.weight'']"

text \<open>The parameters of a layer, and of the model, that have no counterpart of their own name.\<close>

definition unmatched_layer :: "bool \<Rightarrow> string list" where
  "unmatched_layer vllm =
     (if vllm then [''.self_attn.qkv_proj.weight'', ''.mlp.gate_up_proj.weight'']
      else [''.mlp.gate_up_proj.weight'', ''.input_layernorm.bias'', ''.post_attention_layernorm.bias''])"

definition unmatched :: "bool \<Rightarrow> nat \<Rightarrow> string list" where
  "unmatched vllm n =
     concat (map (\<lambda>i. map (in_layer i) (unmatched_layer vllm)) [0..<n]) @
     (if vllm then [] else [''model.norm.bias'']) @ [''lm_head.weight'']"

section \<open>Facts\<close>

lemma ends_with_append: "length suf \<le> length t \<Longrightarrow> ends_with (a @ t) suf = ends_with t suf"
  by (auto simp: ends_with_def)

lemma in_layer_ends: "length suf \<le> length t \<Longrightarrow> ends_with (in_layer i t) suf = ends_with t suf"
  unfolding in_layer_def append_assoc [symmetric] by (rule ends_with_append)

text \<open>Endings that tell the unmatched parameters from all names of a checkpoint.\<close>

definition odd_ending :: "string \<Rightarrow> bool" where
  "odd_ending name \<longleftrightarrow> ends_with name ''qkv_proj.weight'' \<or> ends_with name ''_up_proj.weight'' \<or> ends_with name ''norm.bias'' \<or>
     ends_with name ''head.weight''"

lemma odd_in_layer: "15 \<le> length t \<Longrightarrow> odd_ending (in_layer i t) = odd_ending t"
  by (simp add: odd_ending_def in_layer_ends)

lemma checkpoint_not_odd: "name \<in> set (checkpoint_names n) \<Longrightarrow> \<not> odd_ending name"
proof -
  have c: "\<forall>t \<in> set checkpoint_layer. 15 \<le> length t \<and> \<not> odd_ending t"
    "\<not> odd_ending ''model.embed_tokens.weight''" "\<not> odd_ending ''model.norm.weight''" by code_simp+
  show "name \<in> set (checkpoint_names n) \<Longrightarrow> \<not> odd_ending name"
    using c odd_in_layer by (auto simp: checkpoint_names_def)
qed

lemma unmatched_odd: "name \<in> set (unmatched vllm n) \<Longrightarrow> odd_ending name"
proof -
  have c: "\<forall>vllm. \<forall>t \<in> set (unmatched_layer vllm). 15 \<le> length t \<and> odd_ending t" by code_simp
  have "odd_ending ''model.norm.bias''" "odd_ending ''lm_head.weight''" by code_simp+
  with c show "name \<in> set (unmatched vllm n) \<Longrightarrow> odd_ending name"
    using odd_in_layer by (auto simp: unmatched_def split: if_splits)
qed

lemma in_layers_iff:
  "name \<in> set (concat (map (\<lambda>i. map (in_layer i) ts) [0..<n])) \<longleftrightarrow> (\<exists>i t. i < n \<and> t \<in> set ts \<and> name = in_layer i t)"
  by auto

lemma matched_in_checkpoint: "name \<in> set (param_names vllm n) \<Longrightarrow> name \<notin> set (unmatched vllm n) \<Longrightarrow> name \<in> set (checkpoint_names n)"
proof -
  have c: "\<forall>vllm. \<forall>t \<in> set (layer_params vllm). t \<in> set (unmatched_layer vllm) \<or> t \<in> set checkpoint_layer"
    by code_simp
  assume a: "name \<in> set (param_names vllm n)" "name \<notin> set (unmatched vllm n)"
  have nb: "\<not> vllm \<Longrightarrow> name \<noteq> ''model.norm.bias''" and "name \<noteq> ''lm_head.weight''"
    using a(2) by (auto simp only: unmatched_def set_append list.set if_False Un_iff insert_iff)
  moreover have "name = ''model.embed_tokens.weight'' \<or> name \<in> set (map (append ''model.norm.'') (norm_params vllm)) \<or>
      name = ''lm_head.weight'' \<or> (\<exists>i t. i < n \<and> t \<in> set (layer_params vllm) \<and> name = in_layer i t)"
    using a(1) in_layers_iff [of name "layer_params vllm" n]
    by (simp only: param_names_def set_append list.set Un_iff singleton_iff) blast
  moreover have "name = ''model.norm.weight''" if "name \<in> set (map (append ''model.norm.'') (norm_params vllm))"
    using that nb by (cases vllm) (auto simp: norm_params_def)
  ultimately have "name = ''model.embed_tokens.weight'' \<or> name = ''model.norm.weight'' \<or>
      (\<exists>i t. i < n \<and> t \<in> set (layer_params vllm) \<and> name = in_layer i t)"
    by meson
  then show ?thesis
  proof (elim disjE exE conjE)
    fix i t
    assume it: "i < n" "t \<in> set (layer_params vllm)" "name = in_layer i t"
    then have "t \<notin> set (unmatched_layer vllm)"
      using a(2) in_layers_iff [of name "unmatched_layer vllm" n] unfolding unmatched_def set_append by blast
    with it c have "name \<in> set (concat (map (\<lambda>i. map (in_layer i) checkpoint_layer) [0..<n]))"
      unfolding in_layers_iff by blast
    then show ?thesis unfolding checkpoint_names_def set_append by blast
  qed (simp_all add: checkpoint_names_def)
qed

lemma checkpoint_weight_names: "name \<in> set (checkpoint_names n) \<Longrightarrow> ends_with name ''.weight''"
proof -
  have c: "\<forall>t \<in> set checkpoint_layer. 7 \<le> length t \<and> ends_with t ''.weight''"
    "ends_with ''model.embed_tokens.weight'' ''.weight''" "ends_with ''model.norm.weight'' ''.weight''" by code_simp+
  show "name \<in> set (checkpoint_names n) \<Longrightarrow> ends_with name ''.weight''"
    using c in_layer_ends [of "''.weight''"] by (auto simp: checkpoint_names_def)
qed

lemma load_weights_tied: "lm_tied (load_weights ws m) = (lm_tied m \<or> lm_tie_word_embeddings m)"
proof -
  have "lm_tied (load_one name wt m) = lm_tied m \<and> lm_tie_word_embeddings (load_one name wt m) = lm_tie_word_embeddings m"
    for name and wt :: 'a and m by (auto simp: load_one_def split: prod.split bool.split)
  then have "lm_tied (fold (\<lambda>(name, wt). load_one name wt) ws m) = lm_tied m \<and>
      lm_tie_word_embeddings (fold (\<lambda>(name, wt). load_one name wt) ws m) = lm_tie_word_embeddings m"
    by (induction ws arbitrary: m) auto
  then show ?thesis by (simp add: load_weights_def Let_def)
qed

section \<open>Properties\<close>

text \<open>
  C23: what the port loads from the published checkpoint. Let the tensors carry the names of the
  checkpoint's layout, for any number of layers. Then every parameter that is not listed as
  unmatched receives exactly the tensors of its own name. The unmatched ones receive nothing: inside vLLM
  the merged query, key and value projection and the merged gate of every layer, so that no attention and no
  feed-forward network of the port works with the trained weights; standalone the merged gate and the
  biases of the norms. The head is tied to the embedding exactly if the configuration says so.
\<close>

theorem checkpoint_coverage:
  assumes "map fst ws = checkpoint_names n"
  shows "(\<forall>key \<in> set (param_names vllm n).
      dict_get (lm_params (load_weights ws (fresh_lm vllm tie n))) key =
        Some (if key \<in> set (unmatched vllm n) then [] else map (\<lambda>(name, wt). (None, wt)) (filter (\<lambda>(name, wt). name = key) ws)) \<and>
      (key \<notin> set (unmatched vllm n) \<longrightarrow> key \<in> fst ` set ws)) \<and>
    lm_tied (load_weights ws (fresh_lm vllm tie n)) = tie \<and>
    (\<forall>i < n. set (map (in_layer i) [''.self_attn.qkv_proj.weight'', ''.mlp.gate_up_proj.weight'']) \<subseteq>
       set (param_names True n) \<inter> set (unmatched True n))"
proof (intro conjI ballI allI impI)
  fix key
  assume k: "key \<in> set (param_names vllm n)"
  have names: "fst ` set ws = set (checkpoint_names n)" using assms by (metis list.set_map)
  have w: "\<forall>(name, wt) \<in> set ws. ends_with name ''.weight''"
    using names checkpoint_weight_names by force
  have g: "dict_get (lm_params (fresh_lm vllm tie n)) key = Some []"
    using k by (simp add: fresh_lm_def map_of_map_restrict)
  have head: "''lm_head.weight'' \<notin> fst ` set ws"
    using names checkpoint_not_odd unmatched_odd [of "''lm_head.weight''" True n] by (auto simp: unmatched_def)
  have "filter (\<lambda>(name, wt). name = key \<and> \<not> (name = ''lm_head.weight'' \<and> lm_tie_word_embeddings (fresh_lm vllm tie n))) ws =
      filter (\<lambda>(name, wt). name = key) ws"
    using head by (intro filter_cong) (auto intro: rev_image_eqI)
  moreover have "filter (\<lambda>(name, wt). name = key) ws = []" if "key \<in> set (unmatched vllm n)"
    using names checkpoint_not_odd unmatched_odd [OF that] by (force simp: filter_empty_conv)
  ultimately show "dict_get (lm_params (load_weights ws (fresh_lm vllm tie n))) key =
      Some (if key \<in> set (unmatched vllm n) then [] else map (\<lambda>(name, wt). (None, wt)) (filter (\<lambda>(name, wt). name = key) ws))"
    using merged_projections_never_loaded [OF w g] by auto
  show "key \<in> fst ` set ws" if "key \<notin> set (unmatched vllm n)" using names matched_in_checkpoint [OF k that] by simp
next
  show "lm_tied (load_weights ws (fresh_lm vllm tie n)) = tie"
    using load_weights_tied [of ws "fresh_lm vllm tie n"] by (simp add: fresh_lm_def)
next
  fix i
  assume "i < n"
  have "set [''.self_attn.qkv_proj.weight'', ''.mlp.gate_up_proj.weight''] \<subseteq> set (layer_params True) \<inter> set (unmatched_layer True)"
    by code_simp
  with \<open>i < n\<close> show "set (map (in_layer i) [''.self_attn.qkv_proj.weight'', ''.mlp.gate_up_proj.weight'']) \<subseteq>
      set (param_names True n) \<inter> set (unmatched True n)"
    by (auto simp: param_names_def unmatched_def)
qed

theorem checkpoint_coverage_witness:
  "\<exists>ws :: (string \<times> nat) list. map fst ws = checkpoint_names 1 \<and>
     dict_get (lm_params (load_weights ws (fresh_lm True True 1))) ''model.layers.0.self_attn.qkv_proj.weight'' = Some [] \<and>
     dict_get (lm_params (load_weights ws (fresh_lm True True 1))) ''model.layers.0.self_attn.o_proj.weight'' = Some [(None, 42)]"
proof (intro exI conjI)
  let ?ws = "map (\<lambda>k. (k, 42)) (checkpoint_names 1)"
  show fst: "map fst ?ws = checkpoint_names 1" by (simp add: comp_def)
  have q: "''model.layers.0.self_attn.qkv_proj.weight'' \<in> set (param_names True 1)"
    "''model.layers.0.self_attn.qkv_proj.weight'' \<in> set (unmatched True 1)" by code_simp+
  have o: "''model.layers.0.self_attn.o_proj.weight'' \<in> set (param_names True 1)"
    "''model.layers.0.self_attn.o_proj.weight'' \<notin> set (unmatched True 1)"
    "filter (\<lambda>k. k = ''model.layers.0.self_attn.o_proj.weight'') (checkpoint_names 1) = [''model.layers.0.self_attn.o_proj.weight'']"
    by code_simp+
  note cov = conjunct1 [OF checkpoint_coverage [OF fst, of True True], THEN bspec, THEN conjunct1]
  from cov [OF q(1)] show "dict_get (lm_params (load_weights ?ws (fresh_lm True True 1)))
      ''model.layers.0.self_attn.qkv_proj.weight'' = Some []" by (simp only: q if_True)
  from cov [OF o(1)] show "dict_get (lm_params (load_weights ?ws (fresh_lm True True 1)))
      ''model.layers.0.self_attn.o_proj.weight'' = Some [(None, 42)]"
    by (simp only: o if_False filter_map comp_def split_conv simp_thms list.map)
qed

end
