(* ===== verification/VllmPatch.thy ===== *)
theory VllmPatch
  imports Py_Text
begin

text \<open>
  The build-time patches of an installed vLLM: \<^verbatim>\<open>scripts/patch_registry.py\<close>, which registers the
  SmolLM3 port, and \<^verbatim>\<open>scripts/patch_init.py\<close>, which exports it. The files of vLLM's model directory
  are their contents, \<open>None\<close> when a file does not exist. The messages of the scripts are in theory \<^verbatim>\<open>PatchScripts\<close>.
\<close>

section \<open>Registry\<close>

definition quoted :: "string \<Rightarrow> string" where
  "quoted s = CHR 0x22 # s @ [CHR 0x22]"

definition MODEL_NAME :: string where
  "MODEL_NAME = ''SmolLM3ForCausalLM''"

definition NATIVE_ENTRY :: string where
  "NATIVE_ENTRY = quoted MODEL_NAME @ '': ('' @ quoted ''smollm3'' @ '', '' @ quoted MODEL_NAME @ ''),''"

definition TRANSFORMERS_ENTRY_RE :: rx where
  "TRANSFORMERS_ENTRY_RE = SeqL [Star Space, Lit (quoted MODEL_NAME @ '':''), Star Space, Ch CHR ''('', Star Space,
     Lit (quoted ''transformers'' @ '',''), Star Space, Lit (quoted ''TransformersForCausalLM'' @ '',''), Star Space, Lit ''),'']"

definition NATIVE_ENTRY_RE :: rx where
  "NATIVE_ENTRY_RE = SeqL [Lit (quoted MODEL_NAME @ '':''), Star Space, Ch CHR ''('', Star Space,
     Lit (quoted ''smollm3'' @ '',''), Star Space, Lit (quoted MODEL_NAME @ '',''), Star Space, Ch CHR '')'']"

definition INSERT_CANDIDATES :: "string list" where
  "INSERT_CANDIDATES =
     [quoted ''StableLmForCausalLM'' @ '': ('' @ quoted ''stablelm'' @ '', '' @ quoted ''StablelmForCausalLM'' @ ''),'',
      quoted ''Starcoder2ForCausalLM'' @ '': ('' @ quoted ''starcoder2'' @ '', '' @ quoted ''Starcoder2ForCausalLM'' @ ''),'']"

definition native_line :: string where
  "native_line = CHR 0x0A # ''    '' @ NATIVE_ENTRY @ ''  # native SmolLM3 port''"

text \<open>\<^verbatim>\<open>pattern.sub('', s)\<close>.\<close>

definition rx_remove :: "rx \<Rightarrow> string \<Rightarrow> string" where
  "rx_remove r s = concat (rx_split r s)"

definition patch_content :: "string \<Rightarrow> string" where
  "patch_content content =
     (let content = rx_remove TRANSFORMERS_ENTRY_RE content
      in if rx_search NATIVE_ENTRY_RE content then content
         else case filter (\<lambda>c. has_infix c content) INSERT_CANDIDATES of
                [] \<Rightarrow> content
              | c # _ \<Rightarrow> py_replace c (c @ native_line) content)"

definition patch_registry :: "string option \<Rightarrow> string option \<Rightarrow> string option \<times> string option" where
  "patch_registry registry init =
     (case registry of
        Some content \<Rightarrow> (Some (patch_content content), init)
      | None \<Rightarrow> (None, map_option patch_content init))"

section \<open>Exports\<close>

definition IMPORT_RE :: rx where
  "IMPORT_RE = SeqL [Lit ''from .'', Plus (Cls is_word), Lit '' import '', Plus (Cls is_word), Lit (''ForCausalLM'' @ [CHR 0x0A])]"

definition ALL_RE :: rx where
  "ALL_RE = SeqL [Lit ''__all__'', Star Space, Ch CHR ''='', Star Space, Ch CHR ''['', Star (Cls (\<lambda>c. c \<noteq> CHR '']''))]"

definition import_line :: string where
  "import_line = ''from .smollm3 import SmolLM3ForCausalLM  # native SmolLM3 port''"

definition export_line :: string where
  "export_line = CHR 0x0A # ''    '' @ quoted MODEL_NAME @ '',''"

text \<open>The new contents, or \<open>None\<close> when the script exits without writing.\<close>

definition patch_init :: "string \<Rightarrow> string option" where
  "patch_init content =
     (if has_infix ''_GENERATION_MODELS'' content \<and> has_infix (quoted MODEL_NAME) content then None
      else if has_infix MODEL_NAME content then None
      else let c1 = (if has_infix ''from .smollm3 import'' content then content
                     else case rx_spans IMPORT_RE content 0 of
                            (i, j) # _ \<Rightarrow> take j content @ import_line @ [CHR 0x0A] @ drop j content
                          | [] \<Rightarrow> import_line @ [CHR 0x0A] @ content)
           in if has_infix ''__all__'' c1
              then case rx_spans ALL_RE c1 0 of
                     (i, j) # _ \<Rightarrow> Some (take j c1 @ export_line @ drop j c1)
                   | [] \<Rightarrow> Some c1
              else Some c1)"

section \<open>Facts\<close>

lemma has_infix_iff: "has_infix p s \<longleftrightarrow> (\<exists>a b. s = a @ p @ b)"
proof (induction s)
  case (Cons c cs)
  have "take (length p) (c # cs) = p \<longleftrightarrow> (\<exists>b. c # cs = p @ b)"
    by (metis append_eq_conv_conj append_take_drop_id)
  with Cons.IH show ?case by (simp add: Cons_eq_append_conv) (metis append_Cons append_Nil)
qed auto

lemma has_infix_append: "has_infix p a \<or> has_infix p b \<Longrightarrow> has_infix p (a @ b)"
  by (auto simp: has_infix_iff) (metis append.assoc)+

text \<open>A match of a literal, and of a sequence that contains one, has the literal in the text.\<close>

lemma seq_ends: "j \<in> set (rx_ends (SeqL (r # rs)) s i) \<Longrightarrow> \<exists>k. k \<in> set (rx_ends r s i) \<and> j \<in> set (rx_ends (SeqL rs) s k)"
  by (cases rs) auto

lemma ch_ends: "j \<in> set (rx_ends (Ch c) s i) \<Longrightarrow> i < length s \<and> s ! i = c \<and> j = Suc i"
  by (auto simp: Ch_def split: if_splits)

lemma lit_ends: "j \<in> set (rx_ends (Lit p) s i) \<Longrightarrow> p \<noteq> [] \<Longrightarrow> j = i + length p \<and> take (length p) (drop i s) = p"
proof (induction p arbitrary: i)
  case (Cons c p)
  obtain k where k: "k \<in> set (rx_ends (Ch c) s i)" "j \<in> set (rx_ends (SeqL (map Ch p)) s k)"
    using Cons.prems(1) seq_ends unfolding Lit_def by fastforce
  note c = ch_ends [OF k(1)]
  show ?case
  proof (cases "p = []")
    case False
    then have "j = k + length p \<and> take (length p) (drop k s) = p" using Cons.IH [of k] k(2) by (simp add: Lit_def)
    with c show ?thesis by (simp add: Cons_nth_drop_Suc [symmetric])
  qed (use c k(2) in \<open>simp add: take_Suc_conv_app_nth hd_drop_conv_nth take_Suc\<close>)
qed simp

lemma seq_lit_infix:
  assumes "j \<in> set (rx_ends (SeqL rs) s i)" and "Lit p \<in> set rs" and "p \<noteq> []"
  shows "has_infix p s"
  using assms(1,2)
proof (induction rs arbitrary: i)
  case (Cons r rs)
  obtain k where k: "k \<in> set (rx_ends r s i)" "j \<in> set (rx_ends (SeqL rs) s k)" using seq_ends [OF Cons.prems(1)] by blast
  show ?case
  proof (cases "r = Lit p")
    case True
    with k(1) lit_ends [OF _ assms(3)] have "take (length p) (drop i s) = p" by blast
    then have "s = take i s @ p @ drop (length p) (drop i s)" by (metis append_take_drop_id)
    then show ?thesis unfolding has_infix_iff by blast
  next
    case False
    with Cons k show ?thesis by auto
  qed
qed simp

lemma rx_search_lit: "rx_search (SeqL rs) s \<Longrightarrow> Lit p \<in> set rs \<Longrightarrow> p \<noteq> [] \<Longrightarrow> has_infix p s"
proof -
  assume a: "rx_search (SeqL rs) s" "Lit p \<in> set rs" "p \<noteq> []"
  then obtain i j where "j \<in> set (rx_ends (SeqL rs) s i)" by (auto simp: rx_search_def list_ex_iff) (metis list.set_intros(1) neq_Nil_conv)+
  with a(2,3) show ?thesis using seq_lit_infix by blast
qed

lemma no_match_spans: "(\<And>i. rx_ends r s i = []) \<Longrightarrow> rx_spans r s i = []"
proof (induction r s i rule: rx_spans.induct)
  case (1 r s i)
  then show ?case by (subst rx_spans.simps) auto
qed

lemma rx_remove_absent:
  assumes "Lit p \<in> set rs" and "p \<noteq> []" and "\<not> has_infix p s"
  shows "rx_remove (SeqL rs) s = s"
proof -
  have "rx_ends (SeqL rs) s i = []" for i using seq_lit_infix [OF _ assms(1,2)] assms(3) by (metis list.set_intros(1) neq_Nil_conv)
  then have "rx_spans (SeqL rs) s 0 = []" by (rule no_match_spans)
  then show ?thesis by (simp add: rx_remove_def rx_split_def)
qed

text \<open>Replacing \<open>c\<close> by \<open>c\<close> followed by \<open>ins\<close>.\<close>

lemma py_replace_match: "old \<noteq> [] \<Longrightarrow> py_replace old new (old @ t) = new @ py_replace old new t"
  by (cases old) (simp, subst py_replace.simps, simp)

lemma py_replace_step: "take (length old) (x # xs) \<noteq> old \<Longrightarrow> py_replace old new (x # xs) = x # py_replace old new xs"
  by (subst py_replace.simps) simp

lemma py_replace_Nil [simp]: "py_replace old new [] = []"
  by (subst py_replace.simps) simp

lemma py_replace_cases [case_names Nil Match Step]:
  assumes "old \<noteq> []" and "P []" and "\<And>t. P t \<Longrightarrow> P (old @ t)"
    and "\<And>x xs. take (length old) (x # xs) \<noteq> old \<Longrightarrow> P xs \<Longrightarrow> P (x # xs)"
  shows "P s"
proof (induction s rule: length_induct)
  case (1 s)
  show ?case
  proof (cases s)
    case (Cons x xs)
    show ?thesis
    proof (cases "take (length old) s = old")
      case True
      then obtain t where t: "s = old @ t" by (metis append_take_drop_id)
      with 1 assms(1) have "P t" by simp
      with t assms(3) show ?thesis by simp
    qed (use 1 Cons assms(4) in auto)
  qed (use assms(2) in simp)
qed

lemma py_replace_infix:
  assumes "c \<noteq> []"
  shows "has_infix c s \<Longrightarrow> has_infix (c @ ins) (py_replace c (c @ ins) s)"
proof (induction s rule: py_replace_cases [OF assms])
  case 1
  then show ?case using assms by simp
next
  case (2 t)
  show ?case unfolding py_replace_match [OF assms] has_infix_iff by (metis append_Nil)
next
  case (3 x xs)
  then have "has_infix c xs" by simp
  with 3 show ?case by (simp add: py_replace_step)
qed

lemma py_replace_grows:
  assumes "c \<noteq> []"
  shows "length s \<le> length (py_replace c (c @ ins) s) \<and>
    (has_infix c s \<longrightarrow> length s + length ins \<le> length (py_replace c (c @ ins) s))"
proof (induction s rule: py_replace_cases [OF assms])
  case 1
  then show ?case using assms by simp
next
  case (2 t)
  then show ?case by (simp add: py_replace_match [OF assms])
next
  case (3 x xs)
  then show ?case by (auto simp: py_replace_step)
qed

text \<open>A text without the first character of \<open>ins\<close> is found after the replacement only where it was before.\<close>

definition is_prefix :: "string \<Rightarrow> string \<Rightarrow> bool" where
  "is_prefix q s \<longleftrightarrow> take (length q) s = q"

lemma is_prefix_iff: "is_prefix q s \<longleftrightarrow> (\<exists>b. s = q @ b)"
  unfolding is_prefix_def by (metis append_eq_conv_conj append_take_drop_id)

lemma has_infix_prefix: "has_infix p s \<longleftrightarrow> (\<exists>i. is_prefix p (drop i s))"
  unfolding has_infix_iff is_prefix_iff by (metis append_eq_conv_conj append_take_drop_id)

lemma prefix_replace:
  assumes "c \<noteq> []" and "d \<notin> set q"
  shows "is_prefix q (py_replace c (c @ d # ins) s) \<Longrightarrow> is_prefix q s"
  using assms(2)
proof (induction s arbitrary: q rule: py_replace_cases [OF assms(1)])
  case 1
  then show ?case by simp
next
  case (2 t)
  then obtain b where b: "c @ d # ins @ py_replace c (c @ d # ins) t = q @ b"
    by (auto simp: py_replace_match [OF assms(1)] is_prefix_iff)
  then have "\<exists>r. c = q @ r" using 2(3) by (auto simp: append_eq_append_conv2 Cons_eq_append_conv)
  then show ?case by (auto simp: is_prefix_iff)
next
  case (3 x xs)
  show ?case
  proof (cases q)
    case (Cons y ys)
    then have "y = x" "is_prefix ys (py_replace c (c @ d # ins) xs)"
      using 3(3) by (auto simp: py_replace_step [OF 3(1)] is_prefix_def)
    with 3(2) [of ys] 3(4) Cons show ?thesis by (simp add: is_prefix_def)
  qed (simp add: is_prefix_def)
qed

text \<open>No occurrence of \<open>p\<close> starts inside \<open>w\<close>, whatever follows \<open>w\<close>.\<close>

definition apart :: "string \<Rightarrow> string \<Rightarrow> bool" where
  "apart p w \<longleftrightarrow> list_all (\<lambda>k. take (length p) (drop k w) \<noteq> take (length w - k) p) [0..<length w]"

lemma apart_prefix: "apart p w \<Longrightarrow> k < length w \<Longrightarrow> \<not> is_prefix p (drop k w @ r)"
proof
  assume a: "apart p w" "k < length w" "is_prefix p (drop k w @ r)"
  let ?u = "drop k w"
  obtain b where b: "?u @ r = p @ b" using a(3) by (auto simp: is_prefix_iff)
  have "take (length p) ?u = take (length ?u) p"
    using arg_cong [OF b, of "take (min (length p) (length ?u))"] by (auto simp: min_def split: if_splits)
  with a(1,2) show False by (simp add: apart_def list_all_iff)
qed

lemma infix_replace:
  assumes "c \<noteq> []" and "d \<notin> set p" and "apart p (d # ins)"
  shows "has_infix p (py_replace c (c @ d # ins) s) \<Longrightarrow> has_infix p s"
proof (induction s rule: py_replace_cases [OF assms(1)])
  case 1
  then show ?case by simp
next
  case (2 t)
  let ?w = "d # ins" and ?r = "py_replace c (c @ d # ins) t"
  obtain i where i: "is_prefix p (drop i (c @ ?w @ ?r))"
    using 2(2) by (auto simp: py_replace_match [OF assms(1)] has_infix_prefix)
  consider "i < length c" | "length c \<le> i" "i - length c < length ?w" | "length c + length ?w \<le> i" by fastforce
  then show ?case
  proof cases
    case 1
    then obtain b where "drop i c @ ?w @ ?r = p @ b" using i by (auto simp: is_prefix_iff)
    then have "\<exists>b. drop i c = p @ b" using assms(2) by (auto simp: append_eq_append_conv2 Cons_eq_append_conv)
    then have "has_infix p c" by (metis append_take_drop_id has_infix_iff)
    then show ?thesis by (simp add: has_infix_append)
  next
    case 2
    then have "drop i (c @ ?w @ ?r) = drop (i - length c) ?w @ ?r" by (simp del: append_Cons)
    with i apart_prefix [OF assms(3) 2(2), of ?r] show ?thesis by simp
  next
    case 3
    then have "drop i (c @ ?w @ ?r) = drop (i - (length c + length ?w)) ?r" by (simp del: append_Cons)
    with i have "has_infix p ?r" using has_infix_prefix by metis
    with 2(1) show ?thesis by (simp add: has_infix_append)
  qed
next
  case (3 x xs)
  consider "is_prefix p (py_replace c (c @ d # ins) (x # xs))" | "has_infix p (py_replace c (c @ d # ins) xs)"
    using 3(3) by (auto simp: py_replace_step [OF 3(1)] is_prefix_def)
  then show ?case
  proof cases
    case 1
    then have "is_prefix p (x # xs)" by (rule prefix_replace [OF assms(1,2)])
    then show ?thesis by (simp add: is_prefix_def)
  next
    case 2
    with 3(2) show ?thesis by simp
  qed
qed

section \<open>Properties\<close>

text \<open>What the second half of \<^verbatim>\<open>NATIVE_ENTRY_RE\<close> and \<^verbatim>\<open>TRANSFORMERS_ENTRY_RE\<close> look for.\<close>

definition trailing_comma :: string where
  "trailing_comma = quoted MODEL_NAME @ '',''"

definition transformers_literal :: string where
  "transformers_literal = quoted ''transformers'' @ '',''"

definition first_candidate :: string where
  "first_candidate = hd INSERT_CANDIDATES"

definition patchable :: "string \<Rightarrow> bool" where
  "patchable content \<longleftrightarrow> has_infix first_candidate content \<and> \<not> has_infix trailing_comma content \<and>
     \<not> has_infix transformers_literal content"

lemma native_line_apart: "apart trailing_comma native_line" "apart transformers_literal native_line"
  by code_simp+

lemma patchable_plain:
  assumes "patchable content"
  shows "rx_remove TRANSFORMERS_ENTRY_RE content = content" and "\<not> rx_search NATIVE_ENTRY_RE content"
proof -
  show "rx_remove TRANSFORMERS_ENTRY_RE content = content"
    unfolding TRANSFORMERS_ENTRY_RE_def
    by (rule rx_remove_absent [of transformers_literal])
       (use assms in \<open>auto simp: patchable_def transformers_literal_def\<close>)
  show "\<not> rx_search NATIVE_ENTRY_RE content"
  proof
    assume "rx_search NATIVE_ENTRY_RE content"
    then have "has_infix trailing_comma content"
      unfolding NATIVE_ENTRY_RE_def by (rule rx_search_lit) (auto simp: trailing_comma_def)
    with assms show False by (simp add: patchable_def)
  qed
qed

lemma patch_content_eq:
  assumes "patchable content"
  shows "patch_content content = py_replace first_candidate (first_candidate @ native_line) content"
proof -
  have "filter (\<lambda>c. has_infix c content) INSERT_CANDIDATES =
      first_candidate # filter (\<lambda>c. has_infix c content) (tl INSERT_CANDIDATES)"
    using assms unfolding patchable_def first_candidate_def INSERT_CANDIDATES_def by simp
  with patchable_plain [OF assms] show ?thesis by (simp add: patch_content_def)
qed

lemma native_in_patched:
  assumes "patchable content"
  shows "has_infix NATIVE_ENTRY (patch_content content)"
proof -
  have "has_infix (first_candidate @ native_line) (patch_content content)"
    unfolding patch_content_eq [OF assms] using assms
    by (intro py_replace_infix) (auto simp: patchable_def first_candidate_def INSERT_CANDIDATES_def quoted_def)
  moreover have "has_infix NATIVE_ENTRY native_line" unfolding native_line_def has_infix_iff by (metis append_Cons append.assoc)
  ultimately show ?thesis unfolding has_infix_iff by (metis append.assoc)
qed

lemma patch_content_patchable:
  assumes "patchable content"
  shows "patchable (patch_content content)"
proof -
  have c: "first_candidate \<noteq> []" by (simp add: first_candidate_def INSERT_CANDIDATES_def quoted_def)
  obtain ins where n: "native_line = CHR 0x0A # ins" by (simp add: native_line_def)
  have nl: "CHR 0x0A \<notin> set trailing_comma" "CHR 0x0A \<notin> set transformers_literal" by code_simp+
  have "has_infix (first_candidate @ native_line) (patch_content content)"
    unfolding patch_content_eq [OF assms] using assms by (intro py_replace_infix c) (simp add: patchable_def)
  then have "has_infix first_candidate (patch_content content)" by (auto simp: has_infix_iff)
  moreover have "\<not> has_infix q (patch_content content)"
    if "CHR 0x0A \<notin> set q" "apart q native_line" "\<not> has_infix q content" for q
    using infix_replace [OF c that(1), of ins content] that(2,3) unfolding patch_content_eq [OF assms] n by blast
  ultimately show ?thesis using assms nl native_line_apart unfolding patchable_def by blast
qed

text \<open>
  The registry patch is not idempotent. On a registry with the usual insertion point and
  without an entry for the model, every run of the patch writes the native entry, and none
  recognises it afterwards: the pattern for an existing entry demands a comma before the
  closing parenthesis, which the written entry does not have. So \<open>k\<close> runs lengthen the file by at
  least \<open>k\<close> entries.
\<close>

theorem registry_patch_repeats:
  assumes "has_infix (hd INSERT_CANDIDATES) content"
    and "\<not> has_infix (quoted MODEL_NAME @ '','') content" and "\<not> has_infix (quoted ''transformers'' @ '','') content"
  shows "length content + k * length native_line \<le> length ((patch_content ^^ k) content) \<and>
    (0 < k \<longrightarrow> has_infix NATIVE_ENTRY ((patch_content ^^ k) content)) \<and>
    \<not> rx_search NATIVE_ENTRY_RE ((patch_content ^^ k) content)"
proof -
  have p0: "patchable content"
    using assms by (simp add: patchable_def first_candidate_def trailing_comma_def transformers_literal_def)
  have c: "first_candidate \<noteq> []" by (simp add: first_candidate_def INSERT_CANDIDATES_def quoted_def)
  have inv: "patchable ((patch_content ^^ k) content) \<and>
      length content + k * length native_line \<le> length ((patch_content ^^ k) content)" for k
  proof (induction k)
    case (Suc k)
    let ?x = "(patch_content ^^ k) content"
    have "length ?x + length native_line \<le> length (patch_content ?x)"
      using py_replace_grows [OF c, of ?x native_line] Suc patch_content_eq [of ?x] by (simp add: patchable_def)
    with Suc patch_content_patchable [of ?x] show ?case by simp
  qed (use p0 in simp)
  from native_in_patched inv [of "k - 1"] have "0 < k \<longrightarrow> has_infix NATIVE_ENTRY ((patch_content ^^ k) content)" by (cases k) auto
  moreover have "\<not> rx_search NATIVE_ENTRY_RE ((patch_content ^^ k) content)" using inv [of k] patchable_plain(2) by blast
  ultimately show ?thesis using inv by blast
qed

theorem registry_patch_repeats_witness:
  "length (hd INSERT_CANDIDATES) + 2 * length native_line \<le> length ((patch_content ^^ 2) (hd INSERT_CANDIDATES)) \<and>
   has_infix NATIVE_ENTRY ((patch_content ^^ 2) (hd INSERT_CANDIDATES))"
proof -
  have "has_infix (hd INSERT_CANDIDATES) (hd INSERT_CANDIDATES)" "\<not> has_infix (quoted MODEL_NAME @ '','') (hd INSERT_CANDIDATES)"
    "\<not> has_infix (quoted ''transformers'' @ '','') (hd INSERT_CANDIDATES)" by code_simp+
  from registry_patch_repeats [OF this, of 2] show ?thesis by simp
qed

text \<open>
  The export patch is idempotent. On a file that neither mentions the model nor imports from
  the port's module, the patch writes a file that mentions the model, and a second run leaves
  that file alone; a file that mentions the model is never written.
\<close>

theorem init_patch_idempotent:
  assumes "\<not> has_infix ''from .smollm3 import'' content"
  shows "(case patch_init content of
      None \<Rightarrow> has_infix MODEL_NAME content
    | Some new \<Rightarrow> has_infix MODEL_NAME new \<and> patch_init new = None)"
proof -
  have name: "patch_init x = None \<longleftrightarrow> has_infix MODEL_NAME x" for x
  proof -
    have "has_infix MODEL_NAME x" if "has_infix (quoted MODEL_NAME) x"
      using that unfolding has_infix_iff quoted_def by (metis append.assoc append_Cons append_Nil)
    then show ?thesis by (auto simp: patch_init_def Let_def split: list.splits)
  qed
  have lines: "has_infix MODEL_NAME import_line" "has_infix MODEL_NAME export_line" by code_simp+
  have app: "has_infix MODEL_NAME (a @ l @ b)" if "has_infix MODEL_NAME l" for a b l
    using that by (simp add: has_infix_append)
  have "has_infix MODEL_NAME new" if "patch_init content = Some new" for new
    using that assms app [OF lines(1)] app [OF lines(2)] app [OF lines(1), of "[]"]
    by (auto simp: patch_init_def Let_def simp del: take_append drop_append split: list.splits if_splits)
  with name show ?thesis by (auto split: option.splits)
qed

theorem init_patch_idempotent_witness:
  "\<exists>new. patch_init (''from .llama import LlamaForCausalLM'' @ [CHR 0x0A] @ ''__all__ = ['' @ quoted ''LlamaForCausalLM'' @ '']'') = Some new \<and>
     has_infix MODEL_NAME new \<and> patch_init new = None"
proof -
  let ?c = "''from .llama import LlamaForCausalLM'' @ [CHR 0x0A] @ ''__all__ = ['' @ quoted ''LlamaForCausalLM'' @ '']''"
  have "\<not> has_infix ''from .smollm3 import'' ?c" "\<not> has_infix MODEL_NAME ?c" by code_simp+
  with init_patch_idempotent [of ?c] show ?thesis by (auto split: option.splits)
qed

end
