(* ===== verification/PatchScripts.thy ===== *)
theory PatchScripts
  imports VllmPatch
begin

text \<open>
  The two patch scripts as the image build runs them, \<^verbatim>\<open>scripts/patch_registry.py\<close> and then
  \<^verbatim>\<open>scripts/patch_init.py\<close>: the guards around the text edits of theory \<^verbatim>\<open>VllmPatch\<close>, the file each of them
  writes and the message it prints. Both end with exit code 0 in every branch, so the message is
  the only sign of a patch that was not applied. A message has a constructor per \<^verbatim>\<open>print\<close>; the
  string of a message is the name of the file in it.
\<close>

datatype patch_message =
  RegistrySkipped
| RegistryMissing
| AlreadyNative string
| RegisteredNative string
| NoInsertionPoint string
| InitSkipped
| InitMissing
| ViaGenerationModels
| AlreadyExported
| Exported

text \<open>
  The installation of vLLM as the scripts see it: the contents of \<^verbatim>\<open>registry.py\<close> and \<^verbatim>\<open>__init__.py\<close> under its
  \<^verbatim>\<open>model_executor/models\<close>, absent files as \<open>None\<close>.
\<close>

record vllm_models =
  vm_registry :: "string option"
  vm_init :: "string option"

definition patch_content_message :: "string \<Rightarrow> string \<Rightarrow> patch_message" where
  "patch_content_message content label =
     (let content = rx_remove TRANSFORMERS_ENTRY_RE content
      in if rx_search NATIVE_ENTRY_RE content then AlreadyNative label
         else if list_ex (\<lambda>c. has_infix c content) INSERT_CANDIDATES then RegisteredNative label
         else NoInsertionPoint label)"

text \<open>The scripts on an installation, or on none when the package cannot be imported.\<close>

definition patch_registry_script :: "vllm_models option \<Rightarrow> patch_message \<times> vllm_models option" where
  "patch_registry_script vllm =
     (case vllm of
        None \<Rightarrow> (RegistrySkipped, None)
      | Some m \<Rightarrow>
          (case vm_registry m of
             Some content \<Rightarrow> (patch_content_message content ''registry.py'', Some (m\<lparr>vm_registry := Some (patch_content content)\<rparr>))
           | None \<Rightarrow>
               (case vm_init m of
                  Some content \<Rightarrow> (patch_content_message content ''__init__.py'', Some (m\<lparr>vm_init := Some (patch_content content)\<rparr>))
                | None \<Rightarrow> (RegistryMissing, Some m))))"

definition patch_init_script :: "vllm_models option \<Rightarrow> patch_message \<times> vllm_models option" where
  "patch_init_script vllm =
     (case vllm of
        None \<Rightarrow> (InitSkipped, None)
      | Some m \<Rightarrow>
          (case vm_init m of
             None \<Rightarrow> (InitMissing, Some m)
           | Some content \<Rightarrow>
               (case patch_init content of
                  Some new \<Rightarrow> (Exported, Some (m\<lparr>vm_init := Some new\<rparr>))
                | None \<Rightarrow>
                    (if has_infix ''_GENERATION_MODELS'' content \<and> has_infix (quoted MODEL_NAME) content
                     then ViaGenerationModels else AlreadyExported, Some m))))"

text \<open>The two steps of the image build.\<close>

definition build_patches :: "vllm_models option \<Rightarrow> (patch_message \<times> patch_message) \<times> vllm_models option" where
  "build_patches vllm =
     (let (m1, vllm1) = patch_registry_script vllm; (m2, vllm2) = patch_init_script vllm1 in ((m1, m2), vllm2))"

section \<open>Facts\<close>

text \<open>On the files, the script is the function of theory \<^verbatim>\<open>VllmPatch\<close>.\<close>

lemma registry_script_files:
  "map_option (\<lambda>m. (vm_registry m, vm_init m)) (snd (patch_registry_script vllm)) =
     map_option (\<lambda>m. patch_registry (vm_registry m) (vm_init m)) vllm"
  by (cases vllm) (auto simp: patch_registry_script_def patch_registry_def split: option.splits)

text \<open>A file is changed by the insertion only when that is what the message says.\<close>

lemma message_of_insertion:
  "patch_content content =
     (if patch_content_message content label = RegisteredNative label
      then (let rest = rx_remove TRANSFORMERS_ENTRY_RE content; c = hd (filter (\<lambda>c. has_infix c rest) INSERT_CANDIDATES)
            in py_replace c (c @ native_line) rest)
      else rx_remove TRANSFORMERS_ENTRY_RE content)"
proof (cases "filter (\<lambda>c. has_infix c (rx_remove TRANSFORMERS_ENTRY_RE content)) INSERT_CANDIDATES")
  case Nil
  then have "\<not> list_ex (\<lambda>c. has_infix c (rx_remove TRANSFORMERS_ENTRY_RE content)) INSERT_CANDIDATES"
    by (auto simp: filter_empty_conv list_ex_iff)
  with Nil show ?thesis by (simp add: patch_content_def patch_content_message_def Let_def)
next
  case (Cons c cs)
  then have "list_ex (\<lambda>c. has_infix c (rx_remove TRANSFORMERS_ENTRY_RE content)) INSERT_CANDIDATES"
    unfolding list_ex_iff by (metis filter_eq_Cons_iff in_set_conv_decomp)
  with Cons show ?thesis by (simp add: patch_content_def patch_content_message_def Let_def)
qed

lemma native_names_model: "has_infix NATIVE_ENTRY s \<Longrightarrow> has_infix MODEL_NAME s"
  unfolding has_infix_iff NATIVE_ENTRY_def quoted_def by (metis append.assoc append_Cons append_Nil)

lemma patchable_message:
  assumes "patchable content"
  shows "patch_content_message content label = RegisteredNative label"
proof -
  have r: "rx_remove TRANSFORMERS_ENTRY_RE content = content" and s: "\<not> rx_search NATIVE_ENTRY_RE content"
    using patchable_plain [OF assms] by simp_all
  have "list_ex (\<lambda>c. has_infix c content) INSERT_CANDIDATES"
    using assms by (simp add: patchable_def first_candidate_def INSERT_CANDIDATES_def)
  with r s show ?thesis by (simp add: patch_content_message_def)
qed

text \<open>
  The build on the two layouts of vLLM the scripts know. With a separate \<^verbatim>\<open>registry.py\<close> the entry goes
  there and the export into \<^verbatim>\<open>__init__.py\<close>; with the table in \<^verbatim>\<open>__init__.py\<close> the first script edits that file and
  the second leaves it alone. Without an installation, or without either file, both report that
  they skipped.
\<close>

theorem build_registers_model:
  assumes "patchable content"
  shows "\<And>i. \<not> has_infix ''from .smollm3 import'' i \<Longrightarrow> \<not> has_infix MODEL_NAME i \<Longrightarrow>
      \<exists>i'. build_patches (Some \<lparr>vm_registry = Some content, vm_init = Some i\<rparr>) =
        ((RegisteredNative ''registry.py'', Exported), Some \<lparr>vm_registry = Some (patch_content content), vm_init = Some i'\<rparr>) \<and>
        has_infix NATIVE_ENTRY (patch_content content) \<and> has_infix MODEL_NAME i'"
    and "\<exists>msg \<in> {ViaGenerationModels, AlreadyExported}.
      build_patches (Some \<lparr>vm_registry = None, vm_init = Some content\<rparr>) =
        ((RegisteredNative ''__init__.py'', msg), Some \<lparr>vm_registry = None, vm_init = Some (patch_content content)\<rparr>) \<and>
        has_infix NATIVE_ENTRY (patch_content content)"
    and "build_patches None = ((RegistrySkipped, InitSkipped), None)"
    and "build_patches (Some \<lparr>vm_registry = None, vm_init = None\<rparr>) =
      ((RegistryMissing, InitMissing), Some \<lparr>vm_registry = None, vm_init = None\<rparr>)"
proof -
  note n = native_in_patched [OF assms] and m = patchable_message [OF assms]
  show "\<exists>i'. build_patches (Some \<lparr>vm_registry = Some content, vm_init = Some i\<rparr>) =
        ((RegisteredNative ''registry.py'', Exported), Some \<lparr>vm_registry = Some (patch_content content), vm_init = Some i'\<rparr>) \<and>
        has_infix NATIVE_ENTRY (patch_content content) \<and> has_infix MODEL_NAME i'"
    if "\<not> has_infix ''from .smollm3 import'' i" and "\<not> has_infix MODEL_NAME i" for i
  proof -
    from init_patch_idempotent [OF that(1)] that(2) obtain i' where "patch_init i = Some i'" "has_infix MODEL_NAME i'"
      by (auto split: option.splits)
    with n m show ?thesis by (simp add: build_patches_def patch_registry_script_def patch_init_script_def)
  qed
  have "patch_init (patch_content content) = None" using native_names_model [OF n] by (simp add: patch_init_def)
  with n m show "\<exists>msg \<in> {ViaGenerationModels, AlreadyExported}.
      build_patches (Some \<lparr>vm_registry = None, vm_init = Some content\<rparr>) =
        ((RegisteredNative ''__init__.py'', msg), Some \<lparr>vm_registry = None, vm_init = Some (patch_content content)\<rparr>) \<and>
        has_infix NATIVE_ENTRY (patch_content content)"
    by (simp add: build_patches_def patch_registry_script_def patch_init_script_def)
qed (simp_all add: build_patches_def patch_registry_script_def patch_init_script_def)

end
