(* ===== verification/Benchmark.thy ===== *)
theory Benchmark
  imports AnyScheduler
begin

text \<open>
  The benchmark of the schedulers: \<^verbatim>\<open>python/benchmark/metrics.py\<close> (percentiles and aggregation)
  and the workers of \<^verbatim>\<open>fcfs.py\<close> and \<^verbatim>\<open>sjf.py\<close>, seen as histories of scheduler calls.
  The random service times and the clock are arguments.
\<close>

section \<open>Metrics\<close>

record request_metric =
  rm_success :: bool
  rm_e2e_ms :: real
  rm_queue_wait_ms :: real
  rm_feature_ms :: real
  rm_predict_ms :: real
  rm_schedule_ms :: real
  rm_tokens :: int
  rm_concurrency :: int

record benchmark_result =
  br_scheduler :: string
  br_concurrency :: int
  br_n_requests :: nat
  br_n_success :: nat
  br_throughput_rps :: real
  br_tokens_per_sec :: real
  br_e2e_p50_ms :: real
  br_e2e_p95_ms :: real
  br_e2e_p99_ms :: real
  br_queue_wait_p50_ms :: real
  br_queue_wait_p99_ms :: real
  br_feature_p50_ms :: real
  br_predict_p50_ms :: real
  br_schedule_p50_ms :: real
  br_error_rate :: real
  br_elapsed_sec :: real
  br_gpu_utilization :: real
  br_cpu_utilization :: real

definition percentile :: "real list \<Rightarrow> real \<Rightarrow> real" where
  "percentile data p =
     (if data = [] then 0
      else let sorted_data = sort data;
               idx = max 0 (trunc (real (length sorted_data) * p) - 1)
           in sorted_data ! nat (min idx (int (length sorted_data) - 1)))"

text \<open>\<^verbatim>\<open>round(x, k)\<close>: to the nearest multiple of \<open>10\<^sup>-\<^sup>k\<close>, halves to the even one.\<close>

definition round_half_even :: "real \<Rightarrow> int" where
  "round_half_even x =
     (let f = \<lfloor>x\<rfloor>; d = x - real_of_int f
      in if d < 1 / 2 then f else if d > 1 / 2 then f + 1 else if even f then f else f + 1)"

definition py_round :: "nat \<Rightarrow> real \<Rightarrow> real" where
  "py_round k x = real_of_int (round_half_even (x * 10 ^ k)) / 10 ^ k"

definition aggregate_metrics :: "string \<Rightarrow> int \<Rightarrow> request_metric list \<Rightarrow> real \<Rightarrow> benchmark_result" where
  "aggregate_metrics name concurrency metrics elapsed_sec =
     (let successes = filter rm_success metrics;
          e2es = map rm_e2e_ms metrics;
          waits = map rm_queue_wait_ms metrics;
          features = map rm_feature_ms metrics;
          predicts = map rm_predict_ms metrics;
          schedules = map rm_schedule_ms metrics;
          total_tokens = sum_list (map rm_tokens successes)
      in \<lparr>br_scheduler = name, br_concurrency = concurrency, br_n_requests = length metrics,
          br_n_success = length successes,
          br_throughput_rps = py_round 3 (real (length successes) / max elapsed_sec (1 / 10 ^ 6)),
          br_tokens_per_sec = py_round 1 (real_of_int total_tokens / max elapsed_sec (1 / 10 ^ 6)),
          br_e2e_p50_ms = py_round 2 (percentile e2es (50 / 100)),
          br_e2e_p95_ms = py_round 2 (percentile e2es (95 / 100)),
          br_e2e_p99_ms = py_round 2 (percentile e2es (99 / 100)),
          br_queue_wait_p50_ms = py_round 2 (percentile waits (50 / 100)),
          br_queue_wait_p99_ms = py_round 2 (percentile waits (99 / 100)),
          br_feature_p50_ms = py_round 3 (percentile features (50 / 100)),
          br_predict_p50_ms = py_round 3 (percentile predicts (50 / 100)),
          br_schedule_p50_ms = py_round 3 (percentile schedules (50 / 100)),
          br_error_rate = py_round 2 (real (length metrics - length successes) / real (max (length metrics) 1) * 100),
          br_elapsed_sec = py_round 2 elapsed_sec,
          br_gpu_utilization = 0, br_cpu_utilization = 0\<rparr>)"

section \<open>Workers\<close>

text \<open>
  The scheduler calls of one worker before its service time: \<^verbatim>\<open>submit\<close> and \<^verbatim>\<open>acquire()\<close> without a
  time limit, with no suspension in between. The request object is in the store.
\<close>

definition worker_ops :: "clocks \<Rightarrow> oref \<Rightarrow> clocks sched_op list" where
  "worker_ops ck r = [Submit ck r, Acquire (ck\<lparr>ck_timeout := None\<rparr>)]"

text \<open>After the service time: \<^verbatim>\<open>complete\<close> and the metric, from the acquired request.\<close>

definition worker_metric ::
  "real \<Rightarrow> real \<Rightarrow> real \<Rightarrow> real \<Rightarrow> real \<Rightarrow> scheduled_request \<Rightarrow> int \<Rightarrow> request_metric" where
  "worker_metric wait_ms svc_ms feature_ms predict_ms schedule_ms acquired concurrency =
     \<lparr>rm_success = True, rm_e2e_ms = wait_ms + svc_ms, rm_queue_wait_ms = wait_ms, rm_feature_ms = feature_ms,
      rm_predict_ms = predict_ms, rm_schedule_ms = schedule_ms, rm_tokens = sr_max_tokens acquired,
      rm_concurrency = concurrency\<rparr>"

text \<open>
  The request a worker builds: \<open>i\<close> is its number, \<open>max_tokens\<close> its random draw, \<open>rid\<close> the \<^verbatim>\<open>uuid4\<close>.
  The oracle's worker and that of \<^verbatim>\<open>fcfs.py\<close> take the draw as the prediction; the worker of the
  predicted scheduler asks the predictor before it submits.
\<close>

definition PROMPTS :: "string list" where
  "PROMPTS = [''What is machine learning?'', ''Write a Python sort function.'', ''Explain quantum computing briefly.'',
     ''List 5 database optimization tips.'', ''How does attention work in transformers?'', ''Debug this SQL query.'',
     ''Summarize the history of AI.'', ''Compare REST and GraphQL.'']"

definition worker_prompt :: "nat \<Rightarrow> string" where
  "worker_prompt i = PROMPTS ! (i mod length PROMPTS)"

definition worker_request :: "string \<Rightarrow> real \<Rightarrow> nat \<Rightarrow> int \<Rightarrow> real \<Rightarrow> scheduled_request" where
  "worker_request rid now i max_tokens predicted =
     \<lparr>sr_request_id = rid, sr_prompt = worker_prompt i,
      sr_messages = PList [PDict [(''role'', PStr ''user''), (''content'', PStr (worker_prompt i))]],
      sr_max_tokens = max_tokens, sr_predicted_tokens = predicted, sr_priority = predicted,
      sr_enqueue_time = now, sr_metadata = []\<rparr>"

definition sjf_worker_request ::
  "predictor option \<Rightarrow> bool \<Rightarrow> real \<Rightarrow> real \<Rightarrow> string \<Rightarrow> real \<Rightarrow> nat \<Rightarrow> int \<Rightarrow> (scheduled_request \<times> real \<times> real) pyres" where
  "sjf_worker_request predictor use_oracle t0 t1 rid now i max_tokens =
     (case predictor of
        Some p \<Rightarrow>
          if \<not> use_oracle
          then bind_res (predict p t0 t1 (worker_prompt i)) (\<lambda>pred.
                 Inr (worker_request rid now i max_tokens (pr_predicted_tokens pred),
                      pr_feature_latency_ms pred, pr_predict_latency_ms pred))
          else Inr (worker_request rid now i max_tokens (real_of_int max_tokens), 0, 0)
      | None \<Rightarrow> Inr (worker_request rid now i max_tokens (if use_oracle then real_of_int max_tokens else 0), 0, 0))"

text \<open>\<^verbatim>\<open>service_time\<close>: the seconds it sleeps, with its random share, and the milliseconds it reports.\<close>

definition service_time :: "real \<Rightarrow> int \<Rightarrow> real \<times> real" where
  "service_time jitter tokens = (real_of_int tokens * (2 / 1000) + jitter, real_of_int tokens * 2)"

text \<open>A run of the simulation: workers starting and finishing, in the order of the event loop.\<close>

datatype sim_event = WorkerStart clocks oref | WorkerEnd string

fun sim_ops :: "sim_event \<Rightarrow> clocks sched_op list" where
  "sim_ops (WorkerStart ck r) = worker_ops ck r"
| "sim_ops (WorkerEnd k) = [Complete k True]"

section \<open>Facts\<close>

lemma count_sorted_nth:
  assumes "sorted xs" and "k < length xs"
  shows "Suc k \<le> length (filter (\<lambda>x. x \<le> xs ! k) xs)" and "length (filter (\<lambda>x. x < xs ! k) xs) \<le> k"
proof -
  have "\<forall>x \<in> set (take (Suc k) xs). x \<le> xs ! k"
    using assms by (auto simp: in_set_conv_nth sorted_iff_nth_mono)
  then have "filter (\<lambda>x. x \<le> xs ! k) (take (Suc k) xs) = take (Suc k) xs" by simp
  then have "Suc k = length (filter (\<lambda>x. x \<le> xs ! k) (take (Suc k) xs))" using assms(2) by simp
  also have "\<dots> \<le> length (filter (\<lambda>x. x \<le> xs ! k) (take (Suc k) xs @ drop (Suc k) xs))"
    unfolding filter_append by simp
  finally show "Suc k \<le> length (filter (\<lambda>x. x \<le> xs ! k) xs)" by simp
  have "\<forall>x \<in> set (drop k xs). \<not> x < xs ! k"
    using assms by (auto simp: in_set_conv_nth sorted_iff_nth_mono not_less)
  then have "filter (\<lambda>x. x < xs ! k) (drop k xs) = []" by (simp add: filter_empty_conv)
  then have "filter (\<lambda>x. x < xs ! k) (take k xs @ drop k xs) = filter (\<lambda>x. x < xs ! k) (take k xs)"
    unfolding filter_append by simp
  then have "length (filter (\<lambda>x. x < xs ! k) xs) = length (filter (\<lambda>x. x < xs ! k) (take k xs))" by simp
  also have "\<dots> \<le> length (take k xs)" by (rule length_filter_le)
  finally show "length (filter (\<lambda>x. x < xs ! k) xs) \<le> k" using assms(2) by simp
qed

lemma length_filter_sort [simp]: "length (filter P (sort xs)) = length (filter P xs)"
  by (metis mset_filter mset_sort size_mset)

definition pct_index :: "nat \<Rightarrow> real \<Rightarrow> nat" where
  "pct_index n p = nat (min (max 0 (trunc (real n * p) - 1)) (int n - 1))"

lemma percentile_eq: "data \<noteq> [] \<Longrightarrow> percentile data p = sort data ! pct_index (length data) p"
  by (simp add: percentile_def pct_index_def Let_def)

lemma pct_index_less: "0 < n \<Longrightarrow> pct_index n p < n"
  by (simp add: pct_index_def)

section \<open>Properties\<close>

text \<open>
  Percentiles. The \<open>p\<close>-percentile of a non-empty list is one of its values; at least one and at
  least \<open>\<lfloor>n p\<rfloor>\<close> values are less than or equal to it, at most \<open>\<lfloor>n p\<rfloor> - 1\<close> (or none) are
  smaller, and it never decreases when \<open>p\<close> grows.
\<close>

theorem percentile_rank:
  assumes "data \<noteq> []" and "0 \<le> p" and "p \<le> q" and "q \<le> 1"
  shows "percentile data p \<in> set data \<and>
    max 1 \<lfloor>real (length data) * p\<rfloor> \<le> int (length (filter (\<lambda>x. x \<le> percentile data p) data)) \<and>
    int (length (filter (\<lambda>x. x < percentile data p) data)) \<le> max 0 (\<lfloor>real (length data) * p\<rfloor> - 1) \<and>
    percentile data p \<le> percentile data q"
proof -
  let ?n = "length data"
  let ?f = "\<lambda>p. \<lfloor>real ?n * p\<rfloor>"
  have n: "0 < ?n" using assms(1) by simp
  have le: "?f x \<le> int ?n" if "0 \<le> x" "x \<le> 1" for x
  proof -
    have "real ?n * x \<le> real ?n" using that n by (simp add: mult_le_cancel_left1)
    then show ?thesis by linarith
  qed
  have idx: "int (pct_index ?n x) = max 0 (?f x - 1)" if "0 \<le> x" "x \<le> 1" for x
    using le [OF that] that n by (simp add: pct_index_def trunc_nonneg)
  have p: "0 \<le> p" "p \<le> 1" "0 \<le> q" using assms by simp_all
  note k = pct_index_less [OF n, of p] and e = percentile_eq [OF assms(1)]
  have k': "pct_index ?n p < length (sort data)" using k by simp
  have mem: "percentile data p \<in> set data" unfolding e using k' by (metis nth_mem set_sort)
  note c = count_sorted_nth [OF sorted_sort k', folded e, unfolded length_filter_sort]
  have "?f p \<le> ?f q" using assms n by (intro floor_mono mult_left_mono) auto
  then have "pct_index ?n p \<le> pct_index ?n q" using idx [OF p(1,2)] idx [OF p(3) assms(4)] by linarith
  then have mono: "percentile data p \<le> percentile data q"
    unfolding e using pct_index_less [OF n, of q] by (intro sorted_nth_mono) simp_all
  show ?thesis using c idx [OF p(1,2)] mem mono by linarith
qed

theorem percentile_rank_witness:
  "percentile [30, 10, 20, 40] (1 / 2) \<in> set [30, 10, 20, 40] \<and>
   percentile [30, 10, 20, 40] (1 / 2) \<le> percentile [30, 10, 20, 40] (99 / 100)"
  using percentile_rank [of "[30, 10, 20, 40]" "1 / 2" "99 / 100"] by simp

lemma worker_block:
  assumes "any_inv w" and "any_waiting w = {#}" and "any_may_submit r w"
  shows "\<exists>w'. sched_run any_iface (worker_ops ck r) w = ([r], w') \<and> any_inv w' \<and> any_waiting w' = {#}"
proof -
  let ?w1 = "if_submit any_iface ck r w" and ?ck = "ck\<lparr>ck_timeout := None\<rparr>"
  note s = any_contract.submit_ok [OF assms(1,3) refl, of ck]
  obtain a w' where a: "if_acquire any_iface ?ck ?w1 = (a, w')" by (metis surj_pair)
  note q = any_contract.acquire_ok [OF s [THEN conjunct1] a]
  have w1: "any_waiting ?w1 = {#r#}" using s assms(2) by simp
  with q have "a = Acquired r" "any_waiting w' = {#}" by (auto split: acq.splits)
  with a q show ?thesis by (simp add: worker_ops_def)
qed

lemma sched_run_append:
  "sched_run I (xs @ ys) s =
     (case sched_run I xs s of (rs, s') \<Rightarrow> case sched_run I ys s' of (rs', s'') \<Rightarrow> (rs @ rs', s''))"
  by (induction xs arbitrary: s) (auto split: prod.split)

lemma admissible_append:
  "admissible may I (xs @ ys) s \<longleftrightarrow> admissible may I xs s \<and> admissible may I ys (snd (sched_run I xs s))"
  by (induction xs arbitrary: s) (auto split: prod.split)

text \<open>
  The worker has predicted before it submits, so the scheduler under test never predicts: what
  the benchmark measures of a submission contains no inference, and no failure of it.
\<close>

lemma benchmark_never_predicts:
  assumes "sjf_worker_request (Some p) False t0 t1 rid now i n = Inr (req, f, m)" and "op_config p = default_model_config"
  shows "sjf_predict ck req s = (sr_predicted_tokens req, s)"
proof -
  obtain pred where "predict p t0 t1 (worker_prompt i) = Inr pred" "req = worker_request rid now i n (pr_predicted_tokens pred)"
    using assms(1) by (auto simp: sjf_worker_request_def bind_res_Inr_iff)
  moreover from this(1) assms(2) have "1 \<le> pr_predicted_tokens pred"
    using clamp_bounds [of 1 4096] by (auto simp: predict_Inr_iff default_model_config_def)
  ultimately show ?thesis by (simp add: sjf_predict_def worker_request_def)
qed

text \<open>
  The benchmark cannot tell the schedulers apart. A worker acquires right after it submits, with
  no suspension between the two calls, so on an initially empty scheduler of any of the three
  kinds every worker acquires its own request at once, and the queue is empty again: whatever
  the number of workers and the interleaving of their starts and ends, the requests are served
  in the order of submission.
\<close>

theorem benchmark_serves_in_submission_order:
  assumes "any_inv w" and "any_waiting w = {#}"
    and "admissible any_may_submit any_iface (concat (map sim_ops evs)) w"
  shows "fst (sched_run any_iface (concat (map sim_ops evs)) w) = submitted (concat (map sim_ops evs)) \<and>
    any_waiting (snd (sched_run any_iface (concat (map sim_ops evs)) w)) = {#}"
  using assms
proof (induction evs arbitrary: w)
  case Nil
  then show ?case by simp
next
  case (Cons ev evs)
  show ?case
  proof (cases ev)
    case (WorkerStart ck r)
    have "any_may_submit r w" using Cons.prems(3) WorkerStart by (simp add: worker_ops_def)
    from worker_block [OF Cons.prems(1,2) this, of ck] obtain w' where
      b: "sched_run any_iface (worker_ops ck r) w = ([r], w')" and w': "any_inv w'" "any_waiting w' = {#}"
      by blast
    have "admissible any_may_submit any_iface (concat (map sim_ops evs)) w'"
      using Cons.prems(3) WorkerStart b by (simp add: admissible_append)
    note IH = Cons.IH [OF w' this]
    have "submitted (worker_ops ck r @ xs) = r # submitted xs" for xs by (simp add: worker_ops_def)
    with IH b WorkerStart show ?thesis by (simp add: sched_run_append case_prod_beta)
  next
    case (WorkerEnd k)
    let ?w = "if_complete any_iface k True w"
    have "any_inv ?w" "any_waiting ?w = {#}"
      using any_contract.complete_ok [OF Cons.prems(1) refl, of k True] Cons.prems(2) by simp_all
    from Cons.IH [OF this] Cons.prems(3) WorkerEnd show ?thesis by (simp add: case_prod_beta)
  qed
qed

theorem benchmark_serves_in_submission_order_witness:
  "fst (sched_run any_iface (concat (map sim_ops
     [WorkerStart some_clocks 0, WorkerStart some_clocks 1, WorkerEnd ''x'', WorkerStart some_clocks 2]))
     (sample_store, AnyOracle oracle_init)) = [0, 1, 2]"
proof -
  let ?evs = "[WorkerStart some_clocks 0, WorkerStart some_clocks 1, WorkerEnd ''x'', WorkerStart some_clocks 2]"
  have "any_inv (sample_store, AnyOracle oracle_init)" "any_waiting (sample_store, AnyOracle oracle_init) = {#}"
    using oracle_init_inv by simp_all
  moreover have "admissible any_may_submit any_iface (concat (map sim_ops ?evs)) (sample_store, AnyOracle oracle_init)"
    by code_simp
  ultimately have "fst (sched_run any_iface (concat (map sim_ops ?evs)) (sample_store, AnyOracle oracle_init))
      = submitted (concat (map sim_ops ?evs))"
    using benchmark_serves_in_submission_order by blast
  then show ?thesis by (simp add: worker_ops_def)
qed

end
