(* ===== verification/BenchSim.thy ===== *)
theory BenchSim
  imports Benchmark
begin

text \<open>
  The simulated benchmark as a system of tasks: \<^verbatim>\<open>simulate_fcfs\<close> of \<^verbatim>\<open>python/benchmark/fcfs.py\<close> and
  \<^verbatim>\<open>simulate_sjf\<close> of \<^verbatim>\<open>python/benchmark/sjf.py\<close>. \<^verbatim>\<open>gather\<close> starts one task per request; a task waits
  for the semaphore, builds its request, submits it, acquires one and suspends for the service
  time, then completes it and releases the semaphore. Between two suspensions a task runs alone.
  The turns of the aging task of the predicted scheduler fall in between, at any time.
\<close>

section \<open>State\<close>

text \<open>\<^verbatim>\<open>asyncio.Semaphore(n)\<close>.\<close>

definition mk_semaphore :: "int \<Rightarrow> nat pyres" where
  "mk_semaphore n = (if n < 0 then Inl (ValueError ''Semaphore initial value must be >= 0'') else Inr (nat n))"

text \<open>
  What the tasks draw or read: the request of a worker with the two latencies of its prediction
  (\<open>Inl\<close> when building it raises), the clock readings and the measured waiting time. \<open>bp_schedule_ms\<close> is
  the constant each of the two files records.
\<close>

record bench_params =
  bp_request :: "nat \<Rightarrow> (scheduled_request \<times> real \<times> real) pyres"
  bp_clocks :: "nat \<Rightarrow> clocks"
  bp_wait_ms :: "nat \<Rightarrow> real"
  bp_schedule_ms :: real
  bp_concurrency :: int

record in_service =
  sv_worker :: nat
  sv_acquired :: oref
  sv_wait_ms :: real
  sv_feature_ms :: real
  sv_predict_ms :: real

text \<open>
  \<open>bn_waiting\<close> are the tasks that wait for the semaphore, in the order in which they will get it;
  \<open>bn_blocked\<close> would be tasks whose \<^verbatim>\<open>acquire\<close> found nothing. An exception of a task is the exception
  of the simulation.
\<close>

record bench_sim =
  bn_waiting :: "nat list"
  bn_value :: nat
  bn_service :: "in_service list"
  bn_blocked :: "nat list"
  bn_world :: "any_scheduler world"
  bn_metrics :: "request_metric list"
  bn_error :: "pyexn option"

definition sim_init :: "nat \<Rightarrow> nat \<Rightarrow> any_scheduler world \<Rightarrow> bench_sim" where
  "sim_init value n_requests w =
     \<lparr>bn_waiting = [0..<n_requests], bn_value = value, bn_service = [], bn_blocked = [], bn_world = w,
      bn_metrics = [], bn_error = None\<rparr>"

section \<open>Steps\<close>

text \<open>From the semaphore to the service time: the request object of worker \<open>i\<close> is reference \<open>i\<close>.\<close>

definition worker_start :: "bench_params \<Rightarrow> nat \<Rightarrow> bench_sim \<Rightarrow> bench_sim" where
  "worker_start P i s =
     (case bp_request P i of
        Inl e \<Rightarrow> s\<lparr>bn_waiting := tl (bn_waiting s), bn_error := Some e\<rparr>
      | Inr (req, feature_ms, predict_ms) \<Rightarrow>
          (let w1 = any_submit (bp_clocks P i) i ((fst (bn_world s))(i := req), snd (bn_world s));
               s1 = s\<lparr>bn_waiting := tl (bn_waiting s), bn_value := bn_value s - 1\<rparr>
           in case any_acquire ((bp_clocks P i)\<lparr>ck_timeout := None\<rparr>) w1 of
                (Acquired r, w2) \<Rightarrow>
                  s1\<lparr>bn_world := w2, bn_service := bn_service s @
                       [\<lparr>sv_worker = i, sv_acquired = r, sv_wait_ms = bp_wait_ms P i,
                         sv_feature_ms = feature_ms, sv_predict_ms = predict_ms\<rparr>]\<rparr>
              | (_, w2) \<Rightarrow> s1\<lparr>bn_world := w2, bn_blocked := bn_blocked s @ [i]\<rparr>))"

text \<open>After the service time: completion, metric, release.\<close>

definition worker_finish :: "bench_params \<Rightarrow> in_service \<Rightarrow> bench_sim \<Rightarrow> bench_sim" where
  "worker_finish P v s =
     (let acquired = fst (bn_world s) (sv_acquired v);
          svc_ms = snd (service_time 0 (sr_max_tokens acquired))
      in s\<lparr>bn_world := (fst (bn_world s), any_complete (sr_request_id acquired) True (snd (bn_world s))),
           bn_metrics := bn_metrics s @
             [worker_metric (sv_wait_ms v) svc_ms (sv_feature_ms v) (sv_predict_ms v) (bp_schedule_ms P) acquired (bp_concurrency P)],
           bn_service := remove1 v (bn_service s), bn_value := bn_value s + 1\<rparr>)"

fun any_tick :: "real \<Rightarrow> any_scheduler world \<Rightarrow> any_scheduler world" where
  "any_tick now (st, AnySjf s) = (case aging_tick now (st, s) of (st', s') \<Rightarrow> (st', AnySjf s'))"
| "any_tick now w = w"

inductive sim_work :: "bench_params \<Rightarrow> bench_sim \<Rightarrow> bench_sim \<Rightarrow> bool" for P where
  start: "sim_work P s (worker_start P i s)"
    if "bn_error s = None" and "0 < bn_value s" and "bn_waiting s = i # rest"
| finish: "sim_work P s (worker_finish P v s)"
    if "bn_error s = None" and "v \<in> set (bn_service s)"

inductive_cases sim_workE: "sim_work P s s'"

text \<open>The states after \<open>k\<close> steps of the workers and any number of turns of the aging task.\<close>

inductive sim_reach :: "bench_params \<Rightarrow> bench_sim \<Rightarrow> nat \<Rightarrow> bench_sim \<Rightarrow> bool" for P s0 where
  init: "sim_reach P s0 0 s0"
| work: "sim_reach P s0 (Suc k) s'" if "sim_reach P s0 k s" and "sim_work P s s'"
| tick: "sim_reach P s0 k (s\<lparr>bn_world := any_tick now (bn_world s)\<rparr>)" if "sim_reach P s0 k s"

definition sim_done :: "bench_sim \<Rightarrow> bool" where
  "sim_done s \<longleftrightarrow> bn_waiting s = [] \<and> bn_service s = [] \<and> bn_blocked s = []"

section \<open>The scheduler between two workers\<close>

text \<open>No entry in any queue, and the fallback is not in charge.\<close>

definition empty_queue :: "'p pqueue \<Rightarrow> bool" where
  "empty_queue q \<longleftrightarrow> pq_heap q = [] \<and> pq_pending q = [] \<and> pq_cancelled q = {}"

fun idle :: "any_scheduler \<Rightarrow> bool" where
  "idle (AnyFcfs s) = (fcfs_queue s = [])"
| "idle (AnySjf s) = (\<not> sjf_use_fallback s \<and> empty_queue (sjf_queue s))"
| "idle (AnyOracle s) = empty_queue (or_queue s)"

lemma enqueue_dequeue_empty:
  assumes "empty_queue q"
  shows "\<exists>it q'. dequeue_loop now' (pq_enqueue now rid prio r q) = (Some it, q') \<and> pi_payload it = r \<and> empty_queue q'"
proof -
  have "heappush pitem_lt [] x = [x]" for x :: "'a pitem" by (simp add: heappush_def siftdown_def siftdown_loop.simps)
  then show ?thesis using assms
    by (simp add: dequeue_loop.simps [of now'] pq_enqueue_def empty_queue_def heappop_def take_item_def Let_def)
qed

lemma queue_acquire_own:
  "empty_queue q \<Longrightarrow> \<exists>q'. queue_acquire ck (pq_enqueue now rid prio r q) = (Acquired r, q') \<and> empty_queue q'"
  using enqueue_dequeue_empty [of q "ck_now ck" now rid prio r] by (auto simp: queue_acquire_def dequeue_iter_def)

text \<open>A worker that submits to an idle scheduler gets its own request back and leaves it idle.\<close>

lemma worker_own:
  assumes "idle sc" and "sr_predicted_tokens (st r) \<noteq> 0"
  shows "\<exists>st' sc'. any_acquire ck (any_submit ck' r (st, sc)) = (Acquired r, st', sc') \<and> idle sc' \<and>
    sr_max_tokens (st' r) = sr_max_tokens (st r) \<and> (\<forall>r'. r' \<noteq> r \<longrightarrow> st' r' = st r') \<and>
    (\<forall>b. any_finished b (st', sc') = any_finished b (st, sc))"
proof (cases sc)
  case (AnyFcfs s)
  with assms(1) show ?thesis by (simp add: fcfs_submit_def fcfs_acquire_def Let_def finished_count_def)
next
  case (AnySjf s)
  with assms queue_acquire_own [of "sjf_queue s" ck "ck_now ck'" "sr_request_id (st r)" "sr_predicted_tokens (st r)" r]
  show ?thesis by (auto simp: sjf_submit_def sjf_predict_def sjf_acquire_def Let_def finished_count_def)
next
  case (AnyOracle s)
  with assms(1) queue_acquire_own [of "or_queue s" ck "ck_now ck'" "sr_request_id (st r)" "real_of_int (sr_max_tokens (st r))" r]
  show ?thesis by (auto simp: oracle_submit_def oracle_acquire_def Let_def finished_count_def)
qed

lemma complete_idle: "idle sc \<Longrightarrow> idle (any_complete k b sc) \<and>
  (\<forall>c. any_finished c (st, any_complete k b sc) = any_finished c (st, sc) + (if c = b then 1 else 0))"
  by (cases sc) (auto simp: fcfs_complete_def sjf_complete_def oracle_complete_def count_completion_def finished_count_def)

text \<open>A turn of the aging task finds only requests in service: it may lower their priorities or forget them.\<close>

lemma age_one_idle:
  assumes "\<not> sjf_use_fallback s \<and> empty_queue (sjf_queue s)" and "age_one now rid r (st, s) = (e, st', s')"
  shows "\<not> sjf_use_fallback s' \<and> empty_queue (sjf_queue s') \<and> sr_max_tokens (st' x) = sr_max_tokens (st x) \<and>
    finished_count b s' = finished_count b s"
  using assms
  by (auto simp: age_one_def sjf_cancel_def pq_cancel_def pq_update_priority_def empty_queue_def Let_def finished_count_def
      split: sum.splits if_splits)

lemma age_all_idle:
  assumes "\<not> sjf_use_fallback s \<and> empty_queue (sjf_queue s)" and "age_all now ps (st, s) = (e, st', s')"
  shows "\<not> sjf_use_fallback s' \<and> empty_queue (sjf_queue s') \<and> sr_max_tokens (st' x) = sr_max_tokens (st x) \<and>
    finished_count b s' = finished_count b s"
  using assms
proof (induction ps arbitrary: st s)
  case (Cons p ps)
  obtain rid r where p: "p = (rid, r)" by force
  obtain e1 st1 s1 where 1: "age_one now rid r (st, s) = (e1, st1, s1)" by (metis surj_pair)
  note one = age_one_idle [OF Cons.prems(1) 1]
  show ?case
  proof (cases e1)
    case None
    have "age_all now ps (st1, s1) = (e, st', s')" using Cons.prems(2) p 1 None by simp
    from Cons.IH [OF _ this] one [of x b] show ?thesis by simp
  next
    case (Some err)
    with Cons.prems(2) p 1 one show ?thesis by simp
  qed
qed simp

lemma any_tick_idle:
  assumes "idle sc" and "any_tick now (st, sc) = (st', sc')"
  shows "idle sc' \<and> sr_max_tokens (st' x) = sr_max_tokens (st x) \<and> any_finished b (st', sc') = any_finished b (st, sc)"
proof (cases sc)
  case (AnySjf s)
  obtain e st1 s1 where a: "age_all now (sjf_pending s) (st, s) = (e, st1, s1)" by (metis surj_pair)
  have "\<not> sjf_use_fallback s \<and> empty_queue (sjf_queue s)" using assms(1) AnySjf by simp
  from age_all_idle [OF this a, of x b] assms AnySjf a show ?thesis
    by (auto simp: aging_tick_def finished_count_def split: if_splits option.splits sum.splits)
qed (use assms in auto)

section \<open>Invariant\<close>

definition drawn_tokens :: "bench_params \<Rightarrow> nat \<Rightarrow> int" where
  "drawn_tokens P i = (case bp_request P i of Inr (req, _, _) \<Rightarrow> sr_max_tokens req | Inl _ \<Rightarrow> 0)"

text \<open>The latencies that come with the request of a worker, and the metric of a worker that serves its own request.\<close>

definition drawn_ms :: "bench_params \<Rightarrow> nat \<Rightarrow> real \<times> real" where
  "drawn_ms P i = (case bp_request P i of Inr (_, f, p) \<Rightarrow> (f, p) | Inl _ \<Rightarrow> (0, 0))"

definition own_metric :: "bench_params \<Rightarrow> nat \<Rightarrow> request_metric" where
  "own_metric P i =
     \<lparr>rm_success = True, rm_e2e_ms = bp_wait_ms P i + real_of_int (drawn_tokens P i) * 2, rm_queue_wait_ms = bp_wait_ms P i,
      rm_feature_ms = fst (drawn_ms P i), rm_predict_ms = snd (drawn_ms P i), rm_schedule_ms = bp_schedule_ms P,
      rm_tokens = drawn_tokens P i, rm_concurrency = bp_concurrency P\<rparr>"

text \<open>Every worker can build its request, and the request carries a prediction.\<close>

definition workers_ready :: "bench_params \<Rightarrow> nat \<Rightarrow> bool" where
  "workers_ready P n \<longleftrightarrow> (\<forall>i < n. \<exists>req f p. bp_request P i = Inr (req, f, p) \<and> sr_predicted_tokens req \<noteq> 0)"

text \<open>After \<open>k\<close> steps \<open>m\<close> of \<open>n\<close> workers have started; \<open>f0\<close> requests were completed before.\<close>

definition sim_inv :: "bench_params \<Rightarrow> nat \<Rightarrow> nat \<Rightarrow> nat \<Rightarrow> nat \<Rightarrow> nat \<Rightarrow> bench_sim \<Rightarrow> bool" where
  "sim_inv P n c f0 m k s \<longleftrightarrow>
     m \<le> n \<and> bn_waiting s = [m..<n] \<and> k + length (bn_service s) = 2 * m \<and> length (bn_service s) + bn_value s = c \<and>
     bn_error s = None \<and> bn_blocked s = [] \<and> idle (snd (bn_world s)) \<and>
     (\<forall>v \<in> set (bn_service s). sv_acquired v = sv_worker v \<and> sv_worker v < m \<and>
        sv_wait_ms v = bp_wait_ms P (sv_worker v) \<and> drawn_ms P (sv_worker v) = (sv_feature_ms v, sv_predict_ms v)) \<and>
     (\<forall>i < m. sr_max_tokens (fst (bn_world s) i) = drawn_tokens P i) \<and>
     mset (bn_metrics s) + mset (map (own_metric P \<circ> sv_worker) (bn_service s)) = mset (map (own_metric P) [0..<m]) \<and>
     (\<forall>x \<in> set (bn_metrics s). rm_success x) \<and>
     any_finished True (bn_world s) = f0 + length (bn_metrics s)"

lemma sim_inv_init: "idle sc \<Longrightarrow> sim_inv P n c (any_finished True (st, sc)) 0 0 (sim_init c n (st, sc))"
  by (simp add: sim_inv_def sim_init_def)

lemma sim_inv_start:
  assumes "sim_inv P n c f0 m k s" and "workers_ready P n" and "bn_waiting s = i # rest" and "0 < bn_value s"
  shows "sim_inv P n c f0 (Suc m) (Suc k) (worker_start P i s)"
proof -
  have "[m..<n] = i # rest" using assms(1,3) by (simp add: sim_inv_def)
  then have i: "i = m" "m < n" "rest = [Suc m..<n]" by (auto simp: upt_eq_Cons_conv)
  obtain req f p where q: "bp_request P m = Inr (req, f, p)" "sr_predicted_tokens req \<noteq> 0"
    using assms(2) i(2) by (auto simp: workers_ready_def)
  obtain st sc where w: "bn_world s = (st, sc)" by force
  have "idle sc" using assms(1) w by (simp add: sim_inv_def)
  from worker_own [OF this, of "st(m := req)" m "(bp_clocks P m)\<lparr>ck_timeout := None\<rparr>" "bp_clocks P m"] q(2)
  obtain st' sc' where a: "any_acquire ((bp_clocks P m)\<lparr>ck_timeout := None\<rparr>) (any_submit (bp_clocks P m) m (st(m := req), sc)) = (Acquired m, st', sc')"
    and idle: "idle sc'" and tok: "sr_max_tokens (st' m) = sr_max_tokens req" and st': "\<forall>r'. r' \<noteq> m \<longrightarrow> st' r' = st r'"
    and fin: "any_finished True (st', sc') = any_finished True (st(m := req), sc)" by auto
  have "any_finished True (st(m := req), sc) = any_finished True (st, sc)" by (cases sc) simp_all
  moreover have "sr_max_tokens req = drawn_tokens P m" "drawn_ms P m = (f, p)" using q(1) by (simp_all add: drawn_tokens_def drawn_ms_def)
  ultimately show ?thesis
    using assms(1,3,4) i q(1) w a idle tok st' fin
    by (auto simp: sim_inv_def worker_start_def Let_def less_Suc_eq)
qed

lemma sim_inv_finish:
  assumes "sim_inv P n c f0 m k s" and "v \<in> set (bn_service s)"
  shows "sim_inv P n c f0 m (Suc k) (worker_finish P v s)"
proof -
  obtain st sc where w: "bn_world s = (st, sc)" by force
  have v: "sv_acquired v = sv_worker v" "sv_worker v < m" "sr_max_tokens (st (sv_worker v)) = drawn_tokens P (sv_worker v)"
    and ms: "sv_wait_ms v = bp_wait_ms P (sv_worker v)" "drawn_ms P (sv_worker v) = (sv_feature_ms v, sv_predict_ms v)"
    and sc: "idle sc" using assms w by (auto simp: sim_inv_def)
  have row: "worker_metric (sv_wait_ms v) (snd (service_time 0 (sr_max_tokens (st (sv_worker v))))) (sv_feature_ms v) (sv_predict_ms v)
      (bp_schedule_ms P) (st (sv_worker v)) (bp_concurrency P) = own_metric P (sv_worker v)"
    using v ms by (simp add: worker_metric_def own_metric_def service_time_def)
  have "mset (bn_service s) = add_mset v (mset (remove1 v (bn_service s)))" using assms(2) by simp
  then have "mset (map (own_metric P \<circ> sv_worker) (bn_service s)) =
      add_mset (own_metric P (sv_worker v)) (mset (map (own_metric P \<circ> sv_worker) (remove1 v (bn_service s))))"
    by (metis comp_apply image_mset_add_mset mset_map)
  moreover have "length (bn_service s) = Suc (length (remove1 v (bn_service s)))"
    using assms(2) length_pos_if_in_set [OF assms(2)] by (simp add: length_remove1)
  moreover note complete_idle [OF sc, of "sr_request_id (st (sv_worker v))" True st]
  ultimately show ?thesis
    using assms(1) w v row
    by (auto simp: sim_inv_def worker_finish_def own_metric_def Let_def dest: notin_set_remove1 set_remove1_subset [THEN subsetD])
qed

lemma sim_inv_tick:
  assumes "sim_inv P n c f0 m k s"
  shows "sim_inv P n c f0 m k (s\<lparr>bn_world := any_tick now (bn_world s)\<rparr>)"
proof -
  obtain st sc st' sc' where w: "bn_world s = (st, sc)" "any_tick now (st, sc) = (st', sc')" by (metis surj_pair)
  have "idle sc" using assms w(1) by (simp add: sim_inv_def)
  from any_tick_idle [OF this w(2)] assms w show ?thesis by (simp add: sim_inv_def)
qed

lemma sim_reach_inv:
  assumes "sim_reach P (sim_init c n (st, sc)) k s" and "workers_ready P n" and "idle sc"
  shows "\<exists>m. sim_inv P n c (any_finished True (st, sc)) m k s"
  using assms(1)
proof (induction rule: sim_reach.induct)
  case init
  with assms(3) show ?case using sim_inv_init by blast
next
  case (work k s s')
  then obtain m where "sim_inv P n c (any_finished True (st, sc)) m k s" by blast
  with work.hyps(2) show ?case
    by (elim sim_workE) (use sim_inv_start [OF _ assms(2)] sim_inv_finish in blast)+
next
  case (tick k s now)
  then show ?case using sim_inv_tick by blast
qed

text \<open>
  The workers of the three benchmarks: \<^verbatim>\<open>random.randint(20, 200)\<close> tokens, and for the predicted
  scheduler a prediction. They are ready unless the predictor raises on one of the prompts, whose
  exception then ends the simulation.
\<close>

definition fcfs_workers :: "(nat \<Rightarrow> string) \<Rightarrow> (nat \<Rightarrow> real) \<Rightarrow> (nat \<Rightarrow> int) \<Rightarrow> nat \<Rightarrow> (scheduled_request \<times> real \<times> real) pyres" where
  "fcfs_workers rid now max_tokens i =
     Inr (worker_request (rid i) (now i) i (max_tokens i) (real_of_int (max_tokens i)), 0, 0)"

definition sjf_workers ::
  "predictor option \<Rightarrow> bool \<Rightarrow> (nat \<Rightarrow> real \<times> real) \<Rightarrow> (nat \<Rightarrow> string) \<Rightarrow> (nat \<Rightarrow> real) \<Rightarrow> (nat \<Rightarrow> int) \<Rightarrow> nat \<Rightarrow>
   (scheduled_request \<times> real \<times> real) pyres" where
  "sjf_workers predictor use_oracle t rid now max_tokens i =
     sjf_worker_request predictor use_oracle (fst (t i)) (snd (t i)) (rid i) (now i) i (max_tokens i)"

lemma benchmark_workers_ready:
  assumes "\<And>i. i < n \<Longrightarrow> 20 \<le> max_tokens i"
  shows "bp_request P = fcfs_workers rid now max_tokens \<Longrightarrow> workers_ready P n"
    and "bp_request P = sjf_workers None True t rid now max_tokens \<Longrightarrow> workers_ready P n"
    and "bp_request P = sjf_workers (Some p) False t rid now max_tokens \<Longrightarrow> op_config p = default_model_config \<Longrightarrow>
      (\<And>i. i < n \<Longrightarrow> \<exists>r. predict p (fst (t i)) (snd (t i)) (worker_prompt i) = Inr r) \<Longrightarrow> workers_ready P n"
proof -
  have nz: "real_of_int (max_tokens i) \<noteq> 0" if "i < n" for i using assms [OF that] by simp
  show "workers_ready P n" if "bp_request P = fcfs_workers rid now max_tokens"
    using nz by (simp add: workers_ready_def that fcfs_workers_def worker_request_def)
  show "workers_ready P n" if "bp_request P = sjf_workers None True t rid now max_tokens"
    using nz by (simp add: workers_ready_def that sjf_workers_def sjf_worker_request_def worker_request_def)
  show "workers_ready P n" if "bp_request P = sjf_workers (Some p) False t rid now max_tokens"
    "op_config p = default_model_config" "\<And>i. i < n \<Longrightarrow> \<exists>r. predict p (fst (t i)) (snd (t i)) (worker_prompt i) = Inr r"
    unfolding workers_ready_def
  proof (intro allI impI)
    fix i assume "i < n"
    from that(3) [OF this] obtain r where r: "predict p (fst (t i)) (snd (t i)) (worker_prompt i) = Inr r" by blast
    then have "1 \<le> pr_predicted_tokens r"
      using that(2) clamp_bounds [of 1 4096] by (auto simp: predict_Inr_iff default_model_config_def)
    with r that(1) show "\<exists>req f p. bp_request P i = Inr (req, f, p) \<and> sr_predicted_tokens req \<noteq> 0"
      by (simp add: sjf_workers_def sjf_worker_request_def worker_request_def)
  qed
qed

text \<open>Without a permit nothing happens.\<close>

lemma sim_reach_no_permit:
  "sim_reach P (sim_init 0 n w) k s \<Longrightarrow> k = 0 \<and> bn_waiting s = [0..<n] \<and> bn_service s = [] \<and> bn_value s = 0"
  by (induction rule: sim_reach.induct) (auto simp: sim_init_def elim: sim_workE)

text \<open>A run that has steps left can go on.\<close>

lemma simulation_progress:
  assumes "sim_reach P (sim_init c n (st, sc)) k s" and "workers_ready P n" and "idle sc" and "0 < c" and "k < 2 * n"
  shows "\<exists>s'. sim_work P s s'"
proof -
  obtain m where "sim_inv P n c (any_finished True (st, sc)) m k s" using sim_reach_inv [OF assms(1-3)] by blast
  note inv = this [unfolded sim_inv_def]
  show ?thesis
  proof (cases "bn_service s")
    case Nil
    then have "m < n" "0 < bn_value s" using inv assms(4,5) by auto
    then have "bn_waiting s = m # [Suc m..<n]" using inv by (simp add: upt_conv_Cons)
    with \<open>0 < bn_value s\<close> inv show ?thesis by (blast intro: sim_work.start)
  next
    case (Cons v vs)
    then show ?thesis using inv by (intro exI) (rule sim_work.finish, auto)
  qed
qed

lemma simulation_reaches:
  assumes "workers_ready P n" and "idle sc" and "0 < c" and "k \<le> 2 * n"
  shows "\<exists>s. sim_reach P (sim_init c n (st, sc)) k s"
  using assms(4)
proof (induction k)
  case 0
  show ?case using sim_reach.init by blast
next
  case (Suc k)
  then obtain s where s: "sim_reach P (sim_init c n (st, sc)) k s" by auto
  with simulation_progress [OF s assms(1-3)] Suc.prems show ?case using sim_reach.work by fastforce
qed

text \<open>A run that has taken all its steps.\<close>

lemma simulation_final:
  assumes "sim_reach P (sim_init c n (st, sc)) k s" and "workers_ready P n" and "idle sc" and "\<not> k < 2 * n"
  shows "sim_done s \<and> bn_error s = None \<and> mset (bn_metrics s) = mset (map (own_metric P) [0..<n]) \<and>
    any_finished True (bn_world s) = any_finished True (st, sc) + n \<and> length (bn_metrics s) = n \<and>
    filter rm_success (bn_metrics s) = bn_metrics s"
proof -
  obtain m where "sim_inv P n c (any_finished True (st, sc)) m k s" using sim_reach_inv [OF assms(1-3)] by blast
  note inv = this [unfolded sim_inv_def]
  have "k + length (bn_service s) = 2 * m" "m \<le> n" using inv by simp_all
  with assms(4) have "m = n" "length (bn_service s) = 0" by linarith+
  then have m: "m = n" "bn_service s = []" by simp_all
  then have t: "mset (bn_metrics s) = mset (map (own_metric P) [0..<n])" using inv by simp
  from arg_cong [OF this, of size] have "length (bn_metrics s) = n" by simp
  with inv m t show ?thesis by (simp add: sim_done_def)
qed

section \<open>Property\<close>

text \<open>
  C28: the simulation ends, unless the concurrency is 0. If every worker can build its request and the
  scheduler starts out idle, then after any \<open>k\<close> steps of the workers, in any order and with any
  turns of the aging task in between, at most \<open>c\<close> requests are in service, and each worker serves
  its own. No run has more than \<open>2 n\<close> steps; before that a further step is possible, and after
  \<open>2 n\<close> steps all workers are done, there is one successful metric per request with the tokens
  drawn and the times measured for it, all requests are completed, and the aggregated error rate is 0. With a
  concurrency of 0 no worker ever starts: the benchmark waits forever.
\<close>

theorem simulation_ends:
  assumes "sim_reach P (sim_init c n (st, sc)) k s" and "workers_ready P n" and "idle sc"
  shows "length (bn_service s) \<le> c \<and> k \<le> 2 * n \<and> (\<forall>v \<in> set (bn_service s). sv_acquired v = sv_worker v) \<and>
    (if c = 0 then k = 0 \<and> (0 < n \<longrightarrow> \<not> sim_done s) \<and> (\<nexists>s'. sim_work P s s')
     else if k < 2 * n then \<exists>s'. sim_work P s s'
     else sim_done s \<and> mset (bn_metrics s) = mset (map (own_metric P) [0..<n]) \<and>
       any_finished True (bn_world s) = any_finished True (st, sc) + n \<and>
       (let r = aggregate_metrics name conc (bn_metrics s) elapsed
        in br_n_requests r = n \<and> br_n_success r = n \<and> br_error_rate r = 0))"
proof -
  obtain m where "sim_inv P n c (any_finished True (st, sc)) m k s" using sim_reach_inv [OF assms] by blast
  note inv = this [unfolded sim_inv_def]
  have zero: "k = 0 \<and> (0 < n \<longrightarrow> \<not> sim_done s) \<and> (\<nexists>s'. sim_work P s s')" if "c = 0"
    using sim_reach_no_permit [of P n "(st, sc)" k s] assms(1) that by (auto simp: sim_done_def elim: sim_workE)
  note more = simulation_progress [OF assms]
  note final = simulation_final [OF assms]
  have "py_round 2 0 = 0" by (simp add: py_round_def round_half_even_def)
  then show ?thesis using inv zero more final by (auto simp: aggregate_metrics_def Let_def)
qed

text \<open>Two workers of the FCFS benchmark under one permit.\<close>

definition sample_bench :: bench_params where
  "sample_bench = \<lparr>bp_request = (\<lambda>i. Inr (worker_request (replicate i CHR ''x'') 0 i (20 + int i) (20 + real i), 0, 0)),
     bp_clocks = (\<lambda>i. some_clocks), bp_wait_ms = real, bp_schedule_ms = 0, bp_concurrency = 1\<rparr>"

theorem simulation_ends_witness:
  "\<exists>s. sim_reach sample_bench (sim_init 1 2 (\<lambda>r. sample_request ''hello'' 64, AnyFcfs fcfs_init)) 0 s \<and>
     (\<exists>s'. sim_work sample_bench s s') \<and>
     (\<forall>s. \<not> sim_reach sample_bench (sim_init 1 2 (\<lambda>r. sample_request ''hello'' 64, AnyFcfs fcfs_init)) 5 s)"
proof -
  let ?s0 = "sim_init 1 2 (\<lambda>r. sample_request ''hello'' 64, AnyFcfs fcfs_init)"
  have i: "idle (AnyFcfs fcfs_init)" by (simp add: fcfs_init_def fcfs.defs base_state.defs)
  have r: "workers_ready sample_bench 2" by (simp add: workers_ready_def sample_bench_def worker_request_def)
  have "\<exists>s'. sim_work sample_bench ?s0 s'"
    using simulation_ends [OF sim_reach.init r i, of 1 "\<lambda>r. sample_request ''hello'' 64"] by simp
  moreover have "\<not> sim_reach sample_bench ?s0 5 s" for s
    using simulation_ends [OF _ r i, of 1 "\<lambda>r. sample_request ''hello'' 64" 5 s] by auto
  ultimately show ?thesis using sim_reach.init by blast
qed

end
