(* ===== verification/BenchmarkReport.thy ===== *)
theory BenchmarkReport
  imports Benchmark Py_Text
begin

text \<open>
  The reports of the benchmarks: \<^verbatim>\<open>python/benchmark/compare.py\<close> (the comparison of the three
  schedulers and its CSV and Markdown files), \<^verbatim>\<open>scripts/generate_benchmark_report.py\<close>
  and \<^verbatim>\<open>benchmarks/run_benchmark.py\<close> (the live benchmark of a server). The measurements, the replies of the server and the
  time stamps are arguments, and \<open>fmt\<close> renders values that are not strings.
\<close>

section \<open>Comparison of the schedulers\<close>

definition result_dict :: "benchmark_result \<Rightarrow> (string, pyval) dict" where
  "result_dict r =
     [(''scheduler'', PStr (br_scheduler r)), (''concurrency'', PInt (br_concurrency r)),
      (''n_requests'', PInt (int (br_n_requests r))), (''n_success'', PInt (int (br_n_success r))),
      (''throughput_rps'', PFloat (br_throughput_rps r)), (''tokens_per_sec'', PFloat (br_tokens_per_sec r)),
      (''e2e_p50_ms'', PFloat (br_e2e_p50_ms r)), (''e2e_p95_ms'', PFloat (br_e2e_p95_ms r)),
      (''e2e_p99_ms'', PFloat (br_e2e_p99_ms r)), (''queue_wait_p50_ms'', PFloat (br_queue_wait_p50_ms r)),
      (''queue_wait_p99_ms'', PFloat (br_queue_wait_p99_ms r)), (''feature_p50_ms'', PFloat (br_feature_p50_ms r)),
      (''predict_p50_ms'', PFloat (br_predict_p50_ms r)), (''schedule_p50_ms'', PFloat (br_schedule_p50_ms r)),
      (''error_rate'', PFloat (br_error_rate r)), (''elapsed_sec'', PFloat (br_elapsed_sec r)),
      (''gpu_utilization'', PFloat (br_gpu_utilization r)), (''cpu_utilization'', PFloat (br_cpu_utilization r))]"

text \<open>\<open>run\<close> is what a simulation at this concurrency measures: the metrics and the elapsed time.\<close>

type_synonym measurement = "request_metric list \<times> real"

definition run_fcfs_benchmark :: "int \<Rightarrow> measurement \<Rightarrow> (string, pyval) dict" where
  "run_fcfs_benchmark c run = result_dict (aggregate_metrics ''fcfs'' c (fst run) (snd run))"

definition run_oracle_benchmark :: "int \<Rightarrow> measurement \<Rightarrow> (string, pyval) dict" where
  "run_oracle_benchmark c run = result_dict (aggregate_metrics ''oracle_sjf'' c (fst run) (snd run))"

definition run_sjf_benchmark :: "int \<Rightarrow> measurement pyres \<Rightarrow> (string, pyval) dict pyres" where
  "run_sjf_benchmark c run = bind_res run (\<lambda>m. Inr (result_dict (aggregate_metrics ''sjf'' c (fst m) (snd m))))"

definition compare_level ::
  "(int \<Rightarrow> measurement) \<Rightarrow> (int \<Rightarrow> measurement) \<Rightarrow> (int \<Rightarrow> measurement pyres) \<Rightarrow> int \<Rightarrow> (string, pyval) dict list" where
  "compare_level fc orc sj c =
     (let fcfs = run_fcfs_benchmark c (fc c);
          oracle = run_oracle_benchmark c (orc c);
          sjf = (case run_sjf_benchmark c (sj c) of
                   Inr r \<Rightarrow> r
                 | Inl e \<Rightarrow> dict_set ''scheduler'' (PStr ''sjf'') fcfs)
      in [fcfs, oracle, sjf])"

definition run_comparison ::
  "(int \<Rightarrow> measurement) \<Rightarrow> (int \<Rightarrow> measurement) \<Rightarrow> (int \<Rightarrow> measurement pyres) \<Rightarrow> int list \<Rightarrow> (string, pyval) dict list" where
  "run_comparison fc orc sj levels = concat (map (compare_level fc orc sj) levels)"

definition field :: "(pyval \<Rightarrow> string) \<Rightarrow> (string, pyval) dict \<Rightarrow> string \<Rightarrow> string pyres" where
  "field fmt r k = (case dict_get r k of None \<Rightarrow> Inl (KeyError k) | Some v \<Rightarrow> Inr (py_str fmt v))"

definition csv_row :: "(pyval \<Rightarrow> string) \<Rightarrow> string list \<Rightarrow> (string, pyval) dict \<Rightarrow> string pyres" where
  "csv_row fmt keys r = bind_res (map_res (field fmt r) keys) (\<lambda>vs. Inr (join_with '','' vs))"

text \<open>The lines of the CSV file; no file is written without results.\<close>

definition csv_lines :: "(pyval \<Rightarrow> string) \<Rightarrow> (string, pyval) dict list \<Rightarrow> string list option pyres" where
  "csv_lines fmt results =
     (if results = [] then Inr None
      else let keys = map fst (hd results)
           in bind_res (map_res (csv_row fmt keys) results) (\<lambda>rows. Inr (Some (join_with '','' keys # rows))))"

definition table_row :: "(pyval \<Rightarrow> string) \<Rightarrow> string list \<Rightarrow> (string, pyval) dict \<Rightarrow> string pyres" where
  "table_row fmt keys r = bind_res (map_res (field fmt r) keys) (\<lambda>vs. Inr (''| '' @ join_with '' | '' vs @ '' |''))"

definition report_lines :: "(pyval \<Rightarrow> string) \<Rightarrow> string \<Rightarrow> (string, pyval) dict list \<Rightarrow> string list pyres" where
  "report_lines fmt generated results =
     bind_res (map_res (table_row fmt [''scheduler'', ''concurrency'', ''e2e_p50_ms'', ''e2e_p99_ms'', ''throughput_rps'', ''tokens_per_sec'']) results)
       (\<lambda>rows. Inr ([''# Scheduler Comparison Benchmark'', CHR 0x0A # ''**Generated:** '' @ generated @ [CHR 0x0A],
          ''| Scheduler | Concurrency | p50 (ms) | p99 (ms) | RPS | Tok/s |'',
          ''|-----------|-------------|----------|----------|-----|-------|''] @ rows))"

text \<open>\<^verbatim>\<open>generate_report\<close>: the JSON value, the CSV lines and the Markdown text. The plots are in theory \<open>Plots\<close>.\<close>

definition generate_report ::
  "(pyval \<Rightarrow> string) \<Rightarrow> string \<Rightarrow> (string, pyval) dict list \<Rightarrow> (pyval \<times> string list option \<times> string) pyres" where
  "generate_report fmt generated results =
     bind_res (csv_lines fmt results) (\<lambda>csv.
     bind_res (report_lines fmt generated results) (\<lambda>ls.
       Inr (PList (map PDict results), csv, join_with [CHR 0x0A] ls)))"

text \<open>
  \<^verbatim>\<open>main\<close> of \<^verbatim>\<open>compare.py\<close>: what the parsed configuration passes to the comparison, the concurrency levels, the
  number of requests and the model directory. None of them is checked here.
\<close>

definition compare_args :: "pyval \<Rightarrow> (pyval \<times> pyval \<times> pyval) pyres" where
  "compare_args cfg =
     bind_res (py_get cfg ''benchmark'' (PDict [])) (\<lambda>bench_cfg.
     bind_res (py_get bench_cfg ''concurrency_levels'' (PList (map PInt [1, 2, 4, 8, 16, 32]))) (\<lambda>levels.
     bind_res (py_get bench_cfg ''requests_per_level'' (PInt 20)) (\<lambda>n.
     bind_res (bind_res (py_get cfg ''export'' (PDict [])) (\<lambda>e. py_get e ''output_dir'' (PStr ''shared/models''))) (\<lambda>dir.
       Inr (levels, n, dir)))))"

section \<open>The production report\<close>

fun py_items :: "pyval \<Rightarrow> (string \<times> pyval) list pyres" where
  "py_items (PDict d) = Inr d"
| "py_items _ = Inl AttributeError"

definition to_markdown :: "(pyval \<Rightarrow> string) \<Rightarrow> pyval \<Rightarrow> string pyres" where
  "to_markdown fmt data =
     bind_res (py_items data) (\<lambda>algos.
     bind_res (map_res (\<lambda>(algo, metrics). bind_res (py_items metrics) (\<lambda>kvs.
         Inr ((''## '' @ algo) # map (\<lambda>(k, v). ''- **'' @ k @ ''**: '' @ py_str fmt v) kvs @ [[]]))) algos) (\<lambda>blocks.
       Inr (join_with [CHR 0x0A] ([''# Scheduler Benchmark Report'', []] @ concat blocks))))"

text \<open>
  \<^verbatim>\<open>run\<close>: the comparison, then the report on the latest comparison file of
  \<^verbatim>\<open>python/benchmark/results\<close>. \<open>old\<close> are the contents of the files already there, in the order of
  their names, and \<open>here\<close> says that the comparison wrote its file to the same directory, which
  depends on the working directory.
\<close>

definition production_report ::
  "(pyval \<Rightarrow> string) \<Rightarrow> string \<Rightarrow> bool \<Rightarrow> pyval list \<Rightarrow> (string, pyval) dict list \<Rightarrow> string pyres" where
  "production_report fmt generated here old results =
     bind_res (generate_report fmt generated results) (\<lambda>(json, csv, md).
       let files = old @ (if here then [json] else [])
       in if files = [] then Inl IndexError else to_markdown fmt (last files))"

section \<open>The live benchmark\<close>

record bench_result =
  be_concurrency :: int
  be_n_requests :: int
  be_n_success :: nat
  be_total_tokens :: real
  be_elapsed_sec :: real
  be_throughput_rps :: real
  be_tokens_per_sec :: real
  be_e2e_p50_ms :: real
  be_e2e_p99_ms :: real
  be_error_rate :: real

text \<open>
  One request: \<open>resp\<close> is what \<^verbatim>\<open>client.post\<close> returned, a status code and the parsed body, or the
  exception of either; every exception inside the \<^verbatim>\<open>try\<close> counts as a failed request.
\<close>

definition run_request :: "(int \<times> pyval) pyres \<Rightarrow> int \<Rightarrow> real \<Rightarrow> bool \<times> real \<times> pyval" where
  "run_request resp max_tokens elapsed_ms =
     (case resp of
        Inl e \<Rightarrow> (False, elapsed_ms, PInt 0)
      | Inr (status, data) \<Rightarrow>
          if status = 200
          then (case bind_res (py_get data ''usage'' (PDict [])) (\<lambda>u. py_get u ''completion_tokens'' (PInt max_tokens)) of
                  Inr tokens \<Rightarrow> (True, elapsed_ms, tokens)
                | Inl e \<Rightarrow> (False, elapsed_ms, PInt 0))
          else (False, elapsed_ms, PInt 0))"

fun sum_tokens :: "pyval list \<Rightarrow> real pyres" where
  "sum_tokens [] = Inr 0"
| "sum_tokens (v # vs) =
     bind_res (case v of PInt i \<Rightarrow> Inr (real_of_int i) | PBool b \<Rightarrow> Inr (if b then 1 else 0) | PFloat x \<Rightarrow> Inr x | _ \<Rightarrow> Inl TypeError)
       (\<lambda>x. bind_res (sum_tokens vs) (\<lambda>y. Inr (x + y)))"

text \<open>\<^verbatim>\<open>pct\<close> on data already sorted.\<close>

definition pct :: "real list \<Rightarrow> real \<Rightarrow> real" where
  "pct data p = (if data = [] then 0 else data ! nat (max 0 (trunc (real (length data) * p) - 1)))"

definition py_div :: "real \<Rightarrow> real \<Rightarrow> real pyres" where
  "py_div x y = (if y = 0 then Inl (OtherError ''ZeroDivisionError'') else Inr (x / y))"

definition run_level :: "int \<Rightarrow> int \<Rightarrow> (bool \<times> real \<times> pyval) list \<Rightarrow> real \<Rightarrow> bench_result pyres" where
  "run_level concurrency n_requests results elapsed =
     (let successes = filter fst results; e2es = sort (map (fst \<circ> snd) results)
      in bind_res (sum_tokens (map (snd \<circ> snd) successes)) (\<lambda>total_tokens.
         bind_res (py_div (real (length successes)) elapsed) (\<lambda>rps.
         bind_res (py_div total_tokens elapsed) (\<lambda>tps.
         bind_res (py_div (real_of_int (n_requests - int (length successes))) (real_of_int n_requests)) (\<lambda>err.
           Inr \<lparr>be_concurrency = concurrency, be_n_requests = n_requests, be_n_success = length successes,
                be_total_tokens = total_tokens, be_elapsed_sec = py_round 2 elapsed,
                be_throughput_rps = py_round 2 rps, be_tokens_per_sec = py_round 1 tps,
                be_e2e_p50_ms = py_round 1 (pct e2es (50 / 100)), be_e2e_p99_ms = py_round 1 (pct e2es (99 / 100)),
                be_error_rate = py_round 1 (err * 100)\<rparr>)))))"

definition render_table :: "(pyval \<Rightarrow> string) \<Rightarrow> bench_result list \<Rightarrow> string" where
  "render_table fmt results =
     join_with [CHR 0x0A]
       ([''| Concurrency | Requests | Success | RPS | Tok/s | E2E p50 | E2E p99 | Err |'',
         ''|-------------|----------|---------|-----|------------|--------------|--------------|--------|''] @
        map (\<lambda>r. ''| '' @ join_with '' | ''
               [fmt (PInt (be_concurrency r)), fmt (PInt (be_n_requests r)), fmt (PInt (int (be_n_success r))),
                fmt (PFloat (be_throughput_rps r)), fmt (PFloat (be_tokens_per_sec r)), fmt (PFloat (be_e2e_p50_ms r)),
                fmt (PFloat (be_e2e_p99_ms r)), fmt (PFloat (be_error_rate r))] @ ''% |'') results)"

definition LIVE_PROMPTS :: "string list" where
  "LIVE_PROMPTS =
     [''Explain what a transformer neural network is.'',
      ''Write a Python function to compute Fibonacci numbers.'',
      ''What are the main advantages of using vLLM for LLM serving?'',
      ''Describe the attention mechanism in machine learning.'',
      ''How does grouped query attention reduce memory usage?'']"

text \<open>
  \<^verbatim>\<open>run_level\<close> with its tasks: request \<open>i\<close> posts its prompt and \<open>post i prompt\<close> is what the server
  answers, \<open>ms i\<close> how long that took; \<^verbatim>\<open>gather\<close> returns the results in the order of the tasks, whatever
  the order in which they finish under the semaphore. Under a semaphore of 0 they wait forever (\<open>None\<close>).
\<close>

definition live_level ::
  "(nat \<Rightarrow> string \<Rightarrow> (int \<times> pyval) pyres) \<Rightarrow> (nat \<Rightarrow> real) \<Rightarrow> real \<Rightarrow> int \<Rightarrow> int \<Rightarrow> int \<Rightarrow> bench_result pyres option" where
  "live_level post ms elapsed n_requests max_tokens concurrency =
     (if concurrency < 0 then Some (Inl (ValueError ''Semaphore initial value must be >= 0''))
      else if concurrency = 0 \<and> 0 < n_requests then None
      else Some (run_level concurrency n_requests
        (map (\<lambda>i. run_request (post i (LIVE_PROMPTS ! (i mod length LIVE_PROMPTS))) max_tokens (ms i)) [0..<nat n_requests]) elapsed))"

definition bench_dict :: "bench_result \<Rightarrow> (string, pyval) dict" where
  "bench_dict b =
     [(''concurrency'', PInt (be_concurrency b)), (''n_requests'', PInt (be_n_requests b)), (''n_success'', PInt (int (be_n_success b))),
      (''total_tokens'', PFloat (be_total_tokens b)), (''elapsed_sec'', PFloat (be_elapsed_sec b)),
      (''throughput_rps'', PFloat (be_throughput_rps b)), (''tokens_per_sec'', PFloat (be_tokens_per_sec b)),
      (''e2e_p50_ms'', PFloat (be_e2e_p50_ms b)), (''e2e_p99_ms'', PFloat (be_e2e_p99_ms b)), (''error_rate'', PFloat (be_error_rate b))]"

text \<open>\<^verbatim>\<open>main\<close>: the JSON value and the Markdown text, after all levels; \<open>level\<close> is \<open>live_level\<close> at a concurrency.\<close>

fun live_levels :: "(int \<Rightarrow> bench_result pyres option) \<Rightarrow> int list \<Rightarrow> bench_result list pyres option" where
  "live_levels level [] = Some (Inr [])"
| "live_levels level (c # cs) =
     (case level c of
        None \<Rightarrow> None
      | Some (Inl e) \<Rightarrow> Some (Inl e)
      | Some (Inr r) \<Rightarrow> map_option (\<lambda>x. bind_res x (\<lambda>rs. Inr (r # rs))) (live_levels level cs))"

definition live_main ::
  "(pyval \<Rightarrow> string) \<Rightarrow> string \<Rightarrow> (int \<Rightarrow> bench_result pyres option) \<Rightarrow> int list \<Rightarrow> (pyval \<times> string) pyres option" where
  "live_main fmt now level concurrencies =
     map_option (\<lambda>res. bind_res res (\<lambda>results.
       Inr (PList (map (PDict \<circ> bench_dict) results),
            ''# SmolLM3 Native Port Benchmark'' @ [CHR 0x0A, CHR 0x0A] @ ''**'' @ now @ ''**'' @ [CHR 0x0A, CHR 0x0A] @
            render_table fmt results @ [CHR 0x0A]))) (live_levels level concurrencies)"

section \<open>Facts\<close>

lemma round_bounds:
  assumes "real_of_int a \<le> x" and "x \<le> real_of_int b"
  shows "a \<le> round_half_even x \<and> round_half_even x \<le> b"
proof -
  have f: "a \<le> \<lfloor>x\<rfloor>" "\<lfloor>x\<rfloor> \<le> b" using assms by linarith+
  have "\<lfloor>x\<rfloor> + 1 \<le> b" if "x - real_of_int \<lfloor>x\<rfloor> \<ge> 1 / 2"
  proof (rule ccontr)
    assume "\<not> ?thesis"
    then have "\<lfloor>x\<rfloor> = b" using f(2) by simp
    with that assms(2) show False by simp
  qed
  with f show ?thesis by (auto simp: round_half_even_def Let_def)
qed

lemma py_round_bounds:
  assumes "real_of_int a \<le> x" and "x \<le> real_of_int b"
  shows "real_of_int a \<le> py_round k x \<and> py_round k x \<le> real_of_int b"
proof -
  have p: "(0 :: real) < 10 ^ k" by simp
  have "real_of_int (a * 10 ^ k) \<le> x * 10 ^ k" "x * 10 ^ k \<le> real_of_int (b * 10 ^ k)"
    using assms p by simp_all
  from round_bounds [OF this] have "real_of_int a * 10 ^ k \<le> real_of_int (round_half_even (x * 10 ^ k))"
    "real_of_int (round_half_even (x * 10 ^ k)) \<le> real_of_int b * 10 ^ k"
    by (metis of_int_le_iff of_int_mult of_int_power of_int_numeral)+
  then show ?thesis using p by (simp add: py_round_def pos_le_divide_eq pos_divide_le_eq)
qed

lemma map_res_total: "\<forall>x \<in> set xs. \<exists>y. f x = Inr y \<Longrightarrow> \<exists>ys. map_res f xs = Inr ys \<and> length ys = length xs"
  by (induction xs) auto

lemma field_present: "k \<in> dict_keys r \<Longrightarrow> \<exists>v. field fmt r k = Inr v"
proof -
  assume "k \<in> dict_keys r"
  then have "dict_get r k \<noteq> None" by (simp add: map_of_eq_None_iff)
  then show ?thesis by (auto simp: field_def split: option.splits)
qed

lemma fields_present: "set keys \<subseteq> dict_keys r \<Longrightarrow> \<exists>vs. map_res (field fmt r) keys = Inr vs \<and> length vs = length keys"
  by (rule map_res_total) (use field_present in blast)

abbreviation result_keys :: "string list" where
  "result_keys \<equiv> map fst (result_dict undefined)"

lemma result_dict_keys: "map fst (result_dict r) = result_keys"
  by (simp add: result_dict_def)

lemma compare_level_keys: "r \<in> set (compare_level fc orc sj c) \<Longrightarrow> map fst r = result_keys"
proof -
  assume "r \<in> set (compare_level fc orc sj c)"
  moreover have "map fst (dict_set ''scheduler'' v (result_dict x)) = map fst (result_dict x)" for v x
    by (simp add: result_dict_def)
  ultimately show ?thesis
    using result_dict_keys
    by (auto simp: compare_level_def Let_def run_fcfs_benchmark_def run_oracle_benchmark_def run_sjf_benchmark_def bind_res_def
        simp del: list.map split: sum.splits)
qed

lemma comparison_keys: "r \<in> set (run_comparison fc orc sj levels) \<Longrightarrow> map fst r = result_keys"
  using compare_level_keys by (auto simp: run_comparison_def)

lemma comparison_nth:
  "i < length levels \<Longrightarrow> j < 3 \<Longrightarrow> run_comparison fc orc sj levels ! (3 * i + j) = compare_level fc orc sj (levels ! i) ! j"
proof (induction levels arbitrary: i)
  case (Cons c levels)
  have l: "length (compare_level fc orc sj c) = 3" by (simp add: compare_level_def Let_def)
  show ?case
  proof (cases i)
    case 0
    with Cons.prems l show ?thesis by (simp add: run_comparison_def nth_append)
  next
    case (Suc i')
    with Cons l show ?thesis by (simp add: run_comparison_def nth_append)
  qed
qed simp

lemma comparison_length: "length (run_comparison fc orc sj levels) = 3 * length levels"
  by (induction levels) (simp_all add: run_comparison_def compare_level_def Let_def)

lemma generate_report_total:
  assumes "\<forall>r \<in> set results. map fst r = result_keys"
  shows "\<exists>csv md. generate_report fmt ts results = Inr (PList (map PDict results), csv, md) \<and>
    (case csv of None \<Rightarrow> results = [] | Some ls \<Rightarrow> length ls = Suc (length results))"
proof -
  have k: "dict_keys r = set result_keys" if "r \<in> set results" for r using assms that by (metis list.set_map)
  have row: "\<exists>y. csv_row fmt result_keys r = Inr y" if "r \<in> set results" for r
    using fields_present [of result_keys r fmt] k [OF that] by (auto simp: csv_row_def simp del: list.map)
  have "\<exists>csv. csv_lines fmt results = Inr csv \<and> (case csv of None \<Rightarrow> results = [] | Some ls \<Rightarrow> length ls = Suc (length results))"
  proof (cases "results = []")
    case False
    then have "map fst (hd results) = result_keys" using assms by simp
    with False map_res_total [of results "csv_row fmt result_keys"] row show ?thesis
      by (auto simp: csv_lines_def Let_def simp del: list.map)
  qed (simp add: csv_lines_def)
  moreover have "\<exists>y. table_row fmt [''scheduler'', ''concurrency'', ''e2e_p50_ms'', ''e2e_p99_ms'', ''throughput_rps'', ''tokens_per_sec''] r = Inr y"
    if "r \<in> set results" for r
  proof -
    have "set [''scheduler'', ''concurrency'', ''e2e_p50_ms'', ''e2e_p99_ms'', ''throughput_rps'', ''tokens_per_sec''] \<subseteq> dict_keys r"
      unfolding k [OF that] by (simp add: result_dict_def)
    from fields_present [OF this, of fmt] show ?thesis
      unfolding table_row_def by (elim exE conjE) simp
  qed
  then obtain ls where "report_lines fmt ts results = Inr ls"
    using map_res_total [of results "table_row fmt [''scheduler'', ''concurrency'', ''e2e_p50_ms'', ''e2e_p99_ms'', ''throughput_rps'', ''tokens_per_sec'']"]
    by (auto simp: report_lines_def)
  ultimately show ?thesis by (auto simp: generate_report_def)
qed

section \<open>Properties\<close>

text \<open>
  C37: the comparison report. Whatever is measured, the comparison has three rows per level and its
  report is written without error, with one CSV line per row. When the run of the predicted
  scheduler fails, its row repeats every figure of the FCFS row under the name \<^verbatim>\<open>sjf\<close>, so the
  report does not show the failure. The production report always raises, in a directory that
  holds only files of earlier comparisons: it expects a dictionary where the comparison writes a
  list, and an empty directory has no latest file.
\<close>

theorem comparison_report_outcome:
  "length (run_comparison fc orc sj levels) = 3 * length levels \<and>
   (\<exists>csv md. generate_report fmt ts (run_comparison fc orc sj levels)
        = Inr (PList (map PDict (run_comparison fc orc sj levels)), csv, md) \<and>
      (case csv of None \<Rightarrow> levels = [] | Some ls \<Rightarrow> length ls = Suc (3 * length levels))) \<and>
   (\<forall>i < length levels. \<forall>e k. sj (levels ! i) = Inl e \<longrightarrow>
      dict_get (run_comparison fc orc sj levels ! (3 * i + 2)) k =
        (if k = ''scheduler'' then Some (PStr ''sjf'') else dict_get (run_comparison fc orc sj levels ! (3 * i)) k)) \<and>
   production_report fmt ts here (map (\<lambda>rs. PList (map PDict rs)) old) (run_comparison fc orc sj levels) =
     Inl (if here \<or> old \<noteq> [] then AttributeError else IndexError)"
proof -
  let ?rs = "run_comparison fc orc sj levels"
  obtain csv md where g: "generate_report fmt ts ?rs = Inr (PList (map PDict ?rs), csv, md)"
    "case csv of None \<Rightarrow> ?rs = [] | Some ls \<Rightarrow> length ls = Suc (length ?rs)"
    using generate_report_total [of ?rs fmt ts] comparison_keys by blast
  have "?rs = [] \<longleftrightarrow> levels = []" using comparison_length [of fc orc sj levels] by auto
  with g(2) have "case csv of None \<Rightarrow> levels = [] | Some ls \<Rightarrow> length ls = Suc (3 * length levels)"
    by (simp add: comparison_length split: option.splits)
  moreover have "dict_get (?rs ! (3 * i + 2)) k =
      (if k = ''scheduler'' then Some (PStr ''sjf'') else dict_get (?rs ! (3 * i)) k)"
    if "i < length levels" "sj (levels ! i) = Inl e" for i e k
    using comparison_nth [OF that(1), of 2 fc orc sj] comparison_nth [OF that(1), of 0 fc orc sj] that(2)
    by (simp add: compare_level_def Let_def run_sjf_benchmark_def dict_get_set)
  moreover have "production_report fmt ts here (map (\<lambda>rs. PList (map PDict rs)) old) ?rs =
      Inl (if here \<or> old \<noteq> [] then AttributeError else IndexError)"
    using g(1) by (cases old rule: rev_cases) (simp_all add: production_report_def to_markdown_def)
  ultimately show ?thesis using g(1) by (simp add: comparison_length)
qed

theorem comparison_report_outcome_witness:
  "dict_get (run_comparison (\<lambda>c. ([], 1)) (\<lambda>c. ([], 1)) (\<lambda>c. Inl (OtherError ''no model'')) [4, 8] ! 5) ''concurrency''
     = dict_get (run_comparison (\<lambda>c. ([], 1)) (\<lambda>c. ([], 1)) (\<lambda>c. Inl (OtherError ''no model'')) [4, 8] ! 3) ''concurrency''"
  using comparison_report_outcome [of "\<lambda>c. ([], 1)" "\<lambda>c. ([], 1)" "\<lambda>c. Inl (OtherError ''no model'')" "[4, 8]",
      THEN conjunct2, THEN conjunct2, THEN conjunct1, rule_format, of 1 "OtherError ''no model''" "''concurrency''"]
  by simp

text \<open>
  The live benchmark. For a positive number of requests, an elapsed time that is not zero and
  numeric token counts the level is reported without error; its percentiles are those of the
  simulated benchmark, the error rate lies between 0 and 100 percent, and no more requests
  succeed than were sent. Without requests, or when no time elapsed, the report raises.
\<close>

theorem live_benchmark_outcome:
  assumes "\<And>r. r \<in> set results \<Longrightarrow> fst r \<Longrightarrow> \<exists>i. snd (snd r) = PInt i"
    and "int (length results) = n"
  shows "if n = 0 \<or> elapsed = 0 then run_level c n results elapsed = Inl (OtherError ''ZeroDivisionError'')
    else (\<exists>b. run_level c n results elapsed = Inr b \<and> int (be_n_success b) \<le> n \<and>
      0 \<le> be_error_rate b \<and> be_error_rate b \<le> 100 \<and>
      be_e2e_p50_ms b = py_round 1 (percentile (map (fst \<circ> snd) results) (50 / 100)) \<and>
      be_e2e_p99_ms b = py_round 1 (percentile (map (fst \<circ> snd) results) (99 / 100)))"
proof -
  let ?ok = "filter fst results"
  have "\<exists>x. sum_tokens vs = Inr x" if "\<forall>v \<in> set vs. \<exists>i. v = PInt i" for vs
    using that by (induction vs) auto
  then obtain tot where tot: "sum_tokens (map (snd \<circ> snd) ?ok) = Inr tot" using assms(1) by fastforce
  have le: "length ?ok \<le> length results" by (rule length_filter_le)
  have pct: "pct (sort xs) p = percentile xs p" if "0 \<le> p" "p \<le> 1" for xs :: "real list" and p
  proof (cases "xs = []")
    case False
    have "real (length xs) * p \<le> real (length xs)" using that by (simp add: mult_left_le)
    then have "trunc (real (length xs) * p) \<le> int (length xs)" using that by (simp add: trunc_nonneg) linarith
    moreover have "sort xs \<noteq> []" using False by (metis length_0_conv length_sort)
    ultimately show ?thesis using False by (simp add: pct_def percentile_def Let_def min_def)
  qed (simp add: pct_def percentile_def)
  show ?thesis
  proof (cases "n = 0 \<or> elapsed = 0")
    case True
    then show ?thesis using tot by (auto simp: run_level_def Let_def py_div_def)
  next
    case False
    let ?err = "real_of_int (n - int (length ?ok)) / real_of_int n * 100"
    have "0 \<le> ?err" "?err \<le> 100" using False assms(2) le by (auto simp: divide_le_eq)
    then have "0 \<le> py_round 1 ?err \<and> py_round 1 ?err \<le> 100"
      using py_round_bounds [of 0 ?err 100 1] by simp
    moreover have "int (length ?ok) \<le> n" using le assms(2) by linarith
    ultimately show ?thesis using False tot assms(2) pct by (simp add: run_level_def Let_def py_div_def)
  qed
qed

theorem live_benchmark_outcome_witness:
  "\<exists>b. run_level 8 2 [run_request (Inr (200, PDict [])) 100 12, run_request (Inl TimeoutError) 100 40] 1 = Inr b \<and>
     be_error_rate b \<le> 100"
proof -
  let ?rs = "[run_request (Inr (200, PDict [])) 100 12, run_request (Inl TimeoutError) 100 40]"
  have "\<exists>i. snd (snd r) = PInt i" if "r \<in> set ?rs" "fst r" for r using that by (auto simp: run_request_def)
  from live_benchmark_outcome [OF this, of ?rs 2 1 8] show ?thesis by auto
qed

text \<open>
  The live benchmark as a whole. If the answers of the server count their tokens in integers, every level is positive and
  takes some time, and there is at least one request, then the benchmark ends with one
  entry per level, whatever else the server answers; a level of 0 makes it wait forever.
\<close>

definition integer_tokens :: "int \<times> pyval \<Rightarrow> bool" where
  "integer_tokens reply \<longleftrightarrow>
     (\<forall>t. bind_res (py_get (snd reply) ''usage'' (PDict [])) (\<lambda>u. py_get u ''completion_tokens'' (PInt 0)) = Inr t \<longrightarrow> (\<exists>i. t = PInt i))"

lemma run_request_tokens:
  assumes "\<And>reply. resp = Inr reply \<Longrightarrow> integer_tokens reply" and "fst (run_request resp max_tokens ms)"
  shows "\<exists>i. snd (snd (run_request resp max_tokens ms)) = PInt i"
proof -
  obtain data where r: "resp = Inr (200, data)"
    using assms(2) by (auto simp: run_request_def split: sum.splits prod.splits if_splits)
  then have i: "integer_tokens (200, data)" using assms(1) by simp
  obtain u t where u: "py_get data ''usage'' (PDict []) = Inr u" and t: "py_get u ''completion_tokens'' (PInt max_tokens) = Inr t"
    and res: "run_request resp max_tokens ms = (True, ms, t)"
    using assms(2) r by (auto simp: run_request_def bind_res_def split: sum.splits)
  obtain d where "u = PDict d" using t by (cases u) auto
  with u t i res show ?thesis by (auto simp: integer_tokens_def split: option.splits)
qed

theorem live_benchmark_ends:
  assumes "\<And>c i p reply. post c i p = Inr reply \<Longrightarrow> integer_tokens reply" and "0 < n" and "\<And>c. elapsed c \<noteq> 0"
    and "\<forall>c \<in> set levels. 0 < c"
  shows "(\<exists>rs. live_main fmt now (\<lambda>c. live_level (post c) (ms c) (elapsed c) n max_tokens c) levels =
      Some (Inr (PList (map (PDict \<circ> bench_dict) rs), ''# SmolLM3 Native Port Benchmark'' @ [CHR 0x0A, CHR 0x0A] @ ''**'' @ now @ ''**'' @
        [CHR 0x0A, CHR 0x0A] @ render_table fmt rs @ [CHR 0x0A])) \<and>
      length rs = length levels \<and> (\<forall>r \<in> set rs. 0 \<le> be_error_rate r \<and> be_error_rate r \<le> 100)) \<and>
    live_main fmt now (\<lambda>c. live_level (post c) (ms c) (elapsed c) n max_tokens c) (levels @ 0 # later) = None"
proof -
  let ?level = "\<lambda>c. live_level (post c) (ms c) (elapsed c) n max_tokens c"
  have one: "\<exists>b. ?level c = Some (Inr b) \<and> 0 \<le> be_error_rate b \<and> be_error_rate b \<le> 100" if "0 < c" for c
  proof -
    let ?rs = "map (\<lambda>i. run_request (post c i (LIVE_PROMPTS ! (i mod length LIVE_PROMPTS))) max_tokens (ms c i)) [0..<nat n]"
    have "\<exists>i. snd (snd r) = PInt i" if r: "r \<in> set ?rs" "fst r" for r
    proof -
      from r(1) obtain i where "r = run_request (post c i (LIVE_PROMPTS ! (i mod length LIVE_PROMPTS))) max_tokens (ms c i)" by auto
      with r(2) run_request_tokens [of "post c i (LIVE_PROMPTS ! (i mod length LIVE_PROMPTS))" max_tokens "ms c i", OF assms(1)]
      show ?thesis by simp
    qed
    from live_benchmark_outcome [OF this, of ?rs n "elapsed c" c] assms(2,3) that show ?thesis by (auto simp: live_level_def)
  qed
  have "\<exists>rs. live_levels ?level levels = Some (Inr rs) \<and> length rs = length levels \<and>
      (\<forall>r \<in> set rs. 0 \<le> be_error_rate r \<and> be_error_rate r \<le> 100) \<and> live_levels ?level (levels @ 0 # later) = None"
    using assms(4)
  proof (induction levels)
    case Nil
    then show ?case using assms(2) by (simp add: live_level_def)
  next
    case (Cons c cs)
    obtain b where b: "?level c = Some (Inr b)" "0 \<le> be_error_rate b" "be_error_rate b \<le> 100"
      using one [of c] Cons.prems by auto
    from Cons obtain rs where "live_levels ?level cs = Some (Inr rs)" "length rs = length cs"
      "\<forall>r \<in> set rs. 0 \<le> be_error_rate r \<and> be_error_rate r \<le> 100" "live_levels ?level (cs @ 0 # later) = None" by auto
    with b show ?case by simp
  qed
  then show ?thesis unfolding live_main_def by (auto simp del: live_levels.simps)
qed

theorem live_benchmark_ends_witness:
  "\<exists>x. live_main (\<lambda>_. []) ''now'' (\<lambda>c. live_level (\<lambda>i p. Inl TimeoutError) (\<lambda>i. 1) 1 50 100 c) [1, 8, 32] = Some (Inr x)"
proof -
  have l: "\<forall>c \<in> set [1, 8, 32]. 0 < (c :: int)" by simp
  show ?thesis
    using live_benchmark_ends [where post = "\<lambda>c i p. Inl TimeoutError" and n = 50 and elapsed = "\<lambda>c. 1" and ms = "\<lambda>c i. 1" and
        fmt = "\<lambda>_. []" and now = "''now''" and max_tokens = 100, OF _ _ _ l, THEN conjunct1] by simp blast
qed

end
