(* ===== verification/Plots.thy ===== *)
theory Plots
  imports BenchmarkReport "HOL-Library.List_Lexorder" "HOL-Library.Char_ord"
begin

text \<open>
  The plots of the comparison: \<^verbatim>\<open>python/benchmark/plots.py\<close> and the end of \<^verbatim>\<open>generate_report\<close> in
  \<^verbatim>\<open>python/benchmark/compare.py\<close>. A figure is what is handed to matplotlib: its file, its panels, and
  the lines of each panel with their label, style and points. Drawing and saving are not modelled.
\<close>

section \<open>Sorting values\<close>

fun num_of :: "pyval \<Rightarrow> real option" where
  "num_of (PInt i) = Some (real_of_int i)"
| "num_of (PBool b) = Some (if b then 1 else 0)"
| "num_of (PFloat x) = Some x"
| "num_of _ = None"

fun str_of :: "pyval \<Rightarrow> string option" where
  "str_of (PStr s) = Some s"
| "str_of _ = None"

text \<open>\<^verbatim>\<open>a == b\<close> for values that are not containers.\<close>

definition py_eq :: "pyval \<Rightarrow> pyval \<Rightarrow> bool" where
  "py_eq a b = (case (num_of a, num_of b) of (Some x, Some y) \<Rightarrow> x = y | _ \<Rightarrow> a = b)"

text \<open>
  \<^verbatim>\<open>sorted\<close> and \<^verbatim>\<open>list.sort\<close> with a key, both stable: numbers compare with numbers, strings with strings,
  and nothing else compares (a list as a key is outside the model).
\<close>

definition sorted_by :: "('a \<Rightarrow> pyval) \<Rightarrow> 'a list \<Rightarrow> 'a list pyres" where
  "sorted_by key xs =
     (if length xs \<le> 1 then Inr xs
      else if list_all (\<lambda>x. num_of (key x) \<noteq> None) xs then Inr (sort_key (\<lambda>x. the (num_of (key x))) xs)
      else if list_all (\<lambda>x. str_of (key x) \<noteq> None) xs then Inr (sort_key (\<lambda>x. the (str_of (key x))) xs)
      else Inl TypeError)"

fun hashable :: "pyval \<Rightarrow> bool" where
  "hashable (PList vs) = False"
| "hashable (PDict d) = False"
| "hashable v = True"

text \<open>\<^verbatim>\<open>set\<close> of the values, in the order of their first occurrence.\<close>

definition py_set :: "pyval list \<Rightarrow> pyval list pyres" where
  "py_set vs =
     (if list_all hashable vs
      then Inr (foldl (\<lambda>acc v. if list_ex (\<lambda>a. py_eq a v) acc then acc else acc @ [v]) [] vs)
      else Inl TypeError)"

section \<open>The plots\<close>

definition item :: "string \<Rightarrow> (string, pyval) dict \<Rightarrow> pyval pyres" where
  "item k r = (case dict_get r k of None \<Rightarrow> Inl (KeyError k) | Some v \<Rightarrow> Inr v)"

record series =
  se_label :: string
  se_style :: string
  se_xs :: "pyval list"
  se_ys :: "pyval list"

definition plot_schedulers :: "(string, pyval) dict list \<Rightarrow> pyval list pyres" where
  "plot_schedulers results =
     bind_res (map_res (item ''scheduler'') results) (\<lambda>vs. bind_res (py_set vs) (sorted_by id))"

text \<open>The rows of a scheduler by concurrency; the two sorts look the keys up, so a missing one raises.\<close>

definition plot_subset :: "(string, pyval) dict list \<Rightarrow> pyval \<Rightarrow> (string, pyval) dict list pyres" where
  "plot_subset results sched =
     bind_res (map_res (item ''scheduler'') results) (\<lambda>names.
       let rows = map fst (filter (\<lambda>(r, s). py_eq s sched) (zip results names))
       in bind_res (map_res (item ''concurrency'') rows) (\<lambda>cs.
          bind_res (sorted_by snd (zip rows cs)) (\<lambda>ps. Inr (map fst ps))))"

definition plot_line :: "(string, pyval) dict list \<Rightarrow> string \<Rightarrow> string \<Rightarrow> string \<Rightarrow> series pyres" where
  "plot_line rows label style key =
     bind_res (map_res (item ''concurrency'') rows) (\<lambda>xs.
     bind_res (map_res (item key) rows) (\<lambda>ys.
       Inr \<lparr>se_label = label, se_style = style, se_xs = xs, se_ys = ys\<rparr>))"

text \<open>The three loops: two lines per scheduler for the latencies, one for throughput and waiting time.\<close>

definition latency_lines :: "(pyval \<Rightarrow> string) \<Rightarrow> (string, pyval) dict list \<Rightarrow> pyval \<Rightarrow> series list pyres" where
  "latency_lines fmt results sched =
     bind_res (plot_subset results sched) (\<lambda>rows.
     bind_res (plot_line rows (py_str fmt sched @ '' p50'') ''o'' ''e2e_p50_ms'') (\<lambda>p50.
     bind_res (plot_line rows (py_str fmt sched @ '' p99'') ''s--'' ''e2e_p99_ms'') (\<lambda>p99. Inr [p50, p99])))"

definition single_line :: "(pyval \<Rightarrow> string) \<Rightarrow> (string, pyval) dict list \<Rightarrow> string \<Rightarrow> pyval \<Rightarrow> series list pyres" where
  "single_line fmt results key sched =
     bind_res (plot_subset results sched) (\<lambda>rows.
     bind_res (plot_line rows (py_str fmt sched) ''o'' key) (\<lambda>l. Inr [l]))"

record panel =
  pn_title :: string
  pn_ylabel :: string
  pn_lines :: "series list"

definition panel_of ::
  "string \<Rightarrow> string \<Rightarrow> (pyval \<Rightarrow> series list pyres) \<Rightarrow> pyval list \<Rightarrow> panel pyres" where
  "panel_of title ylabel f scheds =
     bind_res (map_res f scheds) (\<lambda>ls. Inr \<lparr>pn_title = title, pn_ylabel = ylabel, pn_lines = concat ls\<rparr>)"

text \<open>
  \<^verbatim>\<open>generate_plots\<close>: the figures it saves, and its exception, if any; the first figure is saved before
  the second is begun. Without matplotlib nothing happens.
\<close>

definition generate_plots ::
  "bool \<Rightarrow> (pyval \<Rightarrow> string) \<Rightarrow> string \<Rightarrow> (string, pyval) dict list \<Rightarrow> (string \<times> panel list) list \<times> pyexn option" where
  "generate_plots installed fmt timestamp results =
     (if \<not> installed then ([], None)
      else case bind_res (plot_schedulers results) (\<lambda>scheds.
                bind_res (panel_of ''End-to-End Latency'' ''Latency (ms)'' (latency_lines fmt results) scheds) (\<lambda>p1.
                bind_res (panel_of ''Throughput'' ''Requests/sec'' (single_line fmt results ''throughput_rps'') scheds) (\<lambda>p2.
                  Inr (scheds, [p1, p2])))) of
             Inl e \<Rightarrow> ([], Some e)
           | Inr (scheds, fig) \<Rightarrow>
               (let saved = (''latency_throughput_'' @ timestamp @ ''.png'', fig)
                in case panel_of ''Queue Wait Time'' ''Queue Wait p99 (ms)'' (single_line fmt results ''queue_wait_p99_ms'') scheds of
                     Inl e \<Rightarrow> ([saved], Some e)
                   | Inr p3 \<Rightarrow> ([saved, (''queue_wait_'' @ timestamp @ ''.png'', [p3])], None)))"

section \<open>Facts\<close>

lemma key_present: "dict_get r k = Some v \<Longrightarrow> k \<in> dict_keys r"
  by (force dest: map_of_SomeD)

lemma map_res_item:
  "\<forall>r \<in> set rs. k \<in> dict_keys r \<Longrightarrow> map_res (item k) rs = Inr (map (\<lambda>r. the (dict_get r k)) rs)"
proof (induction rs)
  case (Cons r rs)
  then have "dict_get r k \<noteq> None" by (simp add: map_of_eq_None_iff)
  with Cons show ?case by (auto simp: item_def)
qed simp

lemma map_res_missing: "r \<in> set rs \<Longrightarrow> k \<notin> dict_keys r \<Longrightarrow> map_res (item k) rs = Inl (KeyError k)"
proof (induction rs)
  case (Cons x rs)
  show ?case
  proof (cases "dict_get x k")
    case None
    then show ?thesis by (simp add: item_def)
  next
    case (Some v)
    with Cons.prems have "r \<in> set rs" by (metis map_of_eq_None_iff option.distinct(1) set_ConsD)
    with Cons Some show ?thesis by (simp add: item_def)
  qed
qed simp

lemma sort_key_map: "sort_key f (map h xs) = map h (sort_key (\<lambda>x. f (h x)) xs)"
proof -
  have "insort_key f (h x) (map h ys) = map h (insort_key (\<lambda>x. f (h x)) x ys)" for x ys by (induction ys) auto
  then show ?thesis by (induction xs) auto
qed

lemma sort_key_int: "sort_key real_of_int xs = sort xs"
proof -
  have "insort_key real_of_int x ys = insort x ys" for x ys by (induction ys) auto
  then show ?thesis by (induction xs) auto
qed

lemma sorted_by_num:
  assumes "list_all (\<lambda>x. num_of (key x) \<noteq> None) xs"
  shows "sorted_by key xs = Inr (sort_key (\<lambda>x. the (num_of (key x))) xs)"
  using assms by (cases xs rule: list.exhaust) (auto simp: sorted_by_def)

lemma zip_self: "zip xs (map g xs) = map (\<lambda>x. (x, g x)) xs"
  by (induction xs) auto

text \<open>On rows with both keys and numeric concurrency, the subset is filtered and stably sorted.\<close>

lemma plot_subset_rows:
  assumes "\<forall>r \<in> set rs. ''scheduler'' \<in> dict_keys r \<and> (\<exists>i. dict_get r ''concurrency'' = Some (PInt i))"
  shows "plot_subset rs sched =
    Inr (sort_key (\<lambda>r. the (num_of (the (dict_get r ''concurrency'')))) (filter (\<lambda>r. py_eq (the (dict_get r ''scheduler'')) sched) rs))"
proof -
  let ?c = "\<lambda>r. the (dict_get r ''concurrency'')"
  let ?rows = "filter (\<lambda>r. py_eq (the (dict_get r ''scheduler'')) sched) rs"
  have num: "\<exists>i. dict_get r ''concurrency'' = Some (PInt i)" if "r \<in> set ?rows" for r
    using assms that by simp
  have c: "\<forall>r \<in> set ?rows. ''concurrency'' \<in> dict_keys r" using num key_present by meson
  have f: "map fst (filter (\<lambda>(r, s). py_eq s sched) (map (\<lambda>r. (r, the (dict_get r ''scheduler''))) rs)) = ?rows"
    by (induction rs) auto
  have "\<exists>x. num_of (?c r) = Some x" if "r \<in> set ?rows" for r using num [OF that] by auto
  then have "list_all (\<lambda>x. num_of (snd x) \<noteq> None) (map (\<lambda>r. (r, ?c r)) ?rows)" by (auto simp: list_all_iff)
  from sorted_by_num [OF this] have "bind_res (sorted_by snd (map (\<lambda>r. (r, ?c r)) ?rows)) (\<lambda>ps. Inr (map fst ps)) =
      Inr (sort_key (\<lambda>r. the (num_of (?c r))) ?rows)"
    by (simp add: sort_key_map o_def)
  moreover have "\<forall>r \<in> set rs. ''scheduler'' \<in> dict_keys r" using assms by blast
  ultimately show ?thesis
    unfolding plot_subset_def by (simp add: map_res_item [OF c] map_res_item zip_self f Let_def)
qed

text \<open>The rows of a comparison.\<close>

definition names :: "string list" where
  "names = [''fcfs'', ''oracle_sjf'', ''sjf'']"

lemma level_rows:
  assumes "r \<in> set (compare_level fc orc sj c)"
  shows "dict_get r ''concurrency'' = Some (PInt c)" "set result_keys \<subseteq> dict_keys r"
proof -
  show "set result_keys \<subseteq> dict_keys r" using compare_level_keys [OF assms] by (metis list.set_map order_refl)
  show "dict_get r ''concurrency'' = Some (PInt c)" using assms
    by (auto simp: compare_level_def Let_def run_fcfs_benchmark_def run_oracle_benchmark_def run_sjf_benchmark_def
        dict_get_set result_dict_def aggregate_metrics_def bind_res_def split: sum.splits)
qed

lemma level_three:
  "\<exists>x y z. compare_level fc orc sj c = [x, y, z] \<and> dict_get x ''scheduler'' = Some (PStr ''fcfs'') \<and>
     dict_get y ''scheduler'' = Some (PStr ''oracle_sjf'') \<and> dict_get z ''scheduler'' = Some (PStr ''sjf'')"
  by (auto simp: compare_level_def Let_def run_fcfs_benchmark_def run_oracle_benchmark_def run_sjf_benchmark_def
      dict_get_set result_dict_def aggregate_metrics_def bind_res_def split: sum.splits)

abbreviation curve :: "(int \<Rightarrow> measurement) \<Rightarrow> (int \<Rightarrow> measurement) \<Rightarrow> (int \<Rightarrow> measurement pyres) \<Rightarrow> int list \<Rightarrow>
    string \<Rightarrow> string \<Rightarrow> string \<Rightarrow> nat \<Rightarrow> series" where
  "curve fc orc sj levels suffix style key j \<equiv>
     \<lparr>se_label = names ! j @ suffix, se_style = style, se_xs = map PInt (sort levels),
      se_ys = map (\<lambda>c. the (dict_get (compare_level fc orc sj c ! j) key)) (sort levels)\<rparr>"

lemma comparison_subset:
  assumes "j < 3"
  shows "plot_subset (run_comparison fc orc sj levels) (PStr (names ! j)) = Inr (map (\<lambda>c. compare_level fc orc sj c ! j) (sort levels))"
proof -
  let ?L = "\<lambda>c. compare_level fc orc sj c" and ?rs = "run_comparison fc orc sj levels"
  have l: "length (?L c) = 3" for c by (simp add: compare_level_def Let_def)
  have f: "filter (\<lambda>r. py_eq (the (dict_get r ''scheduler'')) (PStr (names ! j))) (?L c) = [?L c ! j]" for c
  proof -
    have "j = 0 \<or> j = 1 \<or> j = 2" using assms by auto
    with level_three [of fc orc sj c] show ?thesis by (auto simp: names_def py_eq_def)
  qed
  have "filter (\<lambda>r. py_eq (the (dict_get r ''scheduler'')) (PStr (names ! j))) ?rs = map (\<lambda>c. ?L c ! j) levels"
    by (induction levels) (simp_all add: run_comparison_def f)
  moreover have "the (dict_get (?L c ! j) ''concurrency'') = PInt c" for c
    using level_rows(1) [of "?L c ! j" fc orc sj c] l assms by simp
  moreover have "\<forall>r \<in> set ?rs. ''scheduler'' \<in> dict_keys r \<and> (\<exists>i. dict_get r ''concurrency'' = Some (PInt i))"
    using level_rows unfolding run_comparison_def by (fastforce simp: result_dict_def)
  ultimately show ?thesis by (simp add: plot_subset_rows sort_key_map sort_key_int)
qed

lemma comparison_column:
  "k \<in> set result_keys \<Longrightarrow> r \<in> set (run_comparison fc orc sj levels) \<Longrightarrow> k \<in> dict_keys r"
proof -
  assume k: "k \<in> set result_keys" and "r \<in> set (run_comparison fc orc sj levels)"
  then obtain c where "r \<in> set (compare_level fc orc sj c)" by (auto simp: run_comparison_def)
  from subsetD [OF level_rows(2) [OF this] k] show ?thesis .
qed

lemma comparison_schedulers:
  "plot_schedulers (run_comparison fc orc sj levels) = Inr (if levels = [] then [] else map PStr names)"
proof -
  let ?rs = "run_comparison fc orc sj levels" and ?add = "\<lambda>acc v. if list_ex (\<lambda>a. py_eq a v) acc then acc else acc @ [v]"
  have "map (\<lambda>r. the (dict_get r ''scheduler'')) (compare_level fc orc sj c) = map PStr names" for c
    using level_three [of fc orc sj c] by (auto simp: names_def)
  then have col: "map (\<lambda>r. the (dict_get r ''scheduler'')) ?rs = concat (replicate (length levels) (map PStr names))"
    by (induction levels) (simp_all add: run_comparison_def)
  have again: "foldl ?add (map PStr names) (concat (replicate n (map PStr names))) = map PStr names" for n
    by (induction n) (simp_all add: names_def py_eq_def)
  have "foldl ?add [] (map PStr names) = map PStr names" by (simp add: names_def py_eq_def)
  with again have "foldl ?add [] (concat (replicate (length levels) (map PStr names))) = (if levels = [] then [] else map PStr names)"
    by (cases levels) simp_all
  moreover have "list_all hashable (concat (replicate n (map PStr names)))" for n by (induction n) (simp_all add: names_def)
  ultimately have "py_set (concat (replicate (length levels) (map PStr names))) = Inr (if levels = [] then [] else map PStr names)"
    by (simp add: py_set_def)
  moreover have "sorted_by id (map PStr names) = Inr (map PStr names)" by code_simp
  moreover have "sorted_by id [] = Inr []" by (simp add: sorted_by_def)
  moreover have "\<forall>r \<in> set ?rs. ''scheduler'' \<in> dict_keys r" using comparison_column by (fastforce simp: result_dict_def)
  ultimately show ?thesis by (simp add: plot_schedulers_def map_res_item col)
qed

lemma comparison_line:
  assumes "j < 3" and "key \<in> set result_keys"
  shows "plot_line (map (\<lambda>c. compare_level fc orc sj c ! j) (sort levels)) (names ! j @ suffix) style key =
    Inr (curve fc orc sj levels suffix style key j)"
proof -
  let ?rs = "map (\<lambda>c. compare_level fc orc sj c ! j) (sort levels)"
  have l: "compare_level fc orc sj c ! j \<in> set (compare_level fc orc sj c)" for c
    by (rule nth_mem) (use assms(1) in \<open>simp add: compare_level_def Let_def\<close>)
  have "\<forall>r \<in> set ?rs. k \<in> dict_keys r" if "k \<in> set result_keys" for k using level_rows(2) [OF l] that by auto
  moreover have "''concurrency'' \<in> set result_keys" by (simp add: result_dict_def)
  ultimately show ?thesis using assms(2) level_rows(1) [OF l] by (simp add: plot_line_def map_res_item o_def)
qed

lemma map_res_names:
  "\<forall>j < 3. f (PStr (names ! j)) = Inr (g j) \<Longrightarrow>
   map_res f (if levels = [] then [] else map PStr names) = Inr (map g (if levels = [] then [] else [0, 1, 2]))"
  by (auto simp: names_def numeral_3_eq_3 numeral_2_eq_2 less_Suc_eq)

lemma comparison_panel:
  assumes "\<And>j. j < 3 \<Longrightarrow> f (PStr (names ! j)) = Inr (g j)"
  shows "panel_of title ylabel f (if levels = [] then [] else map PStr names) =
    Inr \<lparr>pn_title = title, pn_ylabel = ylabel, pn_lines = concat (map g (if levels = [] then [] else [0, 1, 2]))\<rparr>"
proof -
  have "\<forall>j < 3. f (PStr (names ! j)) = Inr (g j)" using assms by blast
  from map_res_names [OF this, of levels] show ?thesis by (simp only: panel_of_def bind_res_simps)
qed

lemma plots_of_comparison:
  "generate_plots True fmt ts (run_comparison fc orc sj levels) =
     (let js = (if levels = [] then [] else [0, 1, 2]); line = curve fc orc sj levels in
     ([(''latency_throughput_'' @ ts @ ''.png'',
          [\<lparr>pn_title = ''End-to-End Latency'', pn_ylabel = ''Latency (ms)'',
             pn_lines = concat (map (\<lambda>j. [line '' p50'' ''o'' ''e2e_p50_ms'' j, line '' p99'' ''s--'' ''e2e_p99_ms'' j]) js)\<rparr>,
           \<lparr>pn_title = ''Throughput'', pn_ylabel = ''Requests/sec'', pn_lines = map (line [] ''o'' ''throughput_rps'') js\<rparr>]),
       (''queue_wait_'' @ ts @ ''.png'',
          [\<lparr>pn_title = ''Queue Wait Time'', pn_ylabel = ''Queue Wait p99 (ms)'',
             pn_lines = map (line [] ''o'' ''queue_wait_p99_ms'') js\<rparr>])], None))"
proof -
  let ?rs = "run_comparison fc orc sj levels" and ?line = "curve fc orc sj levels"
  have key: "key \<in> set result_keys" if "key \<in> {''e2e_p50_ms'', ''e2e_p99_ms'', ''throughput_rps'', ''queue_wait_p99_ms''}" for key
    using that by (auto simp: result_dict_def)
  have lat: "latency_lines fmt ?rs (PStr (names ! j)) = Inr [?line '' p50'' ''o'' ''e2e_p50_ms'' j, ?line '' p99'' ''s--'' ''e2e_p99_ms'' j]"
    if "j < 3" for j
    using comparison_line [OF that key] by (simp add: latency_lines_def comparison_subset [OF that])
  have one: "single_line fmt ?rs key (PStr (names ! j)) = Inr [?line [] ''o'' key j]"
    if "j < 3" "key \<in> {''throughput_rps'', ''queue_wait_p99_ms''}" for j key
    using comparison_line [OF that(1) key, of key fc orc sj levels "[]" "''o''"] that(2)
    by (auto simp: single_line_def comparison_subset [OF that(1)])
  have sing: "concat (map (\<lambda>j. [h j]) js) = map h js" for h :: "nat \<Rightarrow> series" and js by (induction js) auto
  note p = comparison_panel [where levels = levels and f = "latency_lines fmt ?rs"
      and g = "\<lambda>j. [?line '' p50'' ''o'' ''e2e_p50_ms'' j, ?line '' p99'' ''s--'' ''e2e_p99_ms'' j]", OF lat]
    comparison_panel [where levels = levels and f = "single_line fmt ?rs ''throughput_rps''"
      and g = "\<lambda>j. [?line [] ''o'' ''throughput_rps'' j]", OF one, simplified sing]
    comparison_panel [where levels = levels and f = "single_line fmt ?rs ''queue_wait_p99_ms''"
      and g = "\<lambda>j. [?line [] ''o'' ''queue_wait_p99_ms'' j]", OF one, simplified sing]
  show ?thesis
    by (auto simp: generate_plots_def comparison_schedulers p sing Let_def simp del: concat_map_singleton if_split)
qed

section \<open>Properties\<close>

text \<open>
  The plots show the comparison. Whatever was measured, the plots of a comparison are drawn
  without error: two figures with one line per scheduler (two for the latencies), each over the
  concurrency levels in increasing order with exactly the figures of that scheduler's rows. For
  any other results, a row without a scheduler raises before anything is saved, and without
  matplotlib nothing is done.
\<close>

theorem plots_show_comparison:
  "let js = (if levels = [] then [] else [0, 1, 2]); line = curve fc orc sj levels
   in generate_plots True fmt ts (run_comparison fc orc sj levels) =
     ([(''latency_throughput_'' @ ts @ ''.png'',
          [\<lparr>pn_title = ''End-to-End Latency'', pn_ylabel = ''Latency (ms)'',
             pn_lines = concat (map (\<lambda>j. [line '' p50'' ''o'' ''e2e_p50_ms'' j, line '' p99'' ''s--'' ''e2e_p99_ms'' j]) js)\<rparr>,
           \<lparr>pn_title = ''Throughput'', pn_ylabel = ''Requests/sec'', pn_lines = map (line [] ''o'' ''throughput_rps'') js\<rparr>]),
       (''queue_wait_'' @ ts @ ''.png'',
          [\<lparr>pn_title = ''Queue Wait Time'', pn_ylabel = ''Queue Wait p99 (ms)'',
             pn_lines = map (line [] ''o'' ''queue_wait_p99_ms'') js\<rparr>])], None) \<and>
     (\<forall>r \<in> set results. ''scheduler'' \<notin> dict_keys r \<longrightarrow> generate_plots True fmt ts results = ([], Some (KeyError ''scheduler''))) \<and>
     generate_plots False fmt ts results = ([], None)"
proof -
  have "generate_plots True fmt ts results = ([], Some (KeyError ''scheduler''))"
    if "r \<in> set results" "''scheduler'' \<notin> dict_keys r" for r
    using map_res_missing [OF that] by (simp add: generate_plots_def plot_schedulers_def)
  then show ?thesis unfolding plots_of_comparison by (auto simp: generate_plots_def Let_def)
qed

text \<open>One level, measured without requests.\<close>

theorem plots_show_comparison_witness:
  "map fst (fst (generate_plots True (\<lambda>_. []) ''t'' (run_comparison (\<lambda>c. ([], 1)) (\<lambda>c. ([], 1)) (\<lambda>c. Inr ([], 1)) [8, 2]))) =
     [''latency_throughput_t.png'', ''queue_wait_t.png''] \<and>
   generate_plots True (\<lambda>_. []) ''t'' [[]] = ([], Some (KeyError ''scheduler''))"
  using plots_show_comparison [of "[8, 2]" "\<lambda>c. ([], 1)" "\<lambda>c. ([], 1)" "\<lambda>c. Inr ([], 1)" "\<lambda>_. []" "''t''" "[[]]"] by (simp add: Let_def)

end
