(* ===== verification/Py_Argparse.thy ===== *)
theory Py_Argparse
  imports Py_Text
begin

text \<open>
  What the scripts use of \<^verbatim>\<open>argparse\<close>: parsers with long options only, each with one argument or, with
  \<^verbatim>\<open>nargs="+"\<close>, a run of them, converted by \<^verbatim>\<open>int\<close> or kept as text (\<^verbatim>\<open>str\<close> and \<^verbatim>\<open>Path\<close>), and a default. An option
  may be written in full or as a prefix that no other option has, and its argument may follow an
  equals sign. Whatever else is on the command line ends the program, as do the options for help:
  both are \<^verbatim>\<open>SystemExit\<close> here, the exit code is left out.
\<close>

section \<open>Integers as text\<close>

definition digit_value :: "char \<Rightarrow> int" where
  "digit_value c = int (code c) - 48"

definition is_decimal :: "char \<Rightarrow> bool" where
  "is_decimal c \<longleftrightarrow> in_range 48 57 c"

text \<open>Decimal digits with single underscores between them.\<close>

fun digits_val :: "int \<Rightarrow> bool \<Rightarrow> string \<Rightarrow> int option" where
  "digits_val acc digit [] = (if digit then Some acc else None)"
| "digits_val acc digit (c # cs) =
     (if is_decimal c then digits_val (10 * acc + digit_value c) True cs
      else if c = CHR ''_'' \<and> digit then digits_val acc False cs
      else None)"

text \<open>\<^verbatim>\<open>int(s)\<close> on text, below the interpreter's limit on the number of digits.\<close>

definition parse_int :: "string \<Rightarrow> int option" where
  "parse_int s =
     (case strip s of
        [] \<Rightarrow> None
      | c # cs \<Rightarrow>
          if c = CHR ''-'' then map_option uminus (digits_val 0 False cs)
          else if c = CHR ''+'' then digits_val 0 False cs
          else digits_val 0 False (c # cs))"

definition show_int :: "int \<Rightarrow> string" where
  "show_int i = (if i < 0 then CHR ''-'' # show_nat (nat (- i)) else show_nat (nat i))"

section \<open>Parsers\<close>

datatype arg_type = StrArg | IntArg

record opt_spec =
  op_name :: string
  op_many :: bool
  op_type :: arg_type
  op_default :: pyval

type_synonym namespace = "(string, pyval) dict"

abbreviation SystemExit :: pyexn where
  "SystemExit \<equiv> OtherError ''SystemExit''"

text \<open>The attribute of an option: its name without dashes in front, others as underscores.\<close>

definition dest :: "opt_spec \<Rightarrow> string" where
  "dest s = map (\<lambda>c. if c = CHR ''-'' then CHR ''_'' else c) (drop 2 (op_name s))"

definition starts :: "string \<Rightarrow> string \<Rightarrow> bool" where
  "starts p s \<longleftrightarrow> take (length p) s = p"

definition split_eq :: "string \<Rightarrow> string \<times> string option" where
  "split_eq s = (takeWhile (\<lambda>c. c \<noteq> CHR ''='') s,
     case dropWhile (\<lambda>c. c \<noteq> CHR ''='') s of [] \<Rightarrow> None | _ # v \<Rightarrow> Some v)"

text \<open>The pattern of a negative number, \<^verbatim>\<open>-\d+\<close> or \<^verbatim>\<open>-\d*\.\d+\<close>.\<close>

definition negative_number :: "string \<Rightarrow> bool" where
  "negative_number s \<longleftrightarrow> s \<noteq> [] \<and> hd s = CHR ''-'' \<and>
     (let ds = takeWhile is_decimal (tl s); rest = dropWhile is_decimal (tl s)
      in rest = [] \<and> ds \<noteq> [] \<or>
         rest \<noteq> [] \<and> hd rest = CHR ''.'' \<and> tl rest \<noteq> [] \<and> list_all is_decimal (tl rest))"

text \<open>The role of an argument string; \<open>Refused\<close> ends the program wherever it stands.\<close>

datatype token = Value string | Opt opt_spec "string option" | Refused

definition classify :: "opt_spec list \<Rightarrow> string \<Rightarrow> token" where
  "classify specs t =
     (if t = [] \<or> hd t \<noteq> CHR ''-'' \<or> t = ''-'' then Value t
      else if starts ''--'' t
      then (case split_eq t of (name, arg) \<Rightarrow>
             (case find (\<lambda>s. op_name s = name) specs of
                Some s \<Rightarrow> Opt s arg
              | None \<Rightarrow>
                  (case (filter (\<lambda>s. starts name (op_name s)) specs, starts name ''--help'') of
                     ([s], False) \<Rightarrow> Opt s arg
                   | ([], False) \<Rightarrow> if CHR '' '' \<in> set t then Value t else Refused
                   | _ \<Rightarrow> Refused)))
      else if starts ''-h'' t then Refused
      else if negative_number t \<or> CHR '' '' \<in> set t then Value t
      else Refused)"

definition convert :: "arg_type \<Rightarrow> string \<Rightarrow> pyval option" where
  "convert ty v = (case ty of StrArg \<Rightarrow> Some (PStr v) | IntArg \<Rightarrow> map_option PInt (parse_int v))"

text \<open>The values of an option, one or several.\<close>

fun convert_all :: "arg_type \<Rightarrow> string list \<Rightarrow> pyval list option" where
  "convert_all ty [] = Some []"
| "convert_all ty (v # vs) =
     (case convert ty v of
        None \<Rightarrow> None
      | Some x \<Rightarrow> map_option ((#) x) (convert_all ty vs))"

definition store :: "opt_spec \<Rightarrow> string list \<Rightarrow> namespace \<Rightarrow> namespace option" where
  "store s vs ns =
     map_option (\<lambda>xs. dict_set (dest s) (if op_many s then PList xs else hd xs) ns) (convert_all (op_type s) vs)"

fun is_value :: "token \<Rightarrow> bool" where
  "is_value (Value v) = True"
| "is_value _ = False"

fun value_of :: "token \<Rightarrow> string" where
  "value_of (Value v) = v"
| "value_of _ = []"

text \<open>
  An option without an attached argument takes the next string, or with \<^verbatim>\<open>nargs="+"\<close> all strings up to the
  next option; strings left over are not recognised.
\<close>

function consume :: "token list \<Rightarrow> namespace \<Rightarrow> namespace option" where
  "consume [] ns = Some ns"
| "consume (Value v # ts) ns = None"
| "consume (Refused # ts) ns = None"
| "consume (Opt s (Some v) # ts) ns = Option.bind (store s [v] ns) (consume ts)"
| "consume (Opt s None # ts) ns =
     (let n = (if op_many s then length (takeWhile is_value ts) else length (takeWhile is_value (take 1 ts)))
      in if n = 0 then None else Option.bind (store s (map value_of (take n ts)) ns) (consume (drop n ts)))"
  by pat_completeness auto
termination by (relation "measure (\<lambda>(ts, ns). length ts)") auto

definition defaults :: "opt_spec list \<Rightarrow> namespace" where
  "defaults specs = map (\<lambda>s. (dest s, op_default s)) specs"

definition parse_args :: "opt_spec list \<Rightarrow> string list \<Rightarrow> namespace pyres" where
  "parse_args specs argv =
     (case consume (map (classify specs) argv) (defaults specs) of None \<Rightarrow> Inl SystemExit | Some ns \<Rightarrow> Inr ns)"

section \<open>Facts on integers\<close>

lemma show_nat_decimal: "c \<in> set (show_nat n) \<Longrightarrow> is_decimal c"
proof (induction n rule: show_nat.induct)
  case (1 n)
  have d: "is_decimal (char_of (48 + k))" if "k < 10" for k :: nat using that by (simp add: is_decimal_def in_range_def)
  from 1 d [of n] d [of "n mod 10"] show ?case by (subst (asm) (2) show_nat.simps) (auto split: if_splits)
qed

lemma show_nat_nonempty [simp]: "show_nat n \<noteq> []"
  by (subst show_nat.simps) simp

lemma digits_show: "digits_val 0 b (show_nat n @ cs) = digits_val (int n) True cs"
proof (induction n arbitrary: cs rule: show_nat.induct)
  case (1 n)
  have d: "is_decimal (char_of (48 + k))" "digit_value (char_of (48 + k)) = int k" if "k < 10" for k :: nat
    using that by (simp_all add: is_decimal_def in_range_def digit_value_def)
  have "10 * int (n div 10) + int (n mod 10) = int n" by presburger
  with 1 d [of n] d [of "n mod 10"] show ?case by (subst show_nat.simps) (auto split: if_splits)
qed

lemma strip_decimals:
  assumes "\<forall>c \<in> set s. is_decimal c \<or> c = CHR ''-''"
  shows "strip s = s"
proof -
  have "\<not> is_space c" if "c \<in> set s" for c
    using bspec [OF assms that] by (auto simp: is_decimal_def in_range_def is_space_def)
  then have "dropWhile is_space s = s" "dropWhile is_space (rev s) = rev s"
    by (simp_all add: dropWhile_eq_self_iff) (metis hd_in_set rev_is_Nil_conv set_rev)+
  then show ?thesis by (simp add: strip_def)
qed

lemma decimal_not_sign: "is_decimal c \<Longrightarrow> c \<noteq> CHR ''-'' \<and> c \<noteq> CHR ''+'' \<and> c \<noteq> CHR ''=''"
  by (auto simp: is_decimal_def in_range_def)

lemma show_nat_Cons: "\<exists>c cs. show_nat n = c # cs \<and> is_decimal c"
  using show_nat_decimal [of _ n] show_nat_nonempty [of n] by (cases "show_nat n") auto

lemma parse_show_int [simp]: "parse_int (show_int i) = Some i"
proof -
  have s: "strip (show_int i) = show_int i"
    by (rule strip_decimals) (auto simp: show_int_def dest: show_nat_decimal split: if_splits)
  obtain c cs where c: "show_nat (nat i) = c # cs" "is_decimal c" using show_nat_Cons by blast
  have "digits_val 0 False (c # cs) = Some i" if "0 \<le> i" using digits_show [of False "nat i" "[]"] c that by simp
  moreover have "digits_val 0 False (show_nat (nat (- i))) = Some (- i)" if "i < 0"
    using digits_show [of False "nat (- i)" "[]"] that by simp
  ultimately show ?thesis using c decimal_not_sign [OF c(2)]
    unfolding parse_int_def s by (auto simp: show_int_def simp del: digits_val.simps(2))
qed

lemma show_int_value: "classify specs (show_int i) = Value (show_int i)"
proof (cases "i < 0")
  case True
  obtain c cs where c: "show_nat (nat (- i)) = c # cs" "is_decimal c" using show_nat_Cons by blast
  have d: "\<forall>x \<in> set (c # cs). is_decimal x" using show_nat_decimal c(1) by metis
  then have "takeWhile is_decimal (c # cs) = c # cs" "dropWhile is_decimal (c # cs) = []" by simp_all
  then have "negative_number (CHR ''-'' # c # cs)" by (simp add: negative_number_def)
  moreover have "c \<noteq> CHR ''-''" "c \<noteq> CHR ''h''" using c(2) by (auto simp: is_decimal_def in_range_def)
  ultimately show ?thesis using True c(1) by (simp add: show_int_def classify_def starts_def)
next
  case False
  obtain c cs where "show_nat (nat i) = c # cs" "is_decimal c" using show_nat_Cons by blast
  with False decimal_not_sign show ?thesis by (simp add: show_int_def classify_def)
qed

section \<open>Command lines and namespaces\<close>

definition wf_specs :: "opt_spec list \<Rightarrow> bool" where
  "wf_specs specs \<longleftrightarrow> distinct (map dest specs) \<and>
     list_all (\<lambda>s. starts ''--'' (op_name s) \<and> CHR ''='' \<notin> set (op_name s) \<and> (op_many s \<longrightarrow> op_type s = IntArg)) specs"

text \<open>The values an option can have, and the strings that give them.\<close>

definition fits_option :: "opt_spec \<Rightarrow> pyval \<Rightarrow> bool" where
  "fits_option s v =
     (if op_many s then (\<exists>js. js \<noteq> [] \<and> v = PList (map PInt js))
      else case op_type s of StrArg \<Rightarrow> (\<exists>t. v = PStr t) | IntArg \<Rightarrow> (\<exists>i. v = PInt i))"

fun value_text :: "pyval \<Rightarrow> string" where
  "value_text (PStr t) = t"
| "value_text (PInt i) = show_int i"
| "value_text _ = []"

fun option_args :: "opt_spec \<Rightarrow> pyval \<Rightarrow> string list" where
  "option_args s (PList vs) = op_name s # map value_text vs"
| "option_args s v = [op_name s @ ''='' @ value_text v]"

definition command_line :: "opt_spec list \<Rightarrow> (opt_spec \<Rightarrow> pyval) \<Rightarrow> string list" where
  "command_line specs f = concat (map (\<lambda>s. option_args s (f s)) specs)"

lemma wf_dest_inj: "wf_specs specs \<Longrightarrow> s \<in> set specs \<Longrightarrow> t \<in> set specs \<Longrightarrow> op_name s = op_name t \<Longrightarrow> s = t"
  by (auto simp: wf_specs_def distinct_map dest_def intro: inj_onD)

lemma split_eq_name:
  assumes "CHR ''='' \<notin> set name"
  shows "split_eq name = (name, None)" and "split_eq (name @ CHR ''='' # v) = (name, Some v)"
proof -
  have "takeWhile (\<lambda>c. c \<noteq> CHR ''='') name = name \<and> dropWhile (\<lambda>c. c \<noteq> CHR ''='') name = [] \<and>
      takeWhile (\<lambda>c. c \<noteq> CHR ''='') (name @ CHR ''='' # v) = name \<and>
      dropWhile (\<lambda>c. c \<noteq> CHR ''='') (name @ CHR ''='' # v) = CHR ''='' # v"
    using assms by (induction name) auto
  then show "split_eq name = (name, None)" "split_eq (name @ CHR ''='' # v) = (name, Some v)"
    unfolding split_eq_def by (metis list.case(1), metis list.case(2))
qed

lemma classify_option:
  assumes "wf_specs specs" and "s \<in> set specs"
  shows "classify specs (op_name s) = Opt s None" and "classify specs (op_name s @ CHR ''='' # v) = Opt s (Some v)"
proof -
  have n: "starts ''--'' (op_name s)" "CHR ''='' \<notin> set (op_name s)" using assms by (auto simp: wf_specs_def list_all_iff)
  obtain r where r: "op_name s = CHR ''-'' # CHR ''-'' # r"
    using n(1) by (cases "op_name s"; cases "tl (op_name s)") (auto simp: starts_def)
  note sp = split_eq_name [OF n(2)]
  have f: "find (\<lambda>t. op_name t = op_name s) specs = Some s"
  proof (cases "find (\<lambda>t. op_name t = op_name s) specs")
    case (Some t)
    then have "t \<in> set specs" "op_name t = op_name s" by (auto simp: find_Some_iff)
    with wf_dest_inj [OF assms(1) _ assms(2)] Some show ?thesis by simp
  qed (use assms(2) in \<open>auto simp: find_None_iff\<close>)
  have l: "starts ''--'' (CHR ''-'' # CHR ''-'' # u)" for u by (simp add: starts_def)
  show "classify specs (op_name s) = Opt s None" unfolding classify_def using sp(1) f l r by simp
  show "classify specs (op_name s @ CHR ''='' # v) = Opt s (Some v)" unfolding classify_def using sp(2) f l r by simp
qed

lemma store_fits:
  assumes "fits_option s v" and "op_many s \<longrightarrow> op_type s = IntArg"
  shows "v = PList vs \<Longrightarrow> store s (map value_text vs) ns = Some (dict_set (dest s) v ns)"
    and "\<nexists>vs. v = PList vs \<Longrightarrow> store s [value_text v] ns = Some (dict_set (dest s) v ns)"
proof -
  have ints: "convert_all IntArg (map (value_text \<circ> PInt) js) = Some (map PInt js)" for js
    by (induction js) (simp_all add: convert_def)
  show "store s (map value_text vs) ns = Some (dict_set (dest s) v ns)" if "v = PList vs"
    using assms that ints by (auto simp: fits_option_def store_def split: if_splits arg_type.splits)
  show "store s [value_text v] ns = Some (dict_set (dest s) v ns)" if "\<nexists>vs. v = PList vs"
    using assms that by (auto simp: fits_option_def store_def convert_def split: if_splits arg_type.splits)
qed

lemma takeWhile_values:
  "(case ts of [] \<Rightarrow> True | t # _ \<Rightarrow> \<not> is_value t) \<Longrightarrow> takeWhile is_value (map Value vs @ ts) = map Value vs"
  by (induction vs) (auto split: list.splits)

lemma consume_values:
  assumes "op_many s" and "ws \<noteq> []" and "case ts of [] \<Rightarrow> True | t # _ \<Rightarrow> \<not> is_value t"
  shows "consume (Opt s None # map Value ws @ ts) ns = Option.bind (store s ws ns) (consume ts)"
proof -
  have "map value_of (map Value ws) = ws" by (simp add: comp_def)
  with assms takeWhile_values [OF assms(3), of ws] show ?thesis by (simp add: Let_def del: map_map)
qed

lemma consume_option:
  assumes "wf_specs specs" and "s \<in> set specs" and "fits_option s v" and "case ts of [] \<Rightarrow> True | t # _ \<Rightarrow> \<not> is_value t"
  shows "consume (map (classify specs) (option_args s v) @ ts) ns = consume ts (dict_set (dest s) v ns)"
proof -
  have m: "op_many s \<longrightarrow> op_type s = IntArg" using assms(1,2) by (auto simp: wf_specs_def list_all_iff)
  note c = classify_option [OF assms(1,2)] and st = store_fits [OF assms(3) m]
  show ?thesis
  proof (cases "\<exists>vs. v = PList vs")
    case True
    then obtain vs where v: "v = PList vs" by blast
    then have "op_many s" "vs \<noteq> []" "\<forall>x \<in> set vs. \<exists>i. x = PInt i"
      using assms(3) by (auto simp: fits_option_def split: if_splits arg_type.splits)
    moreover from this(3) have "map (classify specs) (option_args s v) = Opt s None # map Value (map value_text vs)"
      using v c(1) by (auto simp: show_int_value)
    ultimately show ?thesis using v st(1) [OF v] consume_values [OF _ _ assms(4), of s "map value_text vs" ns]
      by (simp del: map_map consume.simps option_args.simps)
  next
    case False
    then have "option_args s v = [op_name s @ CHR ''='' # value_text v]" by (cases v) simp_all
    with c(2) st(2) [OF False] show ?thesis by simp
  qed
qed

lemma option_args_start: "wf_specs specs \<Longrightarrow> s \<in> set specs \<Longrightarrow> \<exists>a as. option_args s v = a # as \<and> \<not> is_value (classify specs a)"
  using classify_option by (cases v) auto

lemma consume_command_line:
  assumes "wf_specs specs" and "set ss \<subseteq> set specs" and "\<forall>s \<in> set ss. fits_option s (f s)"
  shows "consume (map (classify specs) (command_line ss f)) ns = Some (fold (\<lambda>s. dict_set (dest s) (f s)) ss ns)"
  using assms(2,3)
proof (induction ss arbitrary: ns)
  case (Cons s ss)
  have "case map (classify specs) (command_line ss f) of [] \<Rightarrow> True | t # _ \<Rightarrow> \<not> is_value t"
  proof (cases ss)
    case (Cons u us)
    then have "u \<in> set specs" using Cons.prems(1) by simp
    from option_args_start [OF assms(1) this, of "f u"] Cons show ?thesis by (auto simp: command_line_def)
  qed (simp add: command_line_def)
  from consume_option [OF assms(1) _ _ this, of s "f s" ns] Cons show ?case by (simp add: command_line_def)
qed (simp add: command_line_def)

lemma fold_update:
  assumes "distinct (map dest (rs @ ss))"
  shows "fold (\<lambda>s. dict_set (dest s) (f s)) ss (map (\<lambda>s. (dest s, f s)) rs @ map (\<lambda>s. (dest s, d s)) ss)
    = map (\<lambda>s. (dest s, f s)) (rs @ ss)"
  using assms
proof (induction ss arbitrary: rs)
  case (Cons s ss)
  have up: "AList.update k v (xs @ (k, w) # ys) = xs @ (k, v) # ys" if "k \<notin> fst ` set xs" for k v w and xs ys :: "('x \<times> 'y) list"
    using that by (induction xs) auto
  have "dest s \<notin> fst ` set (map (\<lambda>s. (dest s, f s)) rs)" using Cons.prems by force
  from up [OF this] Cons.IH [of "rs @ [s]"] Cons.prems show ?case by simp
qed simp

text \<open>Every namespace has a command line that is parsed to it.\<close>

lemma parse_command_line:
  assumes "wf_specs specs" and "\<forall>s \<in> set specs. fits_option s (f s)"
  shows "parse_args specs (command_line specs f) = Inr (map (\<lambda>s. (dest s, f s)) specs)"
proof -
  have "distinct (map dest specs)" using assms(1) by (simp add: wf_specs_def)
  with fold_update [of "[]" specs f op_default] consume_command_line [OF assms(1) subset_refl assms(2)] show ?thesis
    by (simp add: parse_args_def defaults_def)
qed

lemma parse_nothing [simp]: "parse_args specs [] = Inr (defaults specs)"
  by (simp add: parse_args_def)

text \<open>A refused string is refused wherever it stands.\<close>

lemma consume_refused: "Refused \<in> set ts \<Longrightarrow> consume ts ns = None"
proof (induction ts ns rule: consume.induct)
  case (4 s v ts ns)
  then show ?case by (cases "store s [v] ns") auto
next
  case (5 s ts ns)
  define n where "n = (if op_many s then length (takeWhile is_value ts) else length (takeWhile is_value (take 1 ts)))"
  have "take n ts = takeWhile is_value (if op_many s then ts else take 1 ts)"
    by (cases ts) (auto simp: n_def takeWhile_eq_take [symmetric])
  then have "Refused \<notin> set (take n ts)" by (auto dest: set_takeWhileD)
  moreover have "Refused \<in> set (take n ts @ drop n ts)" using 5 by simp
  ultimately have "Refused \<in> set (drop n ts)" by (simp only: set_append) blast
  with 5 show ?case by (cases "store s (map value_of (take n ts)) ns") (auto simp: n_def [symmetric] Let_def)
qed auto

end
