(* ===== verification/Py_Config.thy ===== *)
theory Py_Config
  imports Py_Argparse
begin

text \<open>
  Configuration files as the scripts read them: a command line names a YAML file, which is parsed
  to a dynamic value whose keys are read where they are needed.
\<close>

section \<open>Configuration values\<close>

text \<open>
  The scripts do not check the types of the values. A run is \<open>None\<close> when it reaches a value of a type
  the pipeline is not modelled for, and otherwise what the script returns or raises.
\<close>

type_synonym 'a typed = "'a pyres option"

definition bind_typed :: "'a typed \<Rightarrow> ('a \<Rightarrow> 'b typed) \<Rightarrow> 'b typed" where
  "bind_typed r f = (case r of None \<Rightarrow> None | Some (Inl e) \<Rightarrow> Some (Inl e) | Some (Inr x) \<Rightarrow> f x)"

lemma bind_typed_simps [simp]:
  "bind_typed None f = None"
  "bind_typed (Some (Inl e)) f = Some (Inl e)"
  "bind_typed (Some (Inr x)) f = f x"
  by (simp_all add: bind_typed_def)

lemma bind_typed_Inr_iff: "bind_typed r f = Some (Inr y) \<longleftrightarrow> (\<exists>x. r = Some (Inr x) \<and> f x = Some (Inr y))"
  by (auto simp: bind_typed_def split: option.splits sum.splits)

lemma bind_typed_res: "bind_typed (Some r) (\<lambda>x. Some (f x)) = Some (bind_res r f)"
  by (cases r) simp_all

fun as_text :: "pyval \<Rightarrow> string option" where
  "as_text (PStr s) = Some s"
| "as_text _ = None"

fun as_integer :: "pyval \<Rightarrow> int option" where
  "as_integer (PInt i) = Some i"
| "as_integer _ = None"

fun as_number :: "pyval \<Rightarrow> real option" where
  "as_number (PInt i) = Some (real_of_int i)"
| "as_number (PFloat x) = Some x"
| "as_number _ = None"

fun as_flag :: "pyval \<Rightarrow> bool option" where
  "as_flag (PBool b) = Some b"
| "as_flag _ = None"

definition view :: "(pyval \<Rightarrow> 'a option) \<Rightarrow> pyval pyres \<Rightarrow> 'a typed" where
  "view as v = (case v of Inl e \<Rightarrow> Some (Inl e) | Inr x \<Rightarrow> map_option Inr (as x))"

abbreviation read_key :: "(pyval \<Rightarrow> 'a option) \<Rightarrow> pyval \<Rightarrow> string \<Rightarrow> 'a typed" where
  "read_key as cfg k \<equiv> view as (py_index cfg k)"

abbreviation read_key_or :: "(pyval \<Rightarrow> 'a option) \<Rightarrow> pyval \<Rightarrow> string \<Rightarrow> pyval \<Rightarrow> 'a typed" where
  "read_key_or as cfg k dflt \<equiv> view as (py_get cfg k dflt)"

section \<open>Command lines with a configuration file\<close>

definition text_option :: "string \<Rightarrow> string \<Rightarrow> opt_spec" where
  "text_option name dflt = \<lparr>op_name = name, op_many = False, op_type = StrArg, op_default = PStr dflt\<rparr>"

text \<open>\<^verbatim>\<open>args.name\<close> of an option that holds text.\<close>

definition arg :: "namespace \<Rightarrow> string \<Rightarrow> string" where
  "arg ns name = (case dict_get ns name of Some (PStr s) \<Rightarrow> s | _ \<Rightarrow> [])"

text \<open>\<open>read_config\<close> opens and parses the file.\<close>

definition open_config :: "(string \<Rightarrow> pyval pyres) \<Rightarrow> opt_spec list \<Rightarrow> string list \<Rightarrow> (namespace \<times> pyval) typed" where
  "open_config read_config specs argv =
     Some (bind_res (parse_args specs argv) (\<lambda>ns. bind_res (read_config (arg ns ''config'')) (\<lambda>cfg. Inr (ns, cfg))))"

lemma open_config_Inr:
  "parse_args specs argv = Inr ns \<Longrightarrow> read_config (arg ns ''config'') = Inr cfg \<Longrightarrow> open_config read_config specs argv = Some (Inr (ns, cfg))"
  by (simp add: open_config_def)

end
