(* ===== verification/BenchScripts.thy ===== *)
theory BenchScripts
  imports Plots Py_Config
begin

text \<open>
  The benchmark scripts with their command lines: \<^verbatim>\<open>python/benchmark/compare.py\<close>, the live benchmark
  \<^verbatim>\<open>benchmarks/run_benchmark.py\<close>, and \<^verbatim>\<open>scripts/generate_benchmark_report.py\<close>, which calls the first of them in its
  own process, so that both parse the same command line. Measurements, the contents of files,
  replies of the server and time stamps are arguments.
\<close>

section \<open>Comparison\<close>

definition compare_parser :: "opt_spec list" where
  "compare_parser = [text_option ''--config'' ''configs/training.yaml'', text_option ''--output-dir'' ''benchmark/results'']"

fun as_integers :: "pyval \<Rightarrow> int list option" where
  "as_integers (PList []) = Some []"
| "as_integers (PList (PInt i # vs)) = map_option ((#) i) (as_integers (PList vs))"
| "as_integers _ = None"

text \<open>
  What a comparison needs: the measurements of the three schedulers for a number of requests (the
  predicted one also depends on the directory of the model) and the state of the surroundings.
\<close>

record bench_env =
  bx_fmt :: "pyval \<Rightarrow> string"
  bx_now :: string
  bx_stamp :: string
  bx_matplotlib :: bool
  bx_fcfs :: "int \<Rightarrow> int \<Rightarrow> measurement"
  bx_oracle :: "int \<Rightarrow> int \<Rightarrow> measurement"
  bx_sjf :: "int \<Rightarrow> string \<Rightarrow> int \<Rightarrow> measurement pyres"
  bx_read_config :: "string \<Rightarrow> pyval pyres"

text \<open>The files of a comparison and the directory they are written to.\<close>

record comparison_files =
  cf_dir :: string
  cf_json :: pyval
  cf_csv :: "string list option"
  cf_markdown :: string
  cf_plots :: "(string \<times> panel list) list"

definition compare_script :: "bench_env \<Rightarrow> string list \<Rightarrow> comparison_files typed" where
  "compare_script X argv =
     bind_typed (open_config (bx_read_config X) compare_parser argv) (\<lambda>(args, cfg).
     bind_typed (Some (compare_args cfg)) (\<lambda>(levels, n, dir).
     bind_typed (view as_integers (Inr levels)) (\<lambda>levels.
     bind_typed (view as_integer (Inr n)) (\<lambda>n.
     bind_typed (view as_text (Inr dir)) (\<lambda>dir.
       let results = run_comparison (bx_fcfs X n) (bx_oracle X n) (bx_sjf X n dir) levels in
     bind_typed (Some (generate_report (bx_fmt X) (bx_now X) results)) (\<lambda>(json, csv, md).
       case generate_plots (bx_matplotlib X) (bx_fmt X) (bx_stamp X) results of
         (plots, Some e) \<Rightarrow> Some (Inl e)
       | (plots, None) \<Rightarrow>
           Some (Inr \<lparr>cf_dir = arg args ''output_dir'', cf_json = json, cf_csv = csv, cf_markdown = md, cf_plots = plots\<rparr>)))))))"

section \<open>The production report\<close>

definition report_parser :: "string \<Rightarrow> opt_spec list" where
  "report_parser repo =
     [\<lparr>op_name = ''--concurrency'', op_many = False, op_type = IntArg, op_default = PInt 8\<rparr>,
      \<lparr>op_name = ''--requests'', op_many = False, op_type = IntArg, op_default = PInt 50\<rparr>,
      text_option ''--output'' (repo @ ''/docs/reports'')]"

text \<open>
  \<open>old\<close> are the comparison files already in \<^verbatim>\<open>python/benchmark/results\<close>, in the order of their names, and \<open>here\<close> says
  whether a directory is that one. The number of requests and the concurrency are not used.
\<close>

definition report_script ::
  "bench_env \<Rightarrow> string \<Rightarrow> (string \<Rightarrow> bool) \<Rightarrow> pyval list \<Rightarrow> string list \<Rightarrow> (string \<times> pyval \<times> string) typed" where
  "report_script X repo here old argv =
     bind_typed (Some (parse_args (report_parser repo) argv)) (\<lambda>args.
     bind_typed (compare_script X argv) (\<lambda>files.
       let comparisons = old @ (if here (cf_dir files) then [cf_json files] else [])
       in if comparisons = [] then Some (Inl IndexError)
          else Some (bind_res (to_markdown (bx_fmt X) (last comparisons)) (\<lambda>md.
                 Inr (arg args ''output'', last comparisons, md)))))"

section \<open>The live benchmark\<close>

definition live_parser :: "opt_spec list" where
  "live_parser =
     [text_option ''--base-url'' ''http://localhost:8000'', text_option ''--model'' ''HuggingFaceTB/SmolLM3-3B'',
      \<lparr>op_name = ''--concurrency'', op_many = True, op_type = IntArg, op_default = PList (map PInt [1, 8, 32])\<rparr>,
      \<lparr>op_name = ''--requests'', op_many = False, op_type = IntArg, op_default = PInt 50\<rparr>,
      \<lparr>op_name = ''--max-tokens'', op_many = False, op_type = IntArg, op_default = PInt 100\<rparr>,
      text_option ''--output-dir'' ''benchmarks/results'']"

definition arg_int :: "namespace \<Rightarrow> string \<Rightarrow> int" where
  "arg_int ns name = (case dict_get ns name of Some (PInt i) \<Rightarrow> i | _ \<Rightarrow> 0)"

definition arg_ints :: "namespace \<Rightarrow> string \<Rightarrow> int list" where
  "arg_ints ns name = (case Option.bind (dict_get ns name) as_integers of Some js \<Rightarrow> js | None \<Rightarrow> [])"

text \<open>
  \<open>post url model max_tokens c i prompt\<close> is what the server answers to request \<open>i\<close> at concurrency \<open>c\<close>. The run is \<open>None\<close>
  when it waits forever; otherwise the directory, the JSON value and the Markdown text.
\<close>

definition live_script ::
  "(pyval \<Rightarrow> string) \<Rightarrow> string \<Rightarrow> (string \<Rightarrow> string \<Rightarrow> int \<Rightarrow> int \<Rightarrow> nat \<Rightarrow> string \<Rightarrow> (int \<times> pyval) pyres) \<Rightarrow> (int \<Rightarrow> nat \<Rightarrow> real) \<Rightarrow>
   (int \<Rightarrow> real) \<Rightarrow> string list \<Rightarrow> (string \<times> pyval \<times> string) pyres option" where
  "live_script fmt now post ms elapsed argv =
     (case parse_args live_parser argv of
        Inl e \<Rightarrow> Some (Inl e)
      | Inr args \<Rightarrow>
          map_option (\<lambda>res. bind_res res (\<lambda>(json, md). Inr (arg args ''output_dir'', json, md)))
            (live_main fmt now
              (\<lambda>c. live_level (post (arg args ''base_url'') (arg args ''model'') (arg_int args ''max_tokens'') c) (ms c) (elapsed c)
                     (arg_int args ''requests'') (arg_int args ''max_tokens'') c)
              (arg_ints args ''concurrency'')))"

section \<open>Facts\<close>

lemma wf_bench_parsers: "wf_specs compare_parser" "wf_specs live_parser" "wf_specs (report_parser repo)"
proof -
  show "wf_specs (report_parser repo)"
    by (simp add: wf_specs_def report_parser_def text_option_def dest_def starts_def)
qed code_simp+

lemma parse_refused: "t \<in> set argv \<Longrightarrow> classify specs t = Refused \<Longrightarrow> parse_args specs argv = Inl SystemExit"
  unfolding parse_args_def by (subst consume_refused) (force simp: image_iff)+

lemma parse_error: "parse_args specs argv = Inl e \<Longrightarrow> e = SystemExit"
  by (auto simp: parse_args_def split: option.splits)

lemma parse_text_option:
  assumes "classify specs name = Opt s None" and "classify specs v = Value v" and "\<not> op_many s" and "op_type s = StrArg"
  shows "parse_args specs [name, v] = Inr (dict_set (dest s) (PStr v) (defaults specs))"
  using assms by (simp add: parse_args_def Let_def store_def convert_def)

lemma compare_json: "compare_script X argv = Some (Inr files) \<Longrightarrow> \<exists>vs. cf_json files = PList vs"
  by (auto simp: compare_script_def bind_typed_Inr_iff Let_def generate_report_def bind_res_Inr_iff
      prod.case_eq_if split: option.split_asm)

section \<open>Properties\<close>


definition sample_bench_env :: bench_env where
  "sample_bench_env = \<lparr>bx_fmt = (\<lambda>_. ''0''), bx_now = ''now'', bx_stamp = ''t'', bx_matplotlib = True, bx_fcfs = (\<lambda>n c. ([], 1)),
     bx_oracle = (\<lambda>n c. ([], 1)), bx_sjf = (\<lambda>n dir c. Inl (OtherError ''FileNotFoundError'')), bx_read_config = (\<lambda>path. Inr (PDict []))\<rparr>"


text \<open>
  The comparison script succeeds on every configuration it can read: it writes the report on three
  rows per level to the directory of its command line, with the figures when matplotlib is
  installed. An empty configuration gives the six default levels.
\<close>

theorem compare_script_outcome:
  assumes "parse_args compare_parser argv = Inr args" and "bx_read_config X (arg args ''config'') = Inr cfg"
    and "compare_args cfg = Inr (PList (map PInt levels), PInt n, PStr dir)"
  shows "\<exists>files. compare_script X argv = Some (Inr files) \<and> cf_dir files = arg args ''output_dir'' \<and>
    cf_json files = PList (map PDict (run_comparison (bx_fcfs X n) (bx_oracle X n) (bx_sjf X n dir) levels)) \<and>
    length (cf_plots files) = (if bx_matplotlib X then 2 else 0)"
    and "compare_args (PDict []) = Inr (PList (map PInt [1, 2, 4, 8, 16, 32]), PInt 20, PStr ''shared/models'')"
proof -
  let ?rs = "run_comparison (bx_fcfs X n) (bx_oracle X n) (bx_sjf X n dir) levels"
  have ints: "as_integers (PList (map PInt js)) = Some js" for js by (induction js) simp_all
  have "\<forall>r \<in> set ?rs. map fst r = result_keys" using comparison_keys by blast
  from generate_report_total [OF this, of "bx_fmt X" "bx_now X"] obtain csv md where
    g: "generate_report (bx_fmt X) (bx_now X) ?rs = Inr (PList (map PDict ?rs), csv, md)" by blast
  obtain figs where p: "generate_plots (bx_matplotlib X) (bx_fmt X) (bx_stamp X) ?rs = (figs, None)"
    "length figs = (if bx_matplotlib X then 2 else 0)"
    by (cases "bx_matplotlib X") (simp_all add: plots_of_comparison Let_def, simp add: generate_plots_def)
  show "\<exists>files. compare_script X argv = Some (Inr files) \<and> cf_dir files = arg args ''output_dir'' \<and>
    cf_json files = PList (map PDict ?rs) \<and> length (cf_plots files) = (if bx_matplotlib X then 2 else 0)"
    unfolding compare_script_def open_config_Inr [of _ _ _ "bx_read_config X", OF assms(1,2)]
    using g p by (simp add: assms(3) view_def ints Let_def)
qed (simp add: compare_args_def)

text \<open>
  The live benchmark from its command line: with positive numbers of requests and concurrency it ends
  with a report in the directory of the command line; with a concurrency of 0 it never ends.
\<close>

theorem live_script_outcome:
  assumes "parse_args live_parser argv = Inr args" and "\<And>url m t c i p reply. post url m t c i p = Inr reply \<Longrightarrow> integer_tokens reply"
    and "0 < arg_int args ''requests''" and "\<And>c. elapsed c \<noteq> 0"
  shows "\<forall>c \<in> set (arg_ints args ''concurrency''). 0 < c \<Longrightarrow>
      \<exists>json md. live_script fmt now post ms elapsed argv = Some (Inr (arg args ''output_dir'', json, md))"
    and "arg_ints args ''concurrency'' = cs @ 0 # later \<Longrightarrow> \<forall>c \<in> set cs. 0 < c \<Longrightarrow> live_script fmt now post ms elapsed argv = None"
proof -
  let ?post = "\<lambda>c. post (arg args ''base_url'') (arg args ''model'') (arg_int args ''max_tokens'') c"
  have tokens: "integer_tokens reply" if "?post c i p = Inr reply" for c i p reply using assms(2) that .
  let ?level = "\<lambda>c. live_level (?post c) (ms c) (elapsed c) (arg_int args ''requests'') (arg_int args ''max_tokens'') c"
  have ends: "(\<exists>json md. live_main fmt now ?level cs = Some (Inr (json, md))) \<and> live_main fmt now ?level (cs @ 0 # later) = None"
    if "\<forall>c \<in> set cs. 0 < c" for cs
    using live_benchmark_ends [where post = ?post and ms = ms and fmt = fmt and now = now and elapsed = elapsed
        and max_tokens = "arg_int args ''max_tokens''" and later = later, OF _ assms(3,4) that] tokens by blast
  show "\<exists>json md. live_script fmt now post ms elapsed argv = Some (Inr (arg args ''output_dir'', json, md))"
    if "\<forall>c \<in> set (arg_ints args ''concurrency''). 0 < c"
    using ends [OF that] assms(1) by (auto simp: live_script_def)
  show "live_script fmt now post ms elapsed argv = None"
    if "arg_ints args ''concurrency'' = cs @ 0 # later" "\<forall>c \<in> set cs. 0 < c"
    using ends [OF that(2)] assms(1) that(1) by (simp add: live_script_def)
qed

lemma live_script_defaults:
  "parse_args live_parser [] = Inr [(''base_url'', PStr ''http://localhost:8000''), (''model'', PStr ''HuggingFaceTB/SmolLM3-3B''),
     (''concurrency'', PList (map PInt [1, 8, 32])), (''requests'', PInt 50), (''max_tokens'', PInt 100),
     (''output_dir'', PStr ''benchmarks/results'')]"
  "parse_args live_parser [''--conc'', ''4'', ''0'', ''--max=7''] = Inr [(''base_url'', PStr ''http://localhost:8000''),
     (''model'', PStr ''HuggingFaceTB/SmolLM3-3B''), (''concurrency'', PList (map PInt [4, 0])), (''requests'', PInt 50),
     (''max_tokens'', PInt 7), (''output_dir'', PStr ''benchmarks/results'')]"
  "parse_args live_parser [''--m'', ''x''] = Inl SystemExit"
  by code_simp+

end
