(* ===== verification/Comparison.thy ===== *)
theory Comparison
  imports BenchSim BenchScripts
begin

text \<open>
  The simulated benchmarks from end to end: the runners of \<^verbatim>\<open>python/benchmark/fcfs.py\<close> and \<^verbatim>\<open>sjf.py\<close> with their
  schedulers, the simulation with its end, and the comparison of \<^verbatim>\<open>compare.py\<close> over what the runs measure.
\<close>

section \<open>Runs\<close>

text \<open>The three runners; the predicted one has loaded its predictor.\<close>

datatype bench_kind = FcfsBench | OracleBench | SjfBench predictor

text \<open>What the workers of a run draw and measure.\<close>

record draws =
  dr_rid :: "nat \<Rightarrow> string"
  dr_now :: "nat \<Rightarrow> real"
  dr_tokens :: "nat \<Rightarrow> int"
  dr_infer :: "nat \<Rightarrow> real \<times> real"
  dr_clocks :: "nat \<Rightarrow> clocks"
  dr_wait_ms :: "nat \<Rightarrow> real"

fun bench_scheduler :: "bench_kind \<Rightarrow> any_scheduler pyres" where
  "bench_scheduler FcfsBench = Inr (AnyFcfs fcfs_init)"
| "bench_scheduler OracleBench = Inr (AnyOracle oracle_init)"
| "bench_scheduler (SjfBench p) =
     bind_res (mk_sjf p None (PBool True) (PFloat (1 / 2)) 3 (PFloat 300)) (\<lambda>s. Inr (AnySjf (sjf_start s)))"

fun bench_workers :: "bench_kind \<Rightarrow> draws \<Rightarrow> nat \<Rightarrow> (scheduled_request \<times> real \<times> real) pyres" where
  "bench_workers FcfsBench d = fcfs_workers (dr_rid d) (dr_now d) (dr_tokens d)"
| "bench_workers OracleBench d = sjf_workers None True (dr_infer d) (dr_rid d) (dr_now d) (dr_tokens d)"
| "bench_workers (SjfBench p) d = sjf_workers (Some p) False (dr_infer d) (dr_rid d) (dr_now d) (dr_tokens d)"

fun bench_schedule_ms :: "bench_kind \<Rightarrow> real" where
  "bench_schedule_ms FcfsBench = 0"
| "bench_schedule_ms _ = 1 / 10"

definition bench_setup :: "bench_kind \<Rightarrow> int \<Rightarrow> draws \<Rightarrow> bench_params" where
  "bench_setup kind c d =
     \<lparr>bp_request = bench_workers kind d, bp_clocks = dr_clocks d, bp_wait_ms = dr_wait_ms d,
      bp_schedule_ms = bench_schedule_ms kind, bp_concurrency = c\<rparr>"

text \<open>The end of \<^verbatim>\<open>simulate_sjf\<close>: the aging task is stopped, which re-raises its exception if it has failed.\<close>

fun bench_stop :: "any_scheduler \<Rightarrow> pyexn option" where
  "bench_stop (AnySjf s) = fst (sjf_stop s)"
| "bench_stop _ = None"

text \<open>
  What a run of a simulation with \<open>n\<close> requests at concurrency \<open>c\<close> can return or raise; \<open>elapsed\<close> is the
  measured time. A run that waits forever returns nothing.
\<close>

inductive measured :: "bench_kind \<Rightarrow> int \<Rightarrow> nat \<Rightarrow> draws \<Rightarrow> measurement pyres \<Rightarrow> bool" for kind c n d where
  no_scheduler: "measured kind c n d (Inl e)" if "bench_scheduler kind = Inl e"
| no_semaphore: "measured kind c n d (Inl e)" if "bench_scheduler kind = Inr sc" and "mk_semaphore c = Inl e"
| worker_fails: "measured kind c n d (Inl e)"
    if "bench_scheduler kind = Inr sc" and "mk_semaphore c = Inr v"
      and "sim_reach (bench_setup kind c d) (sim_init v n (st, sc)) k s" and "bn_error s = Some e"
| stop_fails: "measured kind c n d (Inl e)"
    if "bench_scheduler kind = Inr sc" and "mk_semaphore c = Inr v"
      and "sim_reach (bench_setup kind c d) (sim_init v n (st, sc)) k s" and "bn_error s = None" and "sim_done s"
      and "bench_stop (snd (bn_world s)) = Some e"
| returns: "measured kind c n d (Inr (bn_metrics s, elapsed))"
    if "bench_scheduler kind = Inr sc" and "mk_semaphore c = Inr v"
      and "sim_reach (bench_setup kind c d) (sim_init v n (st, sc)) k s" and "bn_error s = None" and "sim_done s"
      and "bench_stop (snd (bn_world s)) = None"

inductive_cases measuredE: "measured kind c n d r"

text \<open>The reference: the row of a run, computed from what its workers drew and measured, in the order of the workers.\<close>

fun bench_name :: "bench_kind \<Rightarrow> string" where
  "bench_name FcfsBench = ''fcfs''"
| "bench_name OracleBench = ''oracle_sjf''"
| "bench_name (SjfBench p) = ''sjf''"

definition expected_row :: "bench_kind \<Rightarrow> int \<Rightarrow> nat \<Rightarrow> draws \<Rightarrow> real \<Rightarrow> (string, pyval) dict" where
  "expected_row kind c n d elapsed =
     result_dict (aggregate_metrics (bench_name kind) c (map (own_metric (bench_setup kind c d)) [0..<n]) elapsed)"

section \<open>Facts\<close>

lemma aggregate_metrics_mset:
  assumes "mset xs = mset ys"
  shows "aggregate_metrics name c xs elapsed = aggregate_metrics name c ys elapsed"
proof -
  have f: "mset (filter rm_success xs) = mset (filter rm_success ys)" using assms by (metis mset_filter)
  have p: "percentile (map f xs) p = percentile (map f ys) p" for f :: "request_metric \<Rightarrow> real" and p
  proof -
    have "sort (map f xs) = sort (map f ys)" "xs = [] \<longleftrightarrow> ys = []"
      using assms by (auto intro!: properties_for_sort simp: mset_map)
    then show ?thesis by (simp add: percentile_def)
  qed
  have "sum_list (map rm_tokens (filter rm_success xs)) = sum_list (map rm_tokens (filter rm_success ys))"
    using f by (metis mset_map sum_mset_sum_list)
  then show ?thesis
    using p mset_eq_length [OF assms] mset_eq_length [OF f] by (simp add: aggregate_metrics_def Let_def)
qed

text \<open>The scheduler of a run: its queues are empty at the start and its aging task cannot fail.\<close>

fun aging_safe :: "any_scheduler \<Rightarrow> bool" where
  "aging_safe (AnySjf s) \<longleftrightarrow> sjf_aging_task s = Running \<and> sjf_aging s = LinearAging default_aging_config \<and>
     sjf_timeout s = PFloat 300 \<and> sjf_aging_interval s = PFloat (1 / 2)"
| "aging_safe _ \<longleftrightarrow> True"

lemma bench_scheduler_ready: "\<exists>sc. bench_scheduler kind = Inr sc \<and> idle sc \<and> aging_safe sc"
  by (cases kind) (auto simp: fcfs_init_def oracle_init_def mk_sjf_def sjf_start_def create_aging_def default_aging_config_def
      empty_queue_def pq_init_def base_init_def base_state.defs fcfs.defs oracle_sched.defs sjf.defs Let_def)

lemma age_one_safe:
  "aging_safe (AnySjf s) \<Longrightarrow> age_one now rid r (st, s) = (e, st', s') \<Longrightarrow> e = None \<and> aging_safe (AnySjf s')"
  by (auto simp: age_one_def linear_boost_def default_aging_config_def sjf_cancel_def Let_def split: if_splits prod.splits)

lemma age_all_safe:
  "aging_safe (AnySjf s) \<Longrightarrow> age_all now ps (st, s) = (e, st', s') \<Longrightarrow> e = None \<and> aging_safe (AnySjf s')"
proof (induction ps arbitrary: st s)
  case (Cons p ps)
  obtain rid r where p: "p = (rid, r)" by force
  obtain e1 st1 s1 where 1: "age_one now rid r (st, s) = (e1, st1, s1)" by (metis surj_pair)
  note one = age_one_safe [OF Cons.prems(1) 1]
  then have "age_all now ps (st1, s1) = (e, st', s')" using Cons.prems(2) p 1 by simp
  from Cons.IH [OF _ this] one show ?case by blast
qed simp

lemma any_tick_safe: "aging_safe (snd w) \<Longrightarrow> aging_safe (snd (any_tick now w))"
proof -
  assume a: "aging_safe (snd w)"
  obtain st sc where w: "w = (st, sc)" by force
  show ?thesis
  proof (cases sc)
    case (AnySjf s)
    obtain e st1 s1 where "age_all now (sjf_pending s) (st, s) = (e, st1, s1)" by (metis surj_pair)
    with age_all_safe [OF _ this] a w AnySjf show ?thesis by (simp add: aging_tick_def)
  qed (use a w in auto)
qed

lemma sjf_ops_safe:
  "aging_safe (AnySjf (snd (sjf_predict ck req s))) = aging_safe (AnySjf s)"
  "aging_safe (AnySjf (snd (sjf_submit ck r (st, s)))) = aging_safe (AnySjf s)"
  "aging_safe (AnySjf (snd (snd (sjf_acquire ck (st, s))))) = aging_safe (AnySjf s)"
proof -
  show predict: "aging_safe (AnySjf (snd (sjf_predict ck req s))) = aging_safe (AnySjf s)" for req
    by (auto simp: sjf_predict_def record_timing_def split: sum.split)
  show "aging_safe (AnySjf (snd (sjf_submit ck r (st, s)))) = aging_safe (AnySjf s)"
    using predict [of "st r"] by (auto simp: sjf_submit_def Let_def split: prod.splits bool.splits option.splits)
  show "aging_safe (AnySjf (snd (snd (sjf_acquire ck (st, s))))) = aging_safe (AnySjf s)"
    by (auto simp: sjf_acquire_def split: prod.splits bool.splits option.splits)
qed

lemma any_ops_safe:
  "aging_safe (snd w) \<Longrightarrow> aging_safe (snd (any_submit ck r w))"
  "aging_safe (snd w) \<Longrightarrow> aging_safe (snd (snd (any_acquire ck w)))"
  "aging_safe sc \<Longrightarrow> aging_safe (any_complete k b sc)"
proof -
  show "aging_safe (snd w) \<Longrightarrow> aging_safe (snd (any_submit ck r w))"
    by (cases "(ck, r, w)" rule: any_submit.cases) (auto simp del: aging_safe.simps(1) simp: sjf_ops_safe split_beta)
  show "aging_safe (snd w) \<Longrightarrow> aging_safe (snd (snd (any_acquire ck w)))"
    by (cases "(ck, w)" rule: any_acquire.cases) (auto simp del: aging_safe.simps(1) simp: sjf_ops_safe split_beta)
  show "aging_safe sc \<Longrightarrow> aging_safe (any_complete k b sc)"
    by (cases sc) (auto simp: sjf_complete_def count_completion_def)
qed

lemma sim_reach_safe:
  assumes "sim_reach P (sim_init v n (st, sc)) k s" and "aging_safe sc"
  shows "aging_safe (snd (bn_world s))"
  using assms(1)
proof (induction rule: sim_reach.induct)
  case init
  with assms(2) show ?case by (simp add: sim_init_def)
next
  case (work k s s')
  from work.hyps(2) work.IH show ?case
  proof (cases rule: sim_work.cases)
    case (start i rest)
    have "aging_safe (snd (snd (any_acquire ck (any_submit ck' i (st', snd (bn_world s))))))" for ck ck' st'
      using work.IH by (intro any_ops_safe) simp
    then show ?thesis
      using start work.IH by (auto simp: worker_start_def Let_def split: sum.split prod.split acq.split) (metis snd_conv)+
  next
    case (finish v)
    with work.IH any_ops_safe(3) show ?thesis by (simp add: worker_finish_def Let_def)
  qed
next
  case (tick k s now)
  then show ?case using any_tick_safe by simp
qed

text \<open>What a run returns when its workers can build their requests.\<close>

lemma measured_ready:
  assumes "measured kind c n d r" and "0 \<le> c" and "workers_ready (bench_setup kind c d) n"
  shows "\<exists>m. r = Inr m \<and> mset (fst m) = mset (map (own_metric (bench_setup kind c d)) [0..<n])"
proof -
  obtain sc where sc: "bench_scheduler kind = Inr sc" "idle sc" "aging_safe sc" using bench_scheduler_ready by blast
  have v: "mk_semaphore c = Inr (nat c)" using assms(2) by (simp add: mk_semaphore_def)
  have inv: "bn_error s = None \<and> bench_stop (snd (bn_world s)) = None \<and>
      (sim_done s \<longrightarrow> mset (bn_metrics s) = mset (map (own_metric (bench_setup kind c d)) [0..<n]))"
    if r: "sim_reach (bench_setup kind c d) (sim_init (nat c) n (st, sc)) k s" for st k s
  proof -
    obtain m where i: "sim_inv (bench_setup kind c d) n (nat c) (any_finished True (st, sc)) m k s"
      using sim_reach_inv [OF r assms(3) sc(2)] by blast
    have "\<not> k < 2 * n" if "sim_done s" using i that by (auto simp: sim_inv_def sim_done_def)
    moreover have "bench_stop (snd (bn_world s)) = None"
      using sim_reach_safe [OF r sc(3)] by (cases "snd (bn_world s)") (auto simp: sjf_stop_def)
    ultimately show ?thesis using simulation_final [OF r assms(3) sc(2)] i by (auto simp: sim_inv_def)
  qed
  from assms(1) sc(1) v show ?thesis by (elim measuredE) (auto dest!: inv)
qed

text \<open>The figures of a run that do not depend on the scheduler: they are computed from lengths, waiting times and elapsed time.\<close>

lemma ready_draws:
  assumes "workers_ready (bench_setup kind c d) n" and "i < n"
  shows "drawn_tokens (bench_setup kind c d) i = dr_tokens d i"
  using assms
  by (cases kind) (auto simp: workers_ready_def drawn_tokens_def bench_setup_def fcfs_workers_def sjf_workers_def sjf_worker_request_def
      worker_request_def bind_res_def split: sum.splits)

lemma expected_row_blind:
  assumes "workers_ready (bench_setup kind c d) n" and "workers_ready (bench_setup kind' c d) n"
    and "key \<notin> {''scheduler'', ''feature_p50_ms'', ''predict_p50_ms'', ''schedule_p50_ms''}"
  shows "dict_get (expected_row kind c n d elapsed) key = dict_get (expected_row kind' c n d elapsed) key"
proof -
  let ?xs = "map (own_metric (bench_setup kind c d)) [0..<n]" and ?ys = "map (own_metric (bench_setup kind' c d)) [0..<n]"
  have col: "map f ?xs = map f ?ys" if "f \<in> {rm_e2e_ms, rm_queue_wait_ms}" for f
    using that ready_draws [OF assms(1)] ready_draws [OF assms(2)] by (auto simp: own_metric_def bench_setup_def)
  have tok: "map rm_tokens ?xs = map rm_tokens ?ys"
    using ready_draws [OF assms(1)] ready_draws [OF assms(2)] by (auto simp: own_metric_def)
  have all: "filter rm_success (map (own_metric P) ks) = map (own_metric P) ks" for P ks by (induction ks) (simp_all add: own_metric_def)
  show ?thesis
    using assms(3) col [of rm_e2e_ms] col [of rm_queue_wait_ms] tok
    by (simp add: expected_row_def aggregate_metrics_def Let_def result_dict_def all del: map_map)
qed

lemma measured_exists:
  assumes "0 < c" and "workers_ready (bench_setup kind c d) n"
  shows "\<exists>m. measured kind c n d (Inr m)"
proof -
  obtain sc where sc: "bench_scheduler kind = Inr sc" "idle sc" "aging_safe sc" using bench_scheduler_ready by blast
  have v: "mk_semaphore c = Inr (nat c)" using assms(1) by (simp add: mk_semaphore_def)
  obtain s where s: "sim_reach (bench_setup kind c d) (sim_init (nat c) n (\<lambda>r. sample_request [] 0, sc)) (2 * n) s"
    using simulation_reaches [OF assms(2) sc(2), of "nat c" "2 * n"] assms(1) by auto
  have "bench_stop (snd (bn_world s)) = None"
    using sim_reach_safe [OF s sc(3)] by (cases "snd (bn_world s)") (auto simp: sjf_stop_def)
  with simulation_final [OF s assms(2) sc(2)] show ?thesis using returns [OF sc(1) v s] by blast
qed

text \<open>The workers of the three runs; the prompts of the benchmark are the ones the predictor has to handle.\<close>

definition bench_ready :: "predictor \<Rightarrow> bool" where
  "bench_ready p \<longleftrightarrow> op_config p = default_model_config \<and> (\<forall>prompt \<in> set PROMPTS. \<forall>t0 t1. \<exists>r. predict p t0 t1 prompt = Inr r)"

lemma bench_workers_ready:
  assumes "bench_ready p" and "\<forall>i < n. 20 \<le> dr_tokens d i"
  shows "workers_ready (bench_setup FcfsBench c d) n" "workers_ready (bench_setup OracleBench c d) n"
    "workers_ready (bench_setup (SjfBench p) c d) n"
proof -
  have "worker_prompt i \<in> set PROMPTS" for i unfolding worker_prompt_def by (rule nth_mem) (simp add: PROMPTS_def)
  then have "\<exists>r. predict p t0 t1 (worker_prompt i) = Inr r" for t0 t1 i
    using assms(1) by (simp add: bench_ready_def)
  with assms benchmark_workers_ready [of n "dr_tokens d"] show "workers_ready (bench_setup FcfsBench c d) n"
    "workers_ready (bench_setup OracleBench c d) n" "workers_ready (bench_setup (SjfBench p) c d) n"
    by (simp_all add: bench_setup_def bench_ready_def)
qed

section \<open>Property\<close>

text \<open>
  C29: the comparison cannot tell the schedulers apart. Let the three benchmarks be run at every
  level of a comparison, with the drawn lengths of at least 20 tokens and a predictor that handles the
  eight prompts. Whatever the interleaving of workers and aging, the runs of the predicted
  scheduler return as well, and each row of the comparison is computed from what the workers of
  its run drew and measured themselves, as if they had run one after the other. For the same
  draws and the same elapsed time the rows of the three schedulers differ in nothing but the name
  and the latencies of prediction and scheduling. And runs that return exist at every positive level.
\<close>

theorem comparison_is_scheduler_blind:
  assumes "bench_ready p"
    and "\<forall>c \<in> set levels. 0 \<le> c \<and> measured FcfsBench c n (d1 c) (Inr (fc c)) \<and> measured OracleBench c n (d2 c) (Inr (orc c)) \<and>
      measured (SjfBench p) c n (d3 c) (sj c)"
    and "\<forall>c \<in> set levels. \<forall>i < n. 20 \<le> dr_tokens (d1 c) i \<and> 20 \<le> dr_tokens (d2 c) i \<and> 20 \<le> dr_tokens (d3 c) i"
  shows "(\<exists>es. (\<forall>c \<in> set levels. \<exists>ms. sj c = Inr (ms, es c)) \<and>
      run_comparison fc orc sj levels = concat (map (\<lambda>c.
        [expected_row FcfsBench c n (d1 c) (snd (fc c)), expected_row OracleBench c n (d2 c) (snd (orc c)),
         expected_row (SjfBench p) c n (d3 c) (es c)]) levels)) \<and>
    (\<forall>d c kind. (\<forall>i < n. 20 \<le> dr_tokens d i) \<and> kind \<in> {FcfsBench, OracleBench, SjfBench p} \<longrightarrow>
      (\<forall>e key. key \<notin> {''scheduler'', ''feature_p50_ms'', ''predict_p50_ms'', ''schedule_p50_ms''} \<longrightarrow>
         dict_get (expected_row kind c n d e) key = dict_get (expected_row FcfsBench c n d e) key) \<and>
      (0 < c \<longrightarrow> (\<exists>m. measured kind c n d (Inr m))))"
proof (intro conjI allI impI)
  define es where "es c = snd (projr (sj c))" for c
  have row: "\<exists>m. r = Inr m \<and> result_dict (aggregate_metrics (bench_name kind) c (fst m) (snd m)) = expected_row kind c n d (snd m)"
    if "measured kind c n d r" "0 \<le> c" "workers_ready (bench_setup kind c d) n" for kind c d r
    using measured_ready [OF that] by (auto simp: expected_row_def intro!: arg_cong [where f = result_dict] aggregate_metrics_mset)
  have lev: "compare_level fc orc sj c = [expected_row FcfsBench c n (d1 c) (snd (fc c)), expected_row OracleBench c n (d2 c) (snd (orc c)),
      expected_row (SjfBench p) c n (d3 c) (es c)] \<and> (\<exists>ms. sj c = Inr (ms, es c))" if "c \<in> set levels" for c
  proof -
    from that assms(2) have c: "0 \<le> c" "measured FcfsBench c n (d1 c) (Inr (fc c))" "measured OracleBench c n (d2 c) (Inr (orc c))"
      "measured (SjfBench p) c n (d3 c) (sj c)" by auto
    have ready: "workers_ready (bench_setup FcfsBench c (d1 c)) n" "workers_ready (bench_setup OracleBench c (d2 c)) n"
      "workers_ready (bench_setup (SjfBench p) c (d3 c)) n"
      using that assms(3) by (simp_all add: bench_workers_ready [OF assms(1)])
    from row [OF c(2,1) ready(1)] row [OF c(3,1) ready(2)] row [OF c(4,1) ready(3)] show ?thesis
      by (auto simp: compare_level_def Let_def run_fcfs_benchmark_def run_oracle_benchmark_def run_sjf_benchmark_def es_def)
  qed
  then have "run_comparison fc orc sj levels = concat (map (\<lambda>c.
        [expected_row FcfsBench c n (d1 c) (snd (fc c)), expected_row OracleBench c n (d2 c) (snd (orc c)),
         expected_row (SjfBench p) c n (d3 c) (es c)]) levels)"
    unfolding run_comparison_def by (intro arg_cong [where f = concat] map_cong) auto
  with lev show "\<exists>es. (\<forall>c \<in> set levels. \<exists>ms. sj c = Inr (ms, es c)) \<and>
      run_comparison fc orc sj levels = concat (map (\<lambda>c.
        [expected_row FcfsBench c n (d1 c) (snd (fc c)), expected_row OracleBench c n (d2 c) (snd (orc c)),
         expected_row (SjfBench p) c n (d3 c) (es c)]) levels)" by blast
next
  fix d :: draws and c kind
  assume "(\<forall>i < n. 20 \<le> dr_tokens d i) \<and> kind \<in> {FcfsBench, OracleBench, SjfBench p}"
  then have r: "workers_ready (bench_setup kind c d) n" "workers_ready (bench_setup FcfsBench c d) n"
    using bench_workers_ready [OF assms(1)] by auto
  show "dict_get (expected_row kind c n d e) key = dict_get (expected_row FcfsBench c n d e) key"
    if "key \<notin> {''scheduler'', ''feature_p50_ms'', ''predict_p50_ms'', ''schedule_p50_ms''}" for e key
    by (rule expected_row_blind [OF r that])
  show "\<exists>m. measured kind c n d (Inr m)" if "0 < c" by (rule measured_exists [OF that r(1)])
qed

text \<open>Three requests at concurrency 2.\<close>

definition sample_draws :: draws where
  "sample_draws = \<lparr>dr_rid = (\<lambda>i. replicate i CHR ''x''), dr_now = real, dr_tokens = (\<lambda>i. 20 + int i), dr_infer = (\<lambda>i. (0, 1)),
     dr_clocks = (\<lambda>i. some_clocks), dr_wait_ms = real\<rparr>"

theorem comparison_is_scheduler_blind_witness:
  "\<exists>f g s es. measured FcfsBench 2 3 sample_draws (Inr f) \<and> measured OracleBench 2 3 sample_draws (Inr g) \<and>
     measured (SjfBench (sample_predictor 3)) 2 3 sample_draws (Inr s) \<and>
     run_comparison (\<lambda>_. f) (\<lambda>_. g) (\<lambda>_. Inr s) [2] =
       [expected_row FcfsBench 2 3 sample_draws (snd f), expected_row OracleBench 2 3 sample_draws (snd g),
        expected_row (SjfBench (sample_predictor 3)) 2 3 sample_draws es]"
proof -
  have p: "bench_ready (sample_predictor 3)"
    unfolding bench_ready_def using sample_tensor [of 3] by (simp add: predict_Inr_iff) (auto simp: sample_predictor_def)
  have d: "\<forall>i < 3. 20 \<le> dr_tokens sample_draws i" by (simp add: sample_draws_def)
  note ready = bench_workers_ready [OF p d, of 2]
  obtain f g s where m: "measured FcfsBench 2 3 sample_draws (Inr f)" "measured OracleBench 2 3 sample_draws (Inr g)"
    "measured (SjfBench (sample_predictor 3)) 2 3 sample_draws (Inr s)"
    using ready [THEN measured_exists [rotated]] by auto
  obtain es where "run_comparison (\<lambda>_. f) (\<lambda>_. g) (\<lambda>_. Inr s) [2] =
       [expected_row FcfsBench 2 3 sample_draws (snd f), expected_row OracleBench 2 3 sample_draws (snd g),
        expected_row (SjfBench (sample_predictor 3)) 2 3 sample_draws (es 2)]"
    using comparison_is_scheduler_blind [OF p, of "[2]" 3 "\<lambda>_. sample_draws" "\<lambda>_. f" "\<lambda>_. sample_draws" "\<lambda>_. g" "\<lambda>_. sample_draws"
      "\<lambda>_. Inr s"] m d by auto
  with m show ?thesis by blast
qed

end
