(* ===== verification/EvaluationReport.thy ===== *)
theory EvaluationReport
  imports Plots
begin

text \<open>
  The evaluation report, \<^verbatim>\<open>python/evaluation/generate_report.py\<close>, from the files it reads to the three
  files it writes. The parsed files, the time stamp and the optional packages (\<^verbatim>\<open>markdown\<close>,
  \<^verbatim>\<open>weasyprint\<close>, \<^verbatim>\<open>fpdf\<close>) are arguments; \<open>dash\<close> and \<open>r2\<close> stand for the em dash of the title and for the
  label of the coefficient of determination, which are not ASCII.
\<close>

section \<open>The text\<close>

definition architecture_line :: string where
  "architecture_line =
     ''The system implements ML-based Shortest-Job-First scheduling via a gateway proxy '' @
     ''that predicts output token length, prioritizes requests in a priority queue, and '' @
     ''forwards to vLLM with aging to prevent starvation.''"

definition report_preamble :: "char \<Rightarrow> string \<Rightarrow> string list" where
  "report_preamble dash ts =
     [''# vLLM Intelligent SJF Scheduler '' @ [dash] @ '' Evaluation Report'',
      CHR 0x0A # ''**Generated:** '' @ ts @ [CHR 0x0A],
      ''## 1. Architecture'', architecture_line @ [CHR 0x0A],
      ''## 2. Methodology'',
      ''- Feature extraction: 40 numerical prompt features'',
      ''- Model: 2-layer MLP with Huber loss'',
      ''- Schedulers compared: FCFS, Oracle SJF, Predicted SJF'',
      ''- Simulation-based benchmark with configurable concurrency'' @ [CHR 0x0A],
      ''## 3. Model Metrics'']"

definition report_closing :: "string list" where
  "report_closing =
     [CHR 0x0A # ''## 5. Discussion'',
      ''Predicted SJF reduces tail latency compared to FCFS by prioritizing '' @
      ''short-output requests. Oracle SJF represents the theoretical upper bound.'',
      CHR 0x0A # ''## 6. Limitations'',
      ''- Prediction accuracy depends on training data distribution'',
      ''- Gateway adds minimal scheduling overhead'',
      ''- Live vLLM continuous batching interacts with SJF ordering'',
      CHR 0x0A # ''## 7. Future Work'',
      ''- Online learning from observed output lengths'',
      ''- Integration with vLLM internal scheduler'',
      ''- Multi-GPU aware scheduling'']"

definition or_na :: "(pyval \<Rightarrow> string) \<Rightarrow> (string, pyval) dict \<Rightarrow> string \<Rightarrow> string" where
  "or_na fmt d k = (case dict_get d k of None \<Rightarrow> ''N/A'' | Some v \<Rightarrow> py_str fmt v)"

text \<open>
  The lines of sections 3 and 4, which depend on the data.
\<close>

definition metric_lines :: "(pyval \<Rightarrow> string) \<Rightarrow> string \<Rightarrow> (string, pyval) dict \<Rightarrow> string list" where
  "metric_lines fmt r2 eval_data =
     (if eval_data = [] then []
      else [''- MAE: '' @ or_na fmt eval_data ''mae'', ''- RMSE: '' @ or_na fmt eval_data ''rmse'',
            ''- '' @ r2 @ '': '' @ or_na fmt eval_data ''r2'', ''- Pearson: '' @ or_na fmt eval_data ''pearson'',
            ''- Spearman: '' @ or_na fmt eval_data ''spearman''])"

definition model_lines :: "(pyval \<Rightarrow> string) \<Rightarrow> (string, pyval) dict \<Rightarrow> string list" where
  "model_lines fmt meta =
     (if meta = [] then []
      else [CHR 0x0A # ''**Model version:** '' @ or_na fmt meta ''model_version'',
            ''**Training date:** '' @ or_na fmt meta ''training_date'', ''**Git SHA:** '' @ or_na fmt meta ''git_sha''])"

definition eval_row :: "(pyval \<Rightarrow> string) \<Rightarrow> (string, pyval) dict \<Rightarrow> string pyres" where
  "eval_row fmt r =
     bind_res (map_res (field fmt r) [''scheduler'', ''concurrency'', ''e2e_p50_ms'', ''e2e_p99_ms'', ''throughput_rps'']) (\<lambda>vs.
       let q = (case dict_get r ''queue_wait_p99_ms'' of None \<Rightarrow> PInt 0 | Some v \<Rightarrow> v)
       in Inr (''| '' @ join_with '' | '' (vs @ [py_str fmt q]) @ '' |''))"

text \<open>
  Parsed JSON may be any value: \<^verbatim>\<open>.get\<close> exists on dictionaries only, and the rows are indexed by
  strings; a falsy value is left out.
\<close>

definition section_dict :: "pyval \<Rightarrow> (string, pyval) dict pyres" where
  "section_dict v = (if \<not> truthy v then Inr [] else case v of PDict d \<Rightarrow> Inr d | _ \<Rightarrow> Inl AttributeError)"

definition row_of :: "(pyval \<Rightarrow> string) \<Rightarrow> pyval \<Rightarrow> string pyres" where
  "row_of fmt v = (case v of PDict r \<Rightarrow> eval_row fmt r | _ \<Rightarrow> Inl TypeError)"

definition bench_section :: "(pyval \<Rightarrow> string) \<Rightarrow> pyval \<Rightarrow> string list pyres" where
  "bench_section fmt v =
     (if \<not> truthy v then Inr [''*No benchmark data available.*'']
      else bind_res (py_iter v) (\<lambda>vs. bind_res (map_res (row_of fmt) vs) (\<lambda>rows.
        Inr ([''| Scheduler | Concurrency | p50 (ms) | p99 (ms) | RPS | Queue p99 |'',
              ''|-----------|-------------|----------|----------|-----|-----------|''] @ rows))))"

definition build_report ::
  "(pyval \<Rightarrow> string) \<Rightarrow> char \<Rightarrow> string \<Rightarrow> string \<Rightarrow> pyval \<Rightarrow> pyval \<Rightarrow> pyval \<Rightarrow> string pyres" where
  "build_report fmt dash r2 ts bench eval_data meta =
     bind_res (section_dict eval_data) (\<lambda>e.
     bind_res (section_dict meta) (\<lambda>m.
     bind_res (bench_section fmt bench) (\<lambda>bl.
       Inr (join_with [CHR 0x0A] (report_preamble dash ts @ metric_lines fmt r2 e @ model_lines fmt m @
         [CHR 0x0A # ''## 4. Benchmark Results'', []] @ bl @ report_closing)))))"

section \<open>The files\<close>

text \<open>\<^verbatim>\<open>_markdown_to_html\<close> without the \<^verbatim>\<open>markdown\<close> package: the body of the page.\<close>

definition fallback_body :: "string \<Rightarrow> string" where
  "fallback_body md = ''<pre>'' @ py_replace ''<'' ''&lt;'' md @ ''</pre>''"

definition html_frame :: "string \<Rightarrow> string" where
  "html_frame body =
     ''<!DOCTYPE html>'' @ [CHR 0x0A] @
     ''<html><head><meta charset=\"utf-8\"><title>Evaluation Report</title>'' @ [CHR 0x0A] @
     ''<style>body{font-family:sans-serif;max-width:900px;margin:2em auto;padding:0 1em}'' @ [CHR 0x0A] @
     ''table{border-collapse:collapse;width:100%}th,td{border:1px solid #ddd;padding:8px}</style>'' @ [CHR 0x0A] @
     ''</head><body>'' @ body @ ''</body></html>''"

text \<open>\<open>mdlib\<close> is the \<^verbatim>\<open>markdown\<close> package, \<open>None\<close> when it is not installed.\<close>

definition markdown_to_html :: "(string \<Rightarrow> string) option \<Rightarrow> string \<Rightarrow> string" where
  "markdown_to_html mdlib md = html_frame (case mdlib of Some f \<Rightarrow> f md | None \<Rightarrow> fallback_body md)"

fun split_nl :: "string \<Rightarrow> string list" where
  "split_nl [] = [[]]"
| "split_nl (c # cs) = (if c = CHR 0x0A then [] # split_nl cs else (c # hd (split_nl cs)) # tl (split_nl cs))"

text \<open>
  \<^verbatim>\<open>_simple_pdf_fallback\<close>: \<open>fpdf\<close> makes a document of the lines or raises; without the package a
  placeholder is written.
\<close>

definition simple_pdf_fallback :: "(string list \<Rightarrow> string pyres) option \<Rightarrow> string \<Rightarrow> string pyres" where
  "simple_pdf_fallback fpdf md =
     (case fpdf of
        Some f \<Rightarrow> f (map (take 200) (split_nl md))
      | None \<Rightarrow> Inr (''% PDF-1.4'' @ [CHR 0x0A] @ ''% Minimal placeholder'' @ [CHR 0x0A]))"

text \<open>
  What the program finds: the comparison files by name, the two files of the model directory, and
  the packages. Parsing a file may raise.
\<close>

record report_inputs =
  ri_comparisons :: "(string \<times> pyval pyres) list"
  ri_evaluation :: "pyval pyres option"
  ri_metadata :: "pyval pyres option"
  ri_mdlib :: "(string \<Rightarrow> string) option"
  ri_weasyprint :: "(string \<Rightarrow> string pyres) option"
  ri_fpdf :: "(string list \<Rightarrow> string pyres) option"

definition latest_comparison :: "report_inputs \<Rightarrow> pyval pyres" where
  "latest_comparison i =
     (let bench_files = sort_key fst (ri_comparisons i) in if bench_files = [] then Inr (PList []) else snd (last bench_files))"

definition optional_file :: "pyval pyres option \<Rightarrow> pyval pyres" where
  "optional_file f = (case f of None \<Rightarrow> Inr (PDict []) | Some r \<Rightarrow> r)"

text \<open>\<^verbatim>\<open>generate_reports\<close>: the files written, by name, and the exception if one is raised.\<close>

definition generate_reports ::
  "(pyval \<Rightarrow> string) \<Rightarrow> char \<Rightarrow> string \<Rightarrow> string \<Rightarrow> report_inputs \<Rightarrow> (string, string) dict \<times> pyexn option" where
  "generate_reports fmt dash r2 ts i =
     (case bind_res (latest_comparison i) (\<lambda>bench.
           bind_res (optional_file (ri_evaluation i)) (\<lambda>ev.
           bind_res (optional_file (ri_metadata i)) (\<lambda>meta. build_report fmt dash r2 ts bench ev meta))) of
        Inl e \<Rightarrow> ([], Some e)
      | Inr md \<Rightarrow>
          (let html = markdown_to_html (ri_mdlib i) md;
               written = [(''evaluation_report.md'', md), (''evaluation_report.html'', html)]
           in case (case ri_weasyprint i of Some write_pdf \<Rightarrow> write_pdf html | None \<Rightarrow> simple_pdf_fallback (ri_fpdf i) md) of
                Inl e \<Rightarrow> (written, Some e)
              | Inr pdf \<Rightarrow> (written @ [(''evaluation_report.pdf'', pdf)], None)))"

section \<open>Facts\<close>

lemma last_sort_key:
  assumes "\<forall>y \<in> set xs. f y \<le> f x"
  shows "last (sort_key f (xs @ [x])) = x" "sort_key f (xs @ [x]) \<noteq> []"
proof -
  have "insort_key f a (ys @ [x]) = insort_key f a ys @ [x]" if "f a \<le> f x" for a ys using that by (induction ys) auto
  with assms have "sort_key f (xs @ [x]) = sort_key f xs @ [x]" by (induction xs) auto
  then show "last (sort_key f (xs @ [x])) = x" "sort_key f (xs @ [x]) \<noteq> []" by simp_all
qed

lemma eval_rows_total:
  "\<exists>rows. map_res (eval_row fmt) (run_comparison fc orc sj levels) = Inr rows \<and> length rows = 3 * length levels"
proof -
  have "\<exists>y. eval_row fmt r = Inr y" if r: "r \<in> set (run_comparison fc orc sj levels)" for r
  proof -
    have "set [''scheduler'', ''concurrency'', ''e2e_p50_ms'', ''e2e_p99_ms'', ''throughput_rps''] \<subseteq> dict_keys r"
      using comparison_column [OF _ r] by (simp add: result_dict_def)
    from fields_present [OF this, of fmt] show ?thesis unfolding eval_row_def by (elim exE conjE) (simp add: Let_def)
  qed
  then show ?thesis using map_res_total [of "run_comparison fc orc sj levels" "eval_row fmt"] comparison_length by metis
qed

lemma map_res_row_of: "map_res (row_of fmt) (map PDict rs) = map_res (eval_row fmt) rs"
  by (induction rs) (simp_all add: row_of_def)

lemma replaced_lt: "CHR ''<'' \<notin> set (py_replace ''<'' ''&lt;'' s)"
proof (induction s)
  case Nil
  show ?case by (subst py_replace.simps) simp
next
  case (Cons c s)
  then show ?case by (subst py_replace.simps) auto
qed

lemma split_nl_append: "CHR 0x0A \<notin> set xs \<Longrightarrow> split_nl (xs @ CHR 0x0A # ys) = xs # split_nl ys"
  by (induction xs) auto

lemma cut_title:
  assumes "dash \<noteq> CHR 0x0A"
  shows "\<exists>l \<in> set (map (take 200) (split_nl (join_with [CHR 0x0A] (report_preamble dash ts @ ls)))). dash \<in> set l"
proof -
  let ?t = "''# vLLM Intelligent SJF Scheduler '' @ [dash] @ '' Evaluation Report''"
  have "\<exists>rest. join_with [CHR 0x0A] (report_preamble dash ts @ ls) = ?t @ CHR 0x0A # rest"
    unfolding report_preamble_def by simp
  then obtain rest where "join_with [CHR 0x0A] (report_preamble dash ts @ ls) = ?t @ CHR 0x0A # rest" ..
  moreover have "CHR 0x0A \<notin> set ?t" using assms by simp
  ultimately have "split_nl (join_with [CHR 0x0A] (report_preamble dash ts @ ls)) = ?t # split_nl rest"
    using split_nl_append by metis
  then show ?thesis by simp
qed

lemma pdf_fallback_raises:
  assumes "dash \<noteq> CHR 0x0A" and "\<forall>ls. (\<exists>l \<in> set ls. dash \<in> set l) \<longrightarrow> (\<exists>e. f ls = Inl e)"
  shows "\<exists>e. simple_pdf_fallback (Some f) (join_with [CHR 0x0A] (report_preamble dash ts @ ls)) = Inl e"
  using assms(2) cut_title [OF assms(1)] unfolding simple_pdf_fallback_def option.case by blast

section \<open>Properties\<close>

text \<open>
  C39: the evaluation report. If the latest file, by name, is a comparison and the other two
  files hold dictionaries or are missing, the Markdown and the HTML file are always written, with
  one table row per row of the comparison. Without the \<^verbatim>\<open>markdown\<close> package the text in the page is free
  of markup. Without \<^verbatim>\<open>weasyprint\<close> and \<^verbatim>\<open>fpdf\<close> a placeholder is written and nothing raises. With \<^verbatim>\<open>fpdf\<close>,
  whose built-in fonts reject text with a character outside Latin-1, the report always raises and no
  PDF is written, because the title has an em dash; and the line on the architecture would be cut.
\<close>

theorem evaluation_report_outcome:
  assumes "ri_comparisons i = old @ [(name, Inr (PList (map PDict (run_comparison fc orc sj levels))))]"
    and "\<forall>f \<in> set old. fst f \<le> name"
    and "optional_file (ri_evaluation i) = Inr (PDict ev)" and "optional_file (ri_metadata i) = Inr (PDict meta)"
  shows "\<exists>rows md. map_res (eval_row fmt) (run_comparison fc orc sj levels) = Inr rows \<and> length rows = 3 * length levels \<and>
    md = join_with [CHR 0x0A] (report_preamble dash ts @ metric_lines fmt r2 ev @ model_lines fmt meta @
      [CHR 0x0A # ''## 4. Benchmark Results'', []] @
      (if levels = [] then [''*No benchmark data available.*'']
       else [''| Scheduler | Concurrency | p50 (ms) | p99 (ms) | RPS | Queue p99 |'',
             ''|-----------|-------------|----------|----------|-----|-----------|''] @ rows) @ report_closing) \<and>
    take 2 (fst (generate_reports fmt dash r2 ts i)) =
      [(''evaluation_report.md'', md), (''evaluation_report.html'', markdown_to_html (ri_mdlib i) md)] \<and>
    (ri_mdlib i = None \<longrightarrow> (\<exists>body. markdown_to_html (ri_mdlib i) md = html_frame (''<pre>'' @ body @ ''</pre>'') \<and> CHR ''<'' \<notin> set body)) \<and>
    (ri_weasyprint i = None \<longrightarrow>
      (case ri_fpdf i of
         None \<Rightarrow> length (fst (generate_reports fmt dash r2 ts i)) = 3 \<and> snd (generate_reports fmt dash r2 ts i) = None
       | Some f \<Rightarrow> dash \<noteq> CHR 0x0A \<and> (\<forall>ls. (\<exists>l \<in> set ls. dash \<in> set l) \<longrightarrow> (\<exists>e. f ls = Inl e)) \<longrightarrow>
           length (fst (generate_reports fmt dash r2 ts i)) = 2 \<and> snd (generate_reports fmt dash r2 ts i) \<noteq> None)) \<and>
    take 200 architecture_line \<noteq> architecture_line"
proof -
  let ?rs = "run_comparison fc orc sj levels"
  obtain rows where rows: "map_res (eval_row fmt) ?rs = Inr rows" "length rows = 3 * length levels" using eval_rows_total by blast
  have latest: "latest_comparison i = Inr (PList (map PDict ?rs))"
    using last_sort_key [of old fst "(name, Inr (PList (map PDict ?rs)))"] assms(1,2) by (simp add: latest_comparison_def Let_def)
  have empty: "?rs = [] \<longleftrightarrow> levels = []" using comparison_length [of fc orc sj levels] by auto
  define bl where "bl = (if levels = [] then [''*No benchmark data available.*'']
       else [''| Scheduler | Concurrency | p50 (ms) | p99 (ms) | RPS | Queue p99 |'',
             ''|-----------|-------------|----------|----------|-----|-----------|''] @ rows)"
  define md where "md = join_with [CHR 0x0A] (report_preamble dash ts @ metric_lines fmt r2 ev @ model_lines fmt meta @
      [CHR 0x0A # ''## 4. Benchmark Results'', []] @ bl @ report_closing)"
  have sec: "section_dict (PDict d) = Inr d" for d by (simp add: section_dict_def)
  have "bench_section fmt (PList (map PDict ?rs)) = Inr bl"
    using rows(1) empty by (simp add: bench_section_def bl_def map_res_row_of)
  then have b: "build_report fmt dash r2 ts (PList (map PDict ?rs)) (PDict ev) (PDict meta) = Inr md"
    by (simp add: build_report_def sec md_def)
  let ?pdf = "case ri_weasyprint i of Some write_pdf \<Rightarrow> write_pdf (markdown_to_html (ri_mdlib i) md) | None \<Rightarrow> simple_pdf_fallback (ri_fpdf i) md"
  let ?files = "[(''evaluation_report.md'', md), (''evaluation_report.html'', markdown_to_html (ri_mdlib i) md)]"
  have g: "generate_reports fmt dash r2 ts i =
      (case ?pdf of Inl e \<Rightarrow> (?files, Some e) | Inr pdf \<Rightarrow> (?files @ [(''evaluation_report.pdf'', pdf)], None))"
    using b latest assms(3,4) by (simp add: generate_reports_def Let_def)
  have two: "take 2 (fst (generate_reports fmt dash r2 ts i)) = ?files" by (simp add: g split: sum.splits)
  have page: "ri_mdlib i = None \<longrightarrow> (\<exists>body. markdown_to_html (ri_mdlib i) md = html_frame (''<pre>'' @ body @ ''</pre>'') \<and> CHR ''<'' \<notin> set body)"
    using replaced_lt [of md] by (auto simp: markdown_to_html_def fallback_body_def)
  have pdf: "ri_weasyprint i = None \<longrightarrow>
      (case ri_fpdf i of
         None \<Rightarrow> length (fst (generate_reports fmt dash r2 ts i)) = 3 \<and> snd (generate_reports fmt dash r2 ts i) = None
       | Some f \<Rightarrow> dash \<noteq> CHR 0x0A \<and> (\<forall>ls. (\<exists>l \<in> set ls. dash \<in> set l) \<longrightarrow> (\<exists>e. f ls = Inl e)) \<longrightarrow>
           length (fst (generate_reports fmt dash r2 ts i)) = 2 \<and> snd (generate_reports fmt dash r2 ts i) \<noteq> None)"
  proof (cases "ri_fpdf i")
    case (Some f)
    with pdf_fallback_raises [of dash f ts, where ls = "metric_lines fmt r2 ev @ model_lines fmt meta @
      [CHR 0x0A # ''## 4. Benchmark Results'', []] @ bl @ report_closing", folded md_def] show ?thesis by (auto simp: g)
  qed (simp add: g simple_pdf_fallback_def)
  have cut: "take 200 architecture_line \<noteq> architecture_line" by code_simp
  show ?thesis by (intro exI conjI) (rule rows md_def [unfolded bl_def] two page pdf cut)+
qed


text \<open>One comparison of one level, no other file, and the \<^verbatim>\<open>fpdf\<close> package.\<close>

definition sample_inputs :: report_inputs where
  "sample_inputs =
     \<lparr>ri_comparisons = [(''comparison_1.json'', Inr (PList [])),
        (''comparison_2.json'', Inr (PList (map PDict (run_comparison (\<lambda>c. ([], 1)) (\<lambda>c. ([], 1)) (\<lambda>c. Inr ([], 1)) [4]))))],
      ri_evaluation = None, ri_metadata = None, ri_mdlib = None, ri_weasyprint = None,
      ri_fpdf = Some (\<lambda>ls. if list_ex (\<lambda>l. CHR 0x97 \<in> set l) ls then Inl (OtherError ''UnicodeEncodeError'') else Inr [])\<rparr>"

theorem evaluation_report_outcome_witness:
  "length (fst (generate_reports (\<lambda>_. []) CHR 0x97 ''R2'' ''now'' sample_inputs)) = 2 \<and>
   snd (generate_reports (\<lambda>_. []) CHR 0x97 ''R2'' ''now'' sample_inputs) \<noteq> None"
proof -
  have c: "ri_comparisons sample_inputs = [(''comparison_1.json'', Inr (PList []))] @
      [(''comparison_2.json'', Inr (PList (map PDict (run_comparison (\<lambda>c. ([], 1)) (\<lambda>c. ([], 1)) (\<lambda>c. Inr ([], 1)) [4]))))]"
    by (simp add: sample_inputs_def)
  have le: "\<forall>f \<in> set [(''comparison_1.json'', Inr (PList []) :: pyval pyres)]. fst f \<le> ''comparison_2.json''" by code_simp
  have o: "optional_file (ri_evaluation sample_inputs) = Inr (PDict [])" "optional_file (ri_metadata sample_inputs) = Inr (PDict [])"
    by (simp_all add: sample_inputs_def optional_file_def)
  show ?thesis
    using evaluation_report_outcome [OF c le o, of "\<lambda>_. []" "CHR 0x97" "''now''" "''R2''"]
    by (auto simp: sample_inputs_def list_ex_iff)
qed

end
