(* ===== verification/FeatureExtractor.thy ===== *)
theory FeatureExtractor
  imports Py_Text Predictor
begin

text \<open>
  The feature extractor of \<^verbatim>\<open>python/predictor/feature_extractor.py\<close>: the patterns, the forty
  feature values and their ranges. The optional spaCy and sentence-transformer models are
  arguments; both are off by default.
\<close>

section \<open>Patterns\<close>

definition WORD_RE :: rx where
  "WORD_RE = SeqL [WordB, Plus (Cls is_word), WordB]"

definition SENTENCE_RE :: rx where
  "SENTENCE_RE = Plus (Cls (\<lambda>c. c \<in> set ''.!?''))"

definition URL_RE :: rx where
  "URL_RE = Alt (SeqL [LitI ''http'', Alt (LitI ''s'') Eps, Lit ''://'', Plus (Cls (\<lambda>c. \<not> is_space c))])
                (SeqL [LitI ''www.'', Plus (Cls (\<lambda>c. \<not> is_space c))])"

definition CODE_FENCE_RE :: rx where
  "CODE_FENCE_RE = Lit ''```''"

definition PYTHON_RE :: rx where
  "PYTHON_RE = Seq WordB (AltL (map LitI [''def '', ''class '', ''import '', ''from '', ''print('', ''if __name__'', ''lambda '']))"

definition SQL_RE :: rx where
  "SQL_RE = SeqL [WordB, AltL (map LitI [''SELECT'', ''INSERT'', ''UPDATE'', ''DELETE'', ''FROM'', ''WHERE'', ''JOIN'']), WordB]"

definition quote_cls :: rx where
  "quote_cls = Cls (\<lambda>c. c = CHR 0x22 \<or> c = CHR 0x27)"

definition JSON_RE :: rx where
  "JSON_RE = SeqL [Cls (\<lambda>c. c \<in> set ''[{''), Star (Cls (\<lambda>_. True)), quote_cls, Star Space, Ch CHR '':'', Star Space, quote_cls]"

definition ascii_letter :: "char \<Rightarrow> bool" where
  "ascii_letter c \<longleftrightarrow> in_range 65 90 c \<or> in_range 97 122 c"

definition XML_RE :: rx where
  "XML_RE = Alt (Lit ''<?xml'') (SeqL [Ch CHR ''<'', Cls ascii_letter, Star (Cls (\<lambda>c. c \<noteq> CHR ''>'')), Ch CHR ''>''])"

definition YAML_RE :: rx where
  "YAML_RE = SeqL [LineStart, Star (Cls (\<lambda>c. is_space c \<or> c = CHR ''-'')), Cls (\<lambda>c. ascii_letter c \<or> c = CHR ''_''),
     Star (Cls (\<lambda>c. is_word c \<or> c = CHR ''-'')), Star Space, Ch CHR '':'']"

fun upto_rx :: "nat \<Rightarrow> rx \<Rightarrow> rx" where
  "upto_rx 0 r = Eps"
| "upto_rx (Suc n) r = Alt (Seq r (upto_rx n r)) Eps"

abbreviation Dot :: rx where
  "Dot \<equiv> Cls (\<lambda>c. c \<noteq> CHR 0x0A)"

definition MARKDOWN_RE :: rx where
  "MARKDOWN_RE = AltL
     [SeqL [LineStart, Ch CHR ''#'', upto_rx 5 (Ch CHR ''#''), Space],
      SeqL [LineStart, Ch CHR ''*'', Space], SeqL [LineStart, Ch CHR ''-'', Space], Lit ''**'', Lit ''__'',
      SeqL [Ch CHR ''['', Plus Dot, Lit '']('', Plus Dot, Ch CHR '')'']]"

definition role_re :: "string \<Rightarrow> rx" where
  "role_re role = SeqL [WordB, LitI role, Star Space, Ch CHR '':'']"

definition NER_RE :: rx where
  "NER_RE = (let w = Seq (Cls (in_range 65 90)) (Plus (Cls (in_range 97 122)))
             in SeqL [WordB, w, Plus (Seq (Plus Space) w), WordB])"

definition STOPWORDS :: "string list" where
  "STOPWORDS = split_ws ''a an the and or but if in on at to for of is are was were be been being it this that with as by from not''"

definition LANG_HINTS :: "(string \<times> rx) list" where
  "LANG_HINTS = map (\<lambda>(k, ws). (k, SeqL [WordB, AltL (map LitI ws), WordB]))
     [(''en'', [''the'', ''and'', ''is'', ''are'', ''you'', ''your'']),
      (''es'', [''el'', ''la'', ''los'', ''las'', ''que'', ''de'', ''en'']),
      (''fr'', [''le'', ''la'', ''les'', ''de'', ''et'', ''est'', ''une'', ''un'']),
      (''de'', [''der'', ''die'', ''das'', ''und'', ''ist'', ''ein'', ''eine''])]"

section \<open>Scores\<close>

definition shannon_entropy :: "string \<Rightarrow> real" where
  "shannon_entropy text =
     (if text = [] then 0
      else - sum_list (map (\<lambda>c. let p = real (count_list text c) / real (length text) in p * log 2 p)
             (remdups text)))"

text \<open>\<^verbatim>\<open>max(scores, key=...)\<close>: the first language with the largest score.\<close>

fun best_lang :: "(string \<times> nat) list \<Rightarrow> string \<times> nat \<Rightarrow> string \<times> nat" where
  "best_lang [] b = b"
| "best_lang (x # xs) b = best_lang xs (if snd b < snd x then x else b)"

definition detect_language :: "string \<Rightarrow> string" where
  "detect_language text =
     (let scores = map (\<lambda>(lang, r). (lang, length (rx_spans r text 0))) LANG_HINTS;
          best = best_lang (tl scores) (hd scores)
      in if snd best > 0 then fst best else ''en'')"

definition lang_to_float :: "string \<Rightarrow> real" where
  "lang_to_float c =
     (if c = ''en'' then 0 else if c = ''es'' then 1 / 4 else if c = ''fr'' then 1 / 2 else if c = ''de'' then 3 / 4 else 1)"

definition reasoning_score :: "string \<Rightarrow> nat \<Rightarrow> nat \<Rightarrow> real" where
  "reasoning_score text q_marks word_count =
     (let kw = split_ws ''why how explain reason analyze compare evaluate prove step think'';
          hits = length (filter (\<lambda>w. w \<in> set kw) (rx_findall WORD_RE (lower text)));
          base = real hits / real (max word_count 1) * 10
      in min 1 (base + real q_marks * (1 / 10)))"

definition coding_probability :: "string \<Rightarrow> real" where
  "coding_probability text =
     (let signals = length (filter id
            [rx_search CODE_FENCE_RE text, rx_search PYTHON_RE text, rx_search SQL_RE text,
             has_infix ''function'' (lower text), has_infix ''class '' (lower text), has_infix ''import '' (lower text)])
      in min 1 (real signals / 3))"

section \<open>Extraction\<close>

text \<open>
  \<open>fx_ner\<close> and \<open>fx_embed\<close>: \<open>None\<close> when the feature is off, \<open>Some None\<close> when its model cannot be
  loaded, otherwise the model (number of entities, norm of the embedding).
\<close>

record feature_extractor =
  fx_ner :: "(string \<Rightarrow> nat) option option"
  fx_embed :: "(string \<Rightarrow> real) option option"

definition default_extractor :: feature_extractor where
  "default_extractor = \<lparr>fx_ner = None, fx_embed = None\<rparr>"

definition named_entity_count :: "(string \<Rightarrow> nat) option \<Rightarrow> string \<Rightarrow> real" where
  "named_entity_count ner text =
     (case ner of
        None \<Rightarrow> real (length (rx_spans NER_RE text 0))
      | Some f \<Rightarrow> real (f (take 512 text)))"

definition embedding_norm :: "(string \<Rightarrow> real) option \<Rightarrow> string \<Rightarrow> real" where
  "embedding_norm emb text =
     (case emb of
        None \<Rightarrow> sqrt (real (length text)) / 100
      | Some f \<Rightarrow> f (take 256 text))"

definition bool_float :: "bool \<Rightarrow> real" where
  "bool_float b = (if b then 1 else 0)"

definition count_chars :: "(char \<Rightarrow> bool) \<Rightarrow> string \<Rightarrow> nat" where
  "count_chars P text = length (filter P text)"

definition conversation_turns :: "string \<Rightarrow> nat" where
  "conversation_turns text =
     (let turns = count_sub ''user:'' text + count_sub ''assistant:'' text + count_sub ''system:'' text
      in if turns = 0 \<and> CHR 0x0A \<in> set text then count_sub [CHR 0x0A, CHR 0x0A] text + 1 else turns)"

definition feature_values :: "feature_extractor \<Rightarrow> string \<Rightarrow> real list" where
  "feature_values fx text =
     (let chars = length text;
          words = rx_findall WORD_RE text;
          word_count = length words;
          tokens = split_ws text;
          token_count = (if tokens \<noteq> [] then length tokens else max 1 word_count);
          vocab_size = length (remdups (map lower words));
          unique_ratio = (if word_count \<noteq> 0 then real vocab_size / real word_count else 0);
          total_chars = max chars 1;
          entropy = shannon_entropy text;
          info_density = (if vocab_size > 1 then entropy / log 2 (real (max vocab_size 2)) else 0);
          sentence_count = max 1 (length (filter strip_nonempty (rx_split SENTENCE_RE text)));
          avg_sentence_len = real word_count / real sentence_count;
          stopwords = length (filter (\<lambda>w. lower w \<in> set STOPWORDS) words);
          stopword_ratio = (if word_count \<noteq> 0 then real stopwords / real word_count else 0);
          q_marks = count_chars (\<lambda>c. c = CHR ''?'') text;
          ner = (case fx_ner fx of None \<Rightarrow> 0 | Some n \<Rightarrow> named_entity_count n text);
          emb = (case fx_embed fx of None \<Rightarrow> 0 | Some e \<Rightarrow> embedding_norm e text)
      in [real token_count, real chars, real word_count, real chars / real token_count,
          (if word_count \<noteq> 0 then real chars / real word_count else 0), real vocab_size, unique_ratio, entropy, info_density,
          real (count_chars is_punct text), real q_marks, real (count_chars (\<lambda>c. c = CHR ''!'') text),
          real (count_chars (\<lambda>c. c = CHR ''.'') text), real (count_chars (\<lambda>c. c = CHR '','') text),
          real (count_chars is_digit text), real (count_chars is_upper text) / real total_chars,
          real (count_chars is_lower text) / real total_chars, real (count_chars is_space text) / real total_chars,
          bool_float (rx_search MARKDOWN_RE text), bool_float (rx_search CODE_FENCE_RE text),
          bool_float (rx_search PYTHON_RE text), bool_float (rx_search SQL_RE text), bool_float (rx_search JSON_RE text),
          bool_float (rx_search XML_RE text), bool_float (rx_search YAML_RE text),
          real (length (rx_spans URL_RE text 0)), real (count_chars (\<lambda>c. c = CHR 0x0A) text),
          real (max (conversation_turns text) 1), bool_float (rx_search (role_re ''system'') text),
          bool_float (rx_search (role_re ''assistant'') text), bool_float (rx_search (role_re ''user'') text),
          lang_to_float (detect_language text), real (count_chars (\<lambda>c. code c > 127) text) / real total_chars,
          reasoning_score text q_marks word_count, coding_probability text, stopword_ratio,
          real sentence_count, avg_sentence_len, ner, emb])"

definition extract_features :: "feature_extractor \<Rightarrow> string \<Rightarrow> feature_vector pyres" where
  "extract_features fx text =
     (let values = feature_values fx text
      in if length values = NUM_FEATURES then mk_feature_vector values else Inl AssertionError)"

text \<open>\<open>t0\<close> and \<open>t1\<close> are the readings of \<^verbatim>\<open>time.perf_counter()\<close>; a missing prompt counts as empty.\<close>

definition extract_prompt :: "feature_extractor \<Rightarrow> real \<Rightarrow> real \<Rightarrow> string option \<Rightarrow> extraction_result pyres" where
  "extract_prompt fx t0 t1 prompt =
     (let text = (case prompt of None \<Rightarrow> [] | Some s \<Rightarrow> s)
      in bind_res (extract_features fx text) (\<lambda>features.
           Inr \<lparr>er_features = features, er_latency_ms = (t1 - t0) * 1000, er_prompt = text\<rparr>))"

text \<open>\<open>clk i\<close> are the two clock readings of the \<open>i\<close>th prompt.\<close>

definition extract_batch ::
  "feature_extractor \<Rightarrow> (nat \<Rightarrow> real \<times> real) \<Rightarrow> string option list \<Rightarrow> extraction_result list pyres" where
  "extract_batch fx clk prompts =
     map_res (\<lambda>(i, p). extract_prompt fx (fst (clk i)) (snd (clk i)) p) (enumerate 0 prompts)"

definition content_part :: "(pyval \<Rightarrow> string) \<Rightarrow> pyval \<Rightarrow> string list" where
  "content_part fmt c =
     (case c of
        PDict d \<Rightarrow> [py_str fmt (case dict_get d ''text'' of None \<Rightarrow> c | Some v \<Rightarrow> v)]
      | _ \<Rightarrow> [])"

definition message_part :: "(pyval \<Rightarrow> string) \<Rightarrow> pyval \<Rightarrow> string pyres" where
  "message_part fmt msg =
     bind_res (py_get msg ''role'' (PStr ''user'')) (\<lambda>role.
     bind_res (py_get msg ''content'' (PStr [])) (\<lambda>content.
       let text = (case content of
                     PList cs \<Rightarrow> join_with '' '' (concat (map (content_part fmt) cs))
                   | _ \<Rightarrow> py_str fmt content)
       in Inr (py_str fmt role @ '': '' @ text)))"

definition extract_from_messages ::
  "(pyval \<Rightarrow> string) \<Rightarrow> real \<Rightarrow> real \<Rightarrow> pyval list \<Rightarrow> extraction_result pyres" where
  "extract_from_messages fmt t0 t1 messages =
     bind_res (map_res (message_part fmt) messages) (\<lambda>parts.
       extract_prompt default_extractor t0 t1 (Some (join_with [CHR 0x0A] parts)))"

section \<open>Facts\<close>

lemma count_chars_le [simp]: "count_chars P s \<le> max (length s) (Suc 0)"
  unfolding count_chars_def using length_filter_le [of P s] by linarith

lemma part_of_whole: "m \<le> n \<Longrightarrow> 0 \<le> (if n \<noteq> 0 then real m / real n else 0) \<and> (if n \<noteq> 0 then real m / real n else 0) \<le> 1"
  by auto

lemma bool_float_unit [simp]: "0 \<le> bool_float b" "bool_float b \<le> 1"
  by (auto simp: bool_float_def)

lemma lang_to_float_unit [simp]: "0 \<le> lang_to_float c" "lang_to_float c \<le> 1"
  by (auto simp: lang_to_float_def)

lemma reasoning_score_unit [simp]: "0 \<le> reasoning_score s q w" "reasoning_score s q w \<le> 1"
  by (auto simp: reasoning_score_def Let_def)

lemma coding_probability_unit [simp]: "0 \<le> coding_probability s" "coding_probability s \<le> 1"
  by (auto simp: coding_probability_def Let_def)

lemma p_log_p_nonpos: "0 < p \<Longrightarrow> p \<le> 1 \<Longrightarrow> p * log 2 p \<le> 0"
  by (simp add: mult_nonneg_nonpos)

lemma shannon_entropy_nonneg [simp]: "0 \<le> shannon_entropy s"
proof (cases "s = []")
  case False
  let ?p = "\<lambda>c. real (count_list s c) / real (length s)"
  have "?p c * log 2 (?p c) \<le> 0" if "c \<in> set s" for c
  proof -
    have "count_list s c \<le> length s" by (rule count_le_length)
    moreover have "0 < count_list s c" using that count_list_0_iff [of s c] by simp
    ultimately have "0 < ?p c" "?p c \<le> 1" using False by auto
    then show ?thesis by (rule p_log_p_nonpos)
  qed
  then have "sum_list (map (\<lambda>c. ?p c * log 2 (?p c)) (remdups s)) \<le> 0"
    by (intro sum_list_nonpos) auto
  with False show ?thesis by (simp add: shannon_entropy_def Let_def)
qed (simp add: shannon_entropy_def)

text \<open>A pattern whose matches are not empty has at most one match per character.\<close>

lemma star_ends_range:
  assumes "\<And>i j. j \<in> set (f i) \<Longrightarrow> j \<le> n"
  shows "i \<le> n \<Longrightarrow> j \<in> set (star_ends f m i) \<Longrightarrow> i \<le> j \<and> j \<le> n"
proof (induction m arbitrary: i j)
  case (Suc m)
  from Suc.prems(2) have "j = i \<or> (\<exists>k. k \<in> set (f i) \<and> i < k \<and> j \<in> set (star_ends f m k))"
    unfolding star_ends.simps set_append set_concat set_map by (fastforce split: if_splits)
  then show ?case
  proof (elim disjE exE conjE)
    fix k
    assume k: "k \<in> set (f i)" "i < k" "j \<in> set (star_ends f m k)"
    with assms have "k \<le> n" by blast
    from Suc.IH [OF this k(3)] k(2) show ?thesis by simp
  qed (use Suc.prems in simp)
qed simp

lemma plus_cls_ends:
  assumes "j \<in> set (rx_ends (Plus (Cls P)) s i)"
  shows "i < j \<and> j \<le> length s"
proof -
  have "i < length s" and "j \<in> set (star_ends (rx_ends (Cls P) s) (length s - Suc i) (Suc i))"
    using assms by (auto simp: Plus_def split: if_splits)
  with star_ends_range [of "rx_ends (Cls P) s" "length s" "Suc i" j "length s - Suc i"] show ?thesis
    by (auto split: if_splits)
qed

lemma word_ends: "j \<in> set (rx_ends WORD_RE s i) \<Longrightarrow> i < j \<and> j \<le> length s"
  by (auto simp: WORD_RE_def dest!: plus_cls_ends simp del: rx_ends.simps(2,5) split: if_splits)

lemma rx_spans_length:
  assumes nonempty: "\<And>i j. j \<in> set (rx_ends r s i) \<Longrightarrow> i < j \<and> j \<le> length s"
  shows "length (rx_spans r s i) \<le> length s - i"
proof (induction "length s - i" arbitrary: i rule: less_induct)
  case less
  show ?case
  proof (cases "rx_ends r s i")
    case Nil
    show ?thesis
    proof (cases "i < length s")
      case True
      have "rx_spans r s i = rx_spans r s (Suc i)"
        using True Nil by (subst rx_spans.simps) simp
      moreover have "length (rx_spans r s (Suc i)) \<le> length s - Suc i" using True by (intro less) auto
      ultimately show ?thesis by simp
    next
      case False
      then have "rx_spans r s (Suc i) = []" by (subst rx_spans.simps) simp
      with Nil show ?thesis by (subst rx_spans.simps) simp
    qed
  next
    case (Cons j js)
    then have "i < j" "j \<le> length s" using nonempty [of j i] by auto
    moreover from this have "length (rx_spans r s j) \<le> length s - j" by (intro less) auto
    moreover from calculation Cons have "rx_spans r s i = (i, j) # rx_spans r s j"
      by (subst rx_spans.simps) simp
    ultimately show ?thesis by simp
  qed
qed

lemma word_count_le: "length (rx_findall WORD_RE s) \<le> length s"
  using rx_spans_length [OF word_ends, where i = 0 and s = s] by (simp add: rx_findall_def)

lemma length_feature_values: "length (feature_values fx text) = 40"
  by (simp add: feature_values_def Let_def)

lemma extract_features_eq: "extract_features fx text = Inr \<lparr>fv_values = feature_values fx text\<rparr>"
  by (simp add: extract_features_def mk_feature_vector_def length_feature_values NUM_FEATURES_eq)

lemma extract_prompt_eq:
  "extract_prompt fx t0 t1 (Some text) =
     Inr \<lparr>er_features = \<lparr>fv_values = feature_values fx text\<rparr>, er_latency_ms = (t1 - t0) * 1000, er_prompt = text\<rparr>"
  by (simp add: extract_prompt_def extract_features_eq)

section \<open>Properties\<close>

text \<open>The features that are ratios, flags or scores, and the counts that are never zero.\<close>

definition unit_features :: "string list" where
  "unit_features = [''unique_word_ratio'', ''uppercase_ratio'', ''lowercase_ratio'', ''whitespace_ratio'',
     ''has_markdown'', ''has_code_fence'', ''has_python'', ''has_sql'', ''has_json'', ''has_xml'', ''has_yaml'',
     ''has_system_prompt'', ''has_assistant_prompt'', ''has_user_prompt'', ''language_code'', ''unicode_ratio'',
     ''reasoning_score'', ''coding_probability'', ''stopword_ratio'']"

definition positive_counts :: "string list" where
  "positive_counts = [''prompt_token_count'', ''conversation_turn_count'', ''sentence_count'']"

definition feature_of :: "feature_extractor \<Rightarrow> string \<Rightarrow> string \<Rightarrow> real option" where
  "feature_of fx text k = dict_get (zip FEATURE_NAMES (feature_values fx text)) k"

lemma feature_of_nth:
  "i < 40 \<Longrightarrow> feature_of fx text (FEATURE_NAMES ! i) = Some (feature_values fx text ! i)"
  using distinct_FEATURE_NAMES NUM_FEATURES_eq
  by (simp add: feature_of_def map_of_zip_nth length_feature_values NUM_FEATURES_def)

lemma feature_values_nonneg:
  assumes "\<And>f s. fx_embed fx = Some (Some f) \<Longrightarrow> 0 \<le> f s"
  shows "\<forall>x \<in> set (feature_values fx text). 0 \<le> x"
  using assms
  by (auto simp: feature_values_def Let_def named_entity_count_def embedding_norm_def split: option.splits)

abbreviation unit_indices :: "nat list" where
  "unit_indices \<equiv> [6, 15, 16, 17, 18, 19, 20, 21, 22, 23, 24, 28, 29, 30, 31, 32, 33, 34, 35]"

lemma unit_features_indices: "unit_features = map ((!) FEATURE_NAMES) unit_indices"
  by (simp add: unit_features_def FEATURE_NAMES_def)

lemma length_remdups_map_le: "length (remdups (map f xs)) \<le> length xs"
  by (metis length_map length_remdups_leq)

lemma unit_values_le_1: "\<forall>i \<in> set unit_indices. feature_values fx text ! i \<le> 1"
  using part_of_whole [OF length_remdups_map_le [of lower "rx_findall WORD_RE text"]]
    part_of_whole [OF length_filter_le [of "\<lambda>w. lower w \<in> set STOPWORDS" "rx_findall WORD_RE text"]]
  by (simp add: feature_values_def Let_def)

lemma unit_features_le_1:
  assumes "k \<in> set unit_features"
  shows "\<exists>x. feature_of fx text k = Some x \<and> x \<le> 1"
proof -
  obtain i where "i \<in> set unit_indices" "k = FEATURE_NAMES ! i"
    using assms unfolding unit_features_indices set_map by blast
  moreover have "\<forall>i \<in> set unit_indices. i < 40" by simp
  ultimately show ?thesis using feature_of_nth unit_values_le_1 by blast
qed

lemma positive_counts_ge_1:
  assumes "k \<in> set positive_counts"
  shows "\<exists>x. feature_of fx text k = Some x \<and> 1 \<le> x"
proof -
  have n: "FEATURE_NAMES ! 0 = ''prompt_token_count''" "FEATURE_NAMES ! 27 = ''conversation_turn_count''"
    "FEATURE_NAMES ! 36 = ''sentence_count''" by (simp_all add: FEATURE_NAMES_def)
  have "1 \<le> feature_values fx text ! 0"
    by (cases "split_ws text") (simp_all add: feature_values_def Let_def)
  moreover have "1 \<le> feature_values fx text ! 27" "1 \<le> feature_values fx text ! 36"
    by (simp_all add: feature_values_def Let_def)
  ultimately show ?thesis
    using assms feature_of_nth [of 0 fx "text"] feature_of_nth [of 27 fx "text"] feature_of_nth [of 36 fx "text"]
    unfolding positive_counts_def n by auto
qed

lemma size_features_ordered:
  "\<exists>c w u. feature_of fx text ''prompt_char_count'' = Some c \<and> feature_of fx text ''word_count'' = Some w \<and>
     feature_of fx text ''vocabulary_size'' = Some u \<and> u \<le> w \<and> w \<le> c"
proof -
  have n: "FEATURE_NAMES ! 1 = ''prompt_char_count''" "FEATURE_NAMES ! 2 = ''word_count''"
    "FEATURE_NAMES ! 5 = ''vocabulary_size''" by (simp_all add: FEATURE_NAMES_def)
  have "feature_values fx text ! 5 \<le> feature_values fx text ! 2"
    using length_remdups_map_le [of lower "rx_findall WORD_RE text"] by (simp add: feature_values_def Let_def)
  moreover have "feature_values fx text ! 2 \<le> feature_values fx text ! 1"
    using word_count_le [of "text"] by (simp add: feature_values_def Let_def)
  ultimately show ?thesis
    using feature_of_nth [of 1 fx "text"] feature_of_nth [of 2 fx "text"] feature_of_nth [of 5 fx "text"]
    unfolding n by simp
qed

text \<open>
  C25: extraction is total and its features are in range. For every prompt \<^verbatim>\<open>_extract_features\<close>
  returns a vector of forty values, none negative; the nineteen ratios, flags and scores are at
  most one, the token, turn and sentence counts at least one, no prompt has more words than
  characters and the vocabulary is no larger than the word count. An embedding model, when one
  is loaded, is only assumed to have non-negative norms.
\<close>

theorem extraction_total_and_in_range:
  assumes "\<And>f s. fx_embed fx = Some (Some f) \<Longrightarrow> 0 \<le> f s"
  shows "\<exists>v d. extract_features fx text = Inr v \<and> as_dict v = Inr d \<and> map fst d = FEATURE_NAMES \<and>
    (\<forall>x \<in> set (as_list v). 0 \<le> x) \<and>
    (\<forall>k \<in> set unit_features. \<exists>x. dict_get d k = Some x \<and> x \<le> 1) \<and>
    (\<forall>k \<in> set positive_counts. \<exists>x. dict_get d k = Some x \<and> 1 \<le> x) \<and>
    (\<exists>c w u. dict_get d ''prompt_char_count'' = Some c \<and> dict_get d ''word_count'' = Some w \<and>
       dict_get d ''vocabulary_size'' = Some u \<and> u \<le> w \<and> w \<le> c)"
proof -
  let ?v = "\<lparr>fv_values = feature_values fx text\<rparr>" and ?d = "zip FEATURE_NAMES (feature_values fx text)"
  have "extract_features fx text = Inr ?v" by (rule extract_features_eq)
  moreover have "as_dict ?v = Inr ?d"
    by (subst as_dict_eq) (simp_all add: length_feature_values NUM_FEATURES_eq)
  moreover have "map fst ?d = FEATURE_NAMES"
    using NUM_FEATURES_eq by (simp add: length_feature_values NUM_FEATURES_def)
  moreover have "\<forall>x \<in> set (as_list ?v). 0 \<le> x"
    using feature_values_nonneg [of fx "text"] assms by (simp add: as_list_def)
  moreover have "\<forall>k \<in> set unit_features. \<exists>x. dict_get ?d k = Some x \<and> x \<le> 1"
    using unit_features_le_1 by (simp add: feature_of_def)
  moreover have "\<forall>k \<in> set positive_counts. \<exists>x. dict_get ?d k = Some x \<and> 1 \<le> x"
    using positive_counts_ge_1 by (simp add: feature_of_def)
  moreover have "\<exists>c w u. dict_get ?d ''prompt_char_count'' = Some c \<and> dict_get ?d ''word_count'' = Some w \<and>
       dict_get ?d ''vocabulary_size'' = Some u \<and> u \<le> w \<and> w \<le> c"
    using size_features_ordered unfolding feature_of_def .
  ultimately show ?thesis by blast
qed

theorem extraction_total_and_in_range_witness:
  "\<exists>v d x. extract_features default_extractor ''Why? See www.a.b'' = Inr v \<and> as_dict v = Inr d \<and>
     dict_get d ''reasoning_score'' = Some x \<and> x \<le> 1"
  using extraction_total_and_in_range [of default_extractor "''Why? See www.a.b''"]
  by (fastforce simp: default_extractor_def unit_features_def)

end
