(* ===== verification/Dataset.thy ===== *)
theory Dataset
  imports FeatureExtractor
begin

text \<open>
  The training data of \<^verbatim>\<open>python/predictor/dataset.py\<close>: samples from prompts, records and files, the
  cache of downloaded data sets, deduplication, the split into training, validation and test
  data, and the standardisation of the features. Arguments of the model are the prompt hash,
  the JSON codec, the rows of a downloaded data set, the random permutation, and \<open>fmt\<close>, which
  renders values that are not strings. Floats are reals.
\<close>

section \<open>Samples\<close>

record sample =
  sm_prompt :: string
  sm_features :: "real list"
  sm_actual_output_tokens :: real
  sm_metadata :: "(string, pyval) dict"

type_synonym data_record = "(string, pyval) dict"

definition estimate_tokens :: "string \<Rightarrow> int" where
  "estimate_tokens text = max 1 (trunc (real (length (split_ws text)) * (13 / 10)))"

text \<open>One turn of the loop; the latency of the extraction is not used.\<close>

definition mk_sample :: "string \<Rightarrow> string \<Rightarrow> (string, pyval) dict \<Rightarrow> sample pyres" where
  "mk_sample prompt output meta =
     bind_res (extract_prompt default_extractor 0 0 (Some prompt)) (\<lambda>ext.
       Inr \<lparr>sm_prompt = prompt, sm_features = as_list (er_features ext),
            sm_actual_output_tokens = real_of_int (estimate_tokens output), sm_metadata = meta\<rparr>)"

text \<open>\<^verbatim>\<open>zip(..., strict=True)\<close> notices different lengths at the end of the shortest list.\<close>

definition from_prompts ::
  "string list \<Rightarrow> string list \<Rightarrow> (string, pyval) dict list option \<Rightarrow> sample list pyres" where
  "from_prompts prompts outputs metadata =
     (let meta_list = (case metadata of
                         Some (m # ms) \<Rightarrow> m # ms
                       | _ \<Rightarrow> replicate (length prompts) [])
      in bind_res (map_res (\<lambda>(p, o', m). mk_sample p o' m) (zip prompts (zip outputs meta_list))) (\<lambda>samples.
           if length prompts = length outputs \<and> length prompts = length meta_list then Inr samples
           else Inl (ValueError ''zip() argument length'')))"

section \<open>Records and files\<close>

definition get_first :: "(pyval \<Rightarrow> string) \<Rightarrow> string list \<Rightarrow> data_record \<Rightarrow> string" where
  "get_first fmt keys rec =
     py_str fmt (case List.map_filter (dict_get rec) keys of [] \<Rightarrow> PStr [] | v # _ \<Rightarrow> v)"

definition record_prompt :: "(pyval \<Rightarrow> string) \<Rightarrow> data_record \<Rightarrow> string" where
  "record_prompt fmt = get_first fmt [''prompt'', ''instruction'', ''input'']"

definition record_output :: "(pyval \<Rightarrow> string) \<Rightarrow> data_record \<Rightarrow> string" where
  "record_output fmt = get_first fmt [''output'', ''response'', ''completion'']"

definition from_records :: "(pyval \<Rightarrow> string) \<Rightarrow> data_record list \<Rightarrow> sample list pyres" where
  "from_records fmt records =
     (let kept = filter (\<lambda>rec. record_prompt fmt rec \<noteq> []) records
      in from_prompts (map (record_prompt fmt) kept) (map (record_output fmt) kept)
           (Some (map (filter (\<lambda>(k, v). k \<noteq> ''prompt'' \<and> k \<noteq> ''output'')) kept)))"

text \<open>
  A text file is its contents. Lines end at a newline or a carriage return; lines of white
  space are skipped, so the empty pieces need not be kept.
\<close>

definition line_end :: "char \<Rightarrow> bool" where
  "line_end c \<longleftrightarrow> c = CHR 0x0A \<or> c = CHR 0x0D"

definition from_jsonl ::
  "(pyval \<Rightarrow> string) \<Rightarrow> (string \<Rightarrow> data_record pyres) \<Rightarrow> string \<Rightarrow> sample list pyres" where
  "from_jsonl fmt loads contents =
     bind_res (map_res loads (filter (\<lambda>l. l \<noteq> []) (map strip (split_acc line_end [] contents))))
       (from_records fmt)"

definition csv_record :: "string \<Rightarrow> string \<Rightarrow> data_record \<Rightarrow> data_record pyres" where
  "csv_record prompt_col output_col row =
     (case dict_get row prompt_col of
        None \<Rightarrow> Inl (KeyError prompt_col)
      | Some p \<Rightarrow>
          Inr [(''prompt'', p), (''output'', case dict_get row output_col of None \<Rightarrow> PStr [] | Some v \<Rightarrow> v)])"

definition from_csv ::
  "(pyval \<Rightarrow> string) \<Rightarrow> string \<Rightarrow> string \<Rightarrow> data_record list \<Rightarrow> sample list pyres" where
  "from_csv fmt prompt_col output_col rows =
     bind_res (map_res (csv_record prompt_col output_col) rows) (from_records fmt)"

definition write_jsonl :: "(data_record \<Rightarrow> string) \<Rightarrow> data_record list \<Rightarrow> string" where
  "write_jsonl dumps records = concat (map (\<lambda>rec. dumps rec @ [CHR 0x0A]) records)"

text \<open>
  \<^verbatim>\<open>from_huggingface\<close>: \<open>cache\<close> are the files of the cache directory and \<open>download\<close> is the package of data sets, \<open>None\<close>
  when it is not installed: the rows it loads or the exception it raises. Without the package not
  even cached data is read.
\<close>

definition cache_key :: "(pyval \<Rightarrow> string) \<Rightarrow> string \<Rightarrow> string \<Rightarrow> int \<Rightarrow> string" where
  "cache_key fmt name split max_samples =
     py_replace ''/'' ''_'' (name @ ''_'' @ split @ ''_'' @ fmt (PInt max_samples)) @ ''.jsonl''"

definition hf_records ::
  "(pyval \<Rightarrow> string) \<Rightarrow> int \<Rightarrow> string \<Rightarrow> string \<Rightarrow> data_record list \<Rightarrow> data_record list" where
  "hf_records fmt max_samples prompt_key output_key rows =
     map (\<lambda>row. [(''prompt'', PStr (get_first fmt [prompt_key, ''text''] row)),
                (''output'', PStr (get_first fmt [output_key, ''response''] row))])
       (filter (\<lambda>row. get_first fmt [prompt_key, ''text''] row \<noteq> []) (take (nat max_samples) rows))"

definition from_huggingface ::
  "(pyval \<Rightarrow> string) \<Rightarrow> (string \<Rightarrow> data_record pyres) \<Rightarrow> (data_record \<Rightarrow> string) \<Rightarrow> data_record list pyres option \<Rightarrow>
   string \<Rightarrow> string \<Rightarrow> int \<Rightarrow> string \<Rightarrow> string \<Rightarrow> (string, string) dict \<Rightarrow> sample list pyres \<times> (string, string) dict" where
  "from_huggingface fmt loads dumps download name split max_samples prompt_key output_key cache =
     (case download of
        None \<Rightarrow> (Inl (OtherError ''ImportError''), cache)
      | Some loaded \<Rightarrow>
          (let path = cache_key fmt name split max_samples
           in case dict_get cache path of
                Some contents \<Rightarrow> (from_jsonl fmt loads contents, cache)
              | None \<Rightarrow>
                  (case loaded of
                     Inl e \<Rightarrow> (Inl e, cache)
                   | Inr rows \<Rightarrow>
                       (let records = hf_records fmt max_samples prompt_key output_key rows
                        in (from_records fmt records, dict_set path (write_jsonl dumps records) cache)))))"

section \<open>Deduplication\<close>

fun dedup_loop :: "(string \<Rightarrow> 'h) \<Rightarrow> 'h set \<Rightarrow> sample list \<Rightarrow> sample list" where
  "dedup_loop hash seen [] = []"
| "dedup_loop hash seen (s # ss) =
     (let h = hash (sm_prompt s)
      in if h \<notin> seen then s # dedup_loop hash (insert h seen) ss else dedup_loop hash seen ss)"

definition deduplicate :: "(string \<Rightarrow> 'h) \<Rightarrow> sample list \<Rightarrow> sample list" where
  "deduplicate hash samples = dedup_loop hash {} samples"

section \<open>Presets\<close>

text \<open>
  The synthetic data: a prompt template with the fields \<^verbatim>\<open>format\<close> fills in, and what the random
  generator draws in iteration \<open>i\<close> (indices into the lists, the number of sentences of the
  paragraph, the target). The target is drawn only for a new prompt.
\<close>

datatype piece = Text string | Field string

record draw =
  dr_template :: nat
  dr_topic :: nat
  dr_a :: nat
  dr_b :: nat
  dr_sentences :: nat
  dr_target :: int

definition nl :: string where
  "nl = [CHR 0x0A]"

definition synthetic_templates :: "piece list list" where
  "synthetic_templates =
     [[Text ''What is '', Field ''topic'', Text ''?''],
      [Text ''Explain '', Field ''topic'', Text '' in detail.''],
      [Text ''Write a Python function to '', Field ''task'', Text ''.''],
      [Text ''Compare and contrast '', Field ''a'', Text '' and '', Field ''b'', Text ''.''],
      [Text ''List 10 facts about '', Field ''topic'', Text ''.''],
      [Text ''Translate to French: '', Field ''sentence''],
      [Text (''Debug this code:'' @ nl @ ''```python'' @ nl), Field ''code'', Text (nl @ ''```'')],
      [Text ''Summarize: '', Field ''paragraph'']]"

definition synthetic_topics :: "string list" where
  "synthetic_topics = [''AI'', ''physics'', ''history'', ''Python'', ''databases'', ''Kubernetes'']"

definition synthetic_fields :: "draw \<Rightarrow> nat \<Rightarrow> (string, string) dict" where
  "synthetic_fields dr i =
     (let topic = synthetic_topics ! dr_topic dr; n = show_nat i
      in [(''topic'', topic @ ''-'' @ n),
          (''task'', ''process '' @ lower topic @ ''-'' @ n),
          (''a'', synthetic_topics ! dr_a dr),
          (''b'', synthetic_topics ! dr_b dr),
          (''sentence'', ''The '' @ lower topic @ '' is important number '' @ n @ ''.''),
          (''code'', ''def f_'' @ n @ ''(x):'' @ nl @ ''    return x + '' @ n),
          (''paragraph'', join_with '' '' (map (\<lambda>j. ''Sentence '' @ show_nat j @ '' about '' @ topic @ '' item '' @ n @ ''.'')
             [0..<dr_sentences dr]))])"

definition synthetic_prompt :: "draw \<Rightarrow> nat \<Rightarrow> string" where
  "synthetic_prompt dr i =
     concat (map (\<lambda>p. case p of Text t \<Rightarrow> t | Field k \<Rightarrow> the (dict_get (synthetic_fields dr i) k))
       (synthetic_templates ! dr_template dr))"

definition synthetic_sample :: "draw \<Rightarrow> string \<Rightarrow> sample pyres" where
  "synthetic_sample dr prompt =
     bind_res (extract_prompt default_extractor 0 0 (Some prompt)) (\<lambda>ext.
       let feat_boost = sum_list (take 5 (as_list (er_features ext))) * (1 / 2);
           target = max 5 (real_of_int (dr_target dr) + feat_boost * (1 / 10))
       in Inr \<lparr>sm_prompt = prompt, sm_features = as_list (er_features ext), sm_actual_output_tokens = target,
               sm_metadata = [(''source'', PStr ''synthetic'')]\<rparr>)"

fun synthetic_loop ::
  "(string \<Rightarrow> 'h) \<Rightarrow> (nat \<Rightarrow> draw) \<Rightarrow> int \<Rightarrow> nat list \<Rightarrow> 'h set \<Rightarrow> sample list \<Rightarrow> sample list pyres" where
  "synthetic_loop hash rng n [] seen samples = Inr samples"
| "synthetic_loop hash rng n (i # is) seen samples =
     (if int (length samples) \<ge> n then Inr samples
      else let prompt = synthetic_prompt (rng i) i; h = hash prompt
           in if h \<in> seen then synthetic_loop hash rng n is seen samples
              else bind_res (synthetic_sample (rng i) prompt) (\<lambda>s.
                     synthetic_loop hash rng n is (insert h seen) (samples @ [s])))"

definition generate_synthetic :: "(string \<Rightarrow> 'h) \<Rightarrow> (nat \<Rightarrow> draw) \<Rightarrow> int \<Rightarrow> sample list pyres" where
  "generate_synthetic hash rng n = synthetic_loop hash rng n [0..<nat (n * 3)] {} []"

text \<open>\<open>hf name prompt_key output_key n\<close> stands for \<^verbatim>\<open>from_huggingface\<close> on the split \<^verbatim>\<open>train\<close>.\<close>

definition load_preset ::
  "(string \<Rightarrow> string \<Rightarrow> string \<Rightarrow> int \<Rightarrow> sample list pyres) \<Rightarrow> (string \<Rightarrow> 'h) \<Rightarrow> (nat \<Rightarrow> draw) \<Rightarrow> string \<Rightarrow> int \<Rightarrow>
   sample list pyres" where
  "load_preset hf hash rng name max_samples =
     (if name = ''alpaca'' then hf ''yahma/alpaca-cleaned'' ''instruction'' ''output'' max_samples
      else if name = ''dolly'' then hf ''databricks/databricks-dolly-15k'' ''instruction'' ''response'' max_samples
      else if name = ''synthetic'' then generate_synthetic hash rng max_samples
      else Inl (ValueError (''Unknown preset: '' @ name)))"

section \<open>Splitting and standardisation\<close>

text \<open>
  NumPy: \<^verbatim>\<open>np.array\<close> of rows of different lengths raises; the mean and the deviation along axis 0
  of an empty array are a NaN, here \<open>None\<close>.
\<close>

definition np_rows :: "real list list \<Rightarrow> real list list pyres" where
  "np_rows rows =
     (if list_all (\<lambda>r. length r = length (hd rows)) rows then Inr rows
      else Inl (ValueError ''inhomogeneous shape''))"

definition column :: "real list list \<Rightarrow> nat \<Rightarrow> real list" where
  "column rows j = map (\<lambda>r. r ! j) rows"

definition mean_of :: "real list \<Rightarrow> real" where
  "mean_of xs = sum_list xs / real (length xs)"

definition std_of :: "real list \<Rightarrow> real" where
  "std_of xs = sqrt (mean_of (map (\<lambda>x. (x - mean_of xs)\<^sup>2) xs))"

definition np_axis0 :: "(real list \<Rightarrow> real) \<Rightarrow> real list list \<Rightarrow> real list option" where
  "np_axis0 f rows = (if rows = [] then None else Some (map (\<lambda>j. f (column rows j)) [0..<length (hd rows)]))"

record dataset_splits =
  ds_train :: "sample list"
  ds_val :: "sample list"
  ds_test :: "sample list"
  ds_feature_mean :: "real list option"
  ds_feature_std :: "real list option"

text \<open>A slice bound: negative bounds count from the end.\<close>

definition slice_bound :: "nat \<Rightarrow> int \<Rightarrow> nat" where
  "slice_bound n i = (if i < 0 then nat (max 0 (i + int n)) else min (nat i) n)"

definition py_slice :: "int \<Rightarrow> int \<Rightarrow> 'a list \<Rightarrow> 'a list" where
  "py_slice i j xs =
     take (slice_bound (length xs) j - slice_bound (length xs) i) (drop (slice_bound (length xs) i) xs)"

definition split_dataset ::
  "(nat \<Rightarrow> nat list) \<Rightarrow> sample list \<Rightarrow> real \<Rightarrow> real \<Rightarrow> dataset_splits pyres" where
  "split_dataset permutation samples train_ratio val_ratio =
     (let indices = permutation (length samples);
          n = length samples;
          n_train = trunc (real n * train_ratio);
          n_val = trunc (real n * val_ratio);
          train = map ((!) samples) (py_slice 0 n_train indices);
          val = map ((!) samples) (py_slice n_train (n_train + n_val) indices);
          test = map ((!) samples) (drop (slice_bound (length indices) (n_train + n_val)) indices)
      in bind_res (np_rows (map sm_features train)) (\<lambda>all_features.
           Inr \<lparr>ds_train = train, ds_val = val, ds_test = test,
                ds_feature_mean = np_axis0 mean_of all_features,
                ds_feature_std = np_axis0 std_of all_features\<rparr>))"

text \<open>
  Each row broadcasts against the mean and the deviation. Without samples \<^verbatim>\<open>np.array([])\<close> is a
  one-dimensional array without elements, which broadcasts like an empty row.
\<close>

definition to_tensors :: "sample list \<Rightarrow> real list \<Rightarrow> real list \<Rightarrow> (real list list \<times> real list) pyres" where
  "to_tensors samples mean std =
     (if samples = [] then bind_res (normalise mean std []) (\<lambda>_. Inr ([], []))
      else bind_res (np_rows (map sm_features samples)) (\<lambda>x.
           bind_res (map_res (normalise mean std) x) (\<lambda>x'.
             Inr (x', map sm_actual_output_tokens samples))))"

text \<open>
  \<^verbatim>\<open>parallel_extract\<close>: \<^verbatim>\<open>Pool.map\<close> keeps the order of the prompts, whatever the number of workers,
  and a pool has at least one.
\<close>

definition parallel_extract_work :: "string \<Rightarrow> real list pyres" where
  "parallel_extract_work prompt =
     bind_res (extract_prompt default_extractor 0 0 (Some prompt)) (\<lambda>ext. Inr (as_list (er_features ext)))"

definition parallel_extract :: "string list \<Rightarrow> int \<Rightarrow> real list list pyres" where
  "parallel_extract prompts workers =
     (if workers < 1 then Inl (ValueError ''Number of processes must be at least 1'')
      else map_res parallel_extract_work prompts)"

section \<open>Facts\<close>

text \<open>Extracting in parallel gives the features that building the samples one by one gives.\<close>

lemma mk_sample_features: "mk_sample p out m = Inr s \<Longrightarrow> parallel_extract_work p = Inr (sm_features s)"
  unfolding mk_sample_def parallel_extract_work_def
  by (cases "extract_prompt default_extractor 0 0 (Some p)") auto

lemma parallel_extract_features:
  assumes "1 \<le> workers" and "from_prompts prompts outputs metadata = Inr samples"
  shows "parallel_extract prompts workers = Inr (map sm_features samples)"
proof -
  let ?ml = "case metadata of Some (m # ms) \<Rightarrow> m # ms | _ \<Rightarrow> replicate (length prompts) []"
  have z: "map_res (\<lambda>(p, o', m). mk_sample p o' m) (zip prompts (zip outputs ?ml)) = Inr samples"
    and l: "length prompts = length outputs" "length prompts = length ?ml"
    using assms(2) by (auto simp: from_prompts_def Let_def bind_res_Inr_iff split: if_splits)
  have "map_res parallel_extract_work prompts = Inr (map sm_features samples)"
    if "map_res (\<lambda>(p, o', m). mk_sample p o' m) (zip prompts (zip outputs ml)) = Inr samples"
      "length prompts = length outputs" "length outputs = length ml" for ml
    using that(2,3,1)
  proof (induction prompts outputs ml arbitrary: samples rule: list_induct3)
    case (Cons p ps out outs m ms)
    obtain s ss where s: "mk_sample p out m = Inr s" "samples = s # ss"
      and ss: "map_res (\<lambda>(p, o', m). mk_sample p o' m) (zip ps (zip outs ms)) = Inr ss"
      using Cons.prems by (auto simp: bind_res_Inr_iff)
    with Cons.IH [OF ss] mk_sample_features [OF s(1)] show ?case by simp
  qed simp
  from this [OF z l(1) trans [OF l(1) [symmetric] l(2)]] assms(1) show ?thesis
    unfolding parallel_extract_def by simp
qed

text \<open>The specification of deduplication: the first sample of every prompt.\<close>

fun first_by_prompt :: "sample list \<Rightarrow> sample list" where
  "first_by_prompt [] = []"
| "first_by_prompt (s # ss) = s # filter (\<lambda>t. sm_prompt t \<noteq> sm_prompt s) (first_by_prompt ss)"

lemma set_first_by_prompt: "set (first_by_prompt ss) \<subseteq> set ss"
  by (induction ss) auto

lemma prompts_first_by_prompt: "sm_prompt ` set (first_by_prompt ss) = sm_prompt ` set ss"
proof (induction ss)
  case (Cons s ss)
  have "sm_prompt ` set (first_by_prompt (s # ss)) = insert (sm_prompt s) (sm_prompt ` set (first_by_prompt ss))"
    by auto
  with Cons.IH show ?case by simp
qed simp

lemma distinct_first_by_prompt: "distinct (map sm_prompt (first_by_prompt ss))"
  by (induction ss) (auto simp: distinct_map_filter)

lemma dedup_loop_spec:
  assumes "inj_on hash (sm_prompt ` set ss)"
  shows "dedup_loop hash seen ss = filter (\<lambda>s. hash (sm_prompt s) \<notin> seen) (first_by_prompt ss)"
  using assms
proof (induction ss arbitrary: seen)
  case (Cons s ss)
  have same: "hash (sm_prompt t) = hash (sm_prompt s) \<longleftrightarrow> sm_prompt t = sm_prompt s"
    if "t \<in> set (first_by_prompt ss)" for t
    using that set_first_by_prompt [of ss] Cons.prems by (auto simp: inj_on_def)
  have IH: "dedup_loop hash seen' ss = filter (\<lambda>s. hash (sm_prompt s) \<notin> seen') (first_by_prompt ss)" for seen'
    using Cons.prems by (intro Cons.IH) simp
  show ?case
    by (auto simp: IH Let_def same intro!: filter_cong)
qed simp

lemma deduplicate_spec: "inj_on hash (sm_prompt ` set ss) \<Longrightarrow> deduplicate hash ss = first_by_prompt ss"
  by (simp add: deduplicate_def dedup_loop_spec)

text \<open>Slices.\<close>

lemma three_slices:
  assumes "0 \<le> a" and "0 \<le> b" and "a + b \<le> int (length xs)"
  shows "py_slice 0 a xs @ py_slice a (a + b) xs @ drop (slice_bound (length xs) (a + b)) xs = xs"
    and "length (py_slice 0 a xs) = nat a" and "length (py_slice a (a + b) xs) = nat b"
proof -
  have *: "slice_bound (length xs) 0 = 0" "slice_bound (length xs) a = nat a"
    "slice_bound (length xs) (a + b) = nat a + nat b"
    using assms by (auto simp: slice_bound_def nat_add_distrib)
  show "py_slice 0 a xs @ py_slice a (a + b) xs @ drop (slice_bound (length xs) (a + b)) xs = xs"
    by (simp add: py_slice_def *) (metis append_take_drop_id drop_drop add.commute)
  show "length (py_slice 0 a xs) = nat a" "length (py_slice a (a + b) xs) = nat b"
    using assms by (auto simp: py_slice_def *)
qed

lemma split_sizes:
  assumes "0 \<le> tr" and "0 \<le> vr" and "tr + vr \<le> 1"
  shows "0 \<le> trunc (real n * tr)" and "0 \<le> trunc (real n * vr)"
    and "trunc (real n * tr) + trunc (real n * vr) \<le> int n"
proof -
  have "real n * tr + real n * vr = real n * (tr + vr)" by (simp add: distrib_left)
  also have "\<dots> \<le> real n" using assms(3) mult_left_mono [of "tr + vr" 1 "real n"] by simp
  finally have "real_of_int \<lfloor>real n * tr\<rfloor> + real_of_int \<lfloor>real n * vr\<rfloor> \<le> real n"
    by (meson add_mono of_int_floor_le order_trans)
  then show "0 \<le> trunc (real n * tr)" "0 \<le> trunc (real n * vr)" "trunc (real n * tr) + trunc (real n * vr) \<le> int n"
    using assms(1,2) by (simp_all add: trunc_nonneg)
qed

lemma permuted_mset: "mset is = mset [0..<length xs] \<Longrightarrow> mset (map ((!) xs) is) = mset xs"
  by (metis map_nth mset_map)

lemma np_rows_40: "\<forall>s \<in> set ss. length (sm_features s) = 40 \<Longrightarrow> np_rows (map sm_features ss) = Inr (map sm_features ss)"
  by (cases ss) (auto simp: np_rows_def list_all_iff)

lemma split_parts:
  assumes "\<And>n. mset (permutation n) = mset [0..<n]"
    and "\<forall>s \<in> set ss. length (sm_features s) = 40"
    and "0 \<le> tr" and "0 \<le> vr" and "tr + vr \<le> 1"
  shows "\<exists>d. split_dataset permutation ss tr vr = Inr d \<and>
    mset (ds_train d @ ds_val d @ ds_test d) = mset ss \<and>
    int (length (ds_train d)) = trunc (real (length ss) * tr) \<and>
    int (length (ds_val d)) = trunc (real (length ss) * vr)"
proof -
  let ?n = "length ss"
  let ?a = "trunc (real ?n * tr)" and ?b = "trunc (real ?n * vr)" and ?is = "permutation ?n"
  have len: "length ?is = ?n" by (metis assms(1) length_upt minus_nat.diff_0 size_mset)
  note sz = split_sizes [OF assms(3-5), of ?n]
  have sum: "?a + ?b \<le> int (length ?is)" using sz(3) len by simp
  note sl = three_slices [OF sz(1,2) sum]
  let ?train = "map ((!) ss) (py_slice 0 ?a ?is)"
  let ?val = "map ((!) ss) (py_slice ?a (?a + ?b) ?is)"
  let ?test = "map ((!) ss) (drop (slice_bound (length ?is) (?a + ?b)) ?is)"
  have "?train @ ?val @ ?test = map ((!) ss) ?is" using sl(1) by (metis map_append)
  then have ms: "mset (?train @ ?val @ ?test) = mset ss" using permuted_mset [OF assms(1)] by metis
  then have "set ?train \<subseteq> set ss" by (metis set_append set_mset_mset sup_ge1)
  with assms(2) have rows: "np_rows (map sm_features ?train) = Inr (map sm_features ?train)"
    by (intro np_rows_40) blast
  have "int (length ?train) = ?a" "int (length ?val) = ?b" using sl(2,3) sz by simp_all
  with ms show ?thesis by (simp only: split_dataset_def Let_def rows bind_res_simps) auto
qed

text \<open>Affine changes of a column.\<close>

lemma mean_affine: "xs \<noteq> [] \<Longrightarrow> mean_of (map (\<lambda>x. (x - a) / c) xs) = (mean_of xs - a) / c"
proof -
  assume "xs \<noteq> []"
  have "sum_list (map (\<lambda>x. (x - a) / c) xs) = (sum_list xs - real (length xs) * a) / c"
    by (induction xs) (auto simp: field_simps add_divide_distrib diff_divide_distrib)
  with \<open>xs \<noteq> []\<close> show ?thesis by (simp add: mean_of_def field_simps)
qed

lemma std_affine:
  assumes "xs \<noteq> []" and "0 < c"
  shows "std_of (map (\<lambda>x. (x - mean_of xs) / c) xs) = std_of xs / c"
proof -
  let ?g = "\<lambda>x. (x - mean_of xs) / c"
  have "mean_of (map ?g xs) = 0" using mean_affine [OF assms(1)] by simp
  then have "std_of (map ?g xs) = sqrt (mean_of (map (\<lambda>x. (?g x)\<^sup>2) xs))"
    by (simp add: std_of_def comp_def)
  also have "map (\<lambda>x. (?g x)\<^sup>2) xs = map (\<lambda>y. (y - 0) / c\<^sup>2) (map (\<lambda>x. (x - mean_of xs)\<^sup>2) xs)"
    by (simp add: power_divide)
  also have "mean_of \<dots> = mean_of (map (\<lambda>x. (x - mean_of xs)\<^sup>2) xs) / c\<^sup>2"
    using assms(1) mean_affine [of "map (\<lambda>x. (x - mean_of xs)\<^sup>2) xs" 0 "c\<^sup>2"] by simp
  finally show ?thesis using assms(2) by (simp add: std_of_def real_sqrt_divide)
qed

lemma normalise_rows:
  assumes "\<forall>r \<in> set rows. length r = length m" and "length s = length m"
  shows "map_res (normalise m s) rows = Inr (map (\<lambda>r. map2 (/) (map2 (-) r m) (std_safe s)) rows)"
  using assms(1)
  by (induction rows) (auto simp: normalise_def np_bcast_def assms(2))

lemma column_normalised:
  assumes "\<forall>r \<in> set rows. length r = length m" and "length s = length m" and "j < length m"
  shows "column (map (\<lambda>r. map2 (/) (map2 (-) r m) (std_safe s)) rows) j
    = map (\<lambda>x. (x - m ! j) / std_safe s ! j) (column rows j)"
  using assms by (auto simp: column_def)

text \<open>Writing and reading a file of JSON lines.\<close>

definition json_object_line :: "string \<Rightarrow> bool" where
  "json_object_line l \<longleftrightarrow> l \<noteq> [] \<and> hd l = CHR ''{'' \<and> last l = CHR ''}'' \<and> list_all (\<lambda>c. \<not> line_end c) l"

lemma split_acc_line:
  "list_all (\<lambda>c. \<not> sep c) l \<Longrightarrow> acc @ l \<noteq> [] \<Longrightarrow> sep c \<Longrightarrow> split_acc sep acc (l @ c # rest) = (acc @ l) # split_acc sep [] rest"
  by (induction l arbitrary: acc) auto

lemma strip_object_line: "json_object_line l \<Longrightarrow> strip l = l"
proof -
  assume l: "json_object_line l"
  have sp: "\<not> is_space (CHR ''{'')" "\<not> is_space (CHR ''}'')" by (simp_all add: is_space_def in_range_def)
  have "dropWhile is_space l = l" using l sp by (cases l) (auto simp: json_object_line_def)
  moreover have "dropWhile is_space (rev l) = rev l"
    using l sp by (cases l rule: rev_cases) (auto simp: json_object_line_def)
  ultimately show ?thesis by (simp add: strip_def)
qed

lemma jsonl_roundtrip:
  assumes "\<forall>rec \<in> set recs. json_object_line (dumps rec) \<and> loads (dumps rec) = Inr rec"
  shows "from_jsonl fmt loads (write_jsonl dumps recs) = from_records fmt recs"
proof -
  have "split_acc line_end [] (write_jsonl dumps recs) = map dumps recs"
    using assms
    by (induction recs) (auto simp: write_jsonl_def split_acc_line json_object_line_def line_end_def)
  moreover have "filter (\<lambda>l. l \<noteq> []) (map strip (map dumps recs)) = map dumps recs"
    using assms by (induction recs) (auto simp: strip_object_line json_object_line_def)
  moreover have "map_res loads (map dumps recs) = Inr recs"
    using assms by (induction recs) auto
  ultimately show ?thesis by (simp add: from_jsonl_def)
qed

section \<open>Properties\<close>

text \<open>
  C26: deduplicated data splits without leakage. When the hash distinguishes the prompts at hand
  and the generator returns a permutation, deduplication keeps the first sample of every
  prompt, the split succeeds, every kept sample lands in exactly one part, the parts have the
  requested sizes (rounded down), and no prompt occurs in two parts.
\<close>

theorem dedup_split_no_leakage:
  assumes "inj_on hash (sm_prompt ` set samples)"
    and "\<And>n. mset (permutation n) = mset [0..<n]"
    and "\<forall>s \<in> set samples. length (sm_features s) = 40"
    and "0 \<le> tr" and "0 \<le> vr" and "tr + vr \<le> 1"
  shows "\<exists>d. split_dataset permutation (deduplicate hash samples) tr vr = Inr d \<and>
    mset (ds_train d @ ds_val d @ ds_test d) = mset (first_by_prompt samples) \<and>
    distinct (map sm_prompt (ds_train d @ ds_val d @ ds_test d)) \<and>
    sm_prompt ` set (ds_train d @ ds_val d @ ds_test d) = sm_prompt ` set samples \<and>
    int (length (ds_train d)) = trunc (real (length (deduplicate hash samples)) * tr) \<and>
    int (length (ds_val d)) = trunc (real (length (deduplicate hash samples)) * vr)"
proof -
  let ?ss = "first_by_prompt samples"
  have "\<forall>s \<in> set ?ss. length (sm_features s) = 40"
    using assms(3) set_first_by_prompt [of samples] by blast
  from split_parts [OF assms(2) this assms(4-6)] obtain d where
    d: "split_dataset permutation ?ss tr vr = Inr d" "mset (ds_train d @ ds_val d @ ds_test d) = mset ?ss"
      "int (length (ds_train d)) = trunc (real (length ?ss) * tr)"
      "int (length (ds_val d)) = trunc (real (length ?ss) * vr)"
    by blast
  have "distinct (map sm_prompt (ds_train d @ ds_val d @ ds_test d))"
    using distinct_first_by_prompt [of samples] d(2) by (metis mset_eq_imp_distinct_iff mset_map)
  moreover have "sm_prompt ` set (ds_train d @ ds_val d @ ds_test d) = sm_prompt ` set samples"
    using d(2) prompts_first_by_prompt [of samples] by (metis set_mset_mset)
  ultimately show ?thesis using d unfolding deduplicate_spec [OF assms(1)] by blast
qed

definition sample_data :: "sample list" where
  "sample_data = map (\<lambda>p. \<lparr>sm_prompt = p, sm_features = replicate 40 0, sm_actual_output_tokens = 1, sm_metadata = []\<rparr>)
     [''a'', ''b'', ''a'', ''c'']"

theorem dedup_split_no_leakage_witness:
  "\<exists>d. split_dataset (\<lambda>n. rev [0..<n]) (deduplicate id sample_data) (8 / 10) (1 / 10) = Inr d \<and>
     distinct (map sm_prompt (ds_train d @ ds_val d @ ds_test d)) \<and>
     sm_prompt ` set (ds_train d @ ds_val d @ ds_test d) = {''a'', ''b'', ''c''}"
  using dedup_split_no_leakage [of id sample_data "\<lambda>n. rev [0..<n]" "8 / 10" "1 / 10"]
  by (fastforce simp: sample_data_def)

lemma split_statistics:
  assumes "split_dataset permutation samples tr vr = Inr d" and "ds_train d \<noteq> []"
    and "\<forall>s \<in> set (ds_train d). length (sm_features s) = 40"
  shows "ds_feature_mean d = Some (map (\<lambda>j. mean_of (column (map sm_features (ds_train d)) j)) [0..<40])"
    and "ds_feature_std d = Some (map (\<lambda>j. std_of (column (map sm_features (ds_train d)) j)) [0..<40])"
proof -
  let ?rows = "map sm_features (ds_train d)"
  have hd: "length (hd ?rows) = 40" "?rows \<noteq> []" using assms(2,3) by (auto simp: hd_map)
  have "ds_feature_mean d = np_axis0 mean_of ?rows" "ds_feature_std d = np_axis0 std_of ?rows"
    using assms(1) by (auto simp: split_dataset_def Let_def bind_res_Inr_iff np_rows_def split: if_splits)
  then show "ds_feature_mean d = Some (map (\<lambda>j. mean_of (column ?rows j)) [0..<40])"
    "ds_feature_std d = Some (map (\<lambda>j. std_of (column ?rows j)) [0..<40])"
    using hd by (simp_all add: np_axis0_def)
qed

lemma feature_mean_length:
  assumes "split_dataset permutation samples tr vr = Inr d" and "ds_train d \<noteq> []"
    and "\<forall>s \<in> set (ds_train d). length (sm_features s) = 40" and "ds_feature_mean d = Some m"
  shows "length m = 40"
  using split_statistics(1) [OF assms(1-3)] assms(4) by auto

lemma training_tensors:
  assumes "split_dataset permutation samples tr vr = Inr d" and "ds_train d \<noteq> []"
    and "\<forall>s \<in> set (ds_train d). length (sm_features s) = 40"
  shows "\<exists>m s. ds_feature_mean d = Some m \<and> ds_feature_std d = Some s \<and> length m = 40 \<and> length s = 40 \<and>
    to_tensors (ds_train d) m s = Inr (map (\<lambda>r. map2 (/) (map2 (-) r m) (std_safe s)) (map sm_features (ds_train d)),
      map sm_actual_output_tokens (ds_train d))"
proof -
  let ?rows = "map sm_features (ds_train d)"
  let ?m = "map (\<lambda>j. mean_of (column ?rows j)) [0..<40]" and ?s = "map (\<lambda>j. std_of (column ?rows j)) [0..<40]"
  have len: "\<forall>r \<in> set ?rows. length r = length ?m" "length ?s = length ?m" using assms(3) by simp_all
  have "to_tensors (ds_train d) ?m ?s = Inr (map (\<lambda>r. map2 (/) (map2 (-) r ?m) (std_safe ?s)) ?rows,
      map sm_actual_output_tokens (ds_train d))"
    using assms(2) unfolding to_tensors_def np_rows_40 [OF assms(3)] bind_res_simps normalise_rows [OF len] by simp
  then show ?thesis using split_statistics [OF assms] by fastforce
qed

text \<open>
  C27: the training features are standardised. With the mean and the deviation of a split whose
  training part is not empty, \<^verbatim>\<open>to_tensors\<close> succeeds on the training samples; every column of the
  result has mean zero, and deviation one unless the feature was (almost) constant, in which
  case it is only centred. The targets are passed on unchanged.
\<close>

theorem training_features_standardised:
  assumes "split_dataset permutation samples tr vr = Inr d" and "ds_train d \<noteq> []"
    and "\<forall>s \<in> set (ds_train d). length (sm_features s) = 40"
  shows "\<exists>m s x. ds_feature_mean d = Some m \<and> ds_feature_std d = Some s \<and>
    to_tensors (ds_train d) m s = Inr (x, map sm_actual_output_tokens (ds_train d)) \<and>
    length x = length (ds_train d) \<and>
    (\<forall>j < 40. mean_of (column x j) = 0 \<and>
       std_of (column x j) = (if s ! j < 1 / 10 ^ 8 then s ! j else 1))"
proof -
  let ?rows = "map sm_features (ds_train d)"
  let ?m = "map (\<lambda>j. mean_of (column ?rows j)) [0..<40]" and ?s = "map (\<lambda>j. std_of (column ?rows j)) [0..<40]"
  let ?x = "map (\<lambda>r. map2 (/) (map2 (-) r ?m) (std_safe ?s)) ?rows"
  have ms: "ds_feature_mean d = Some ?m" "ds_feature_std d = Some ?s" using split_statistics [OF assms] by simp_all
  have len: "\<forall>r \<in> set ?rows. length r = length ?m" "length ?s = length ?m" using assms(3) by simp_all
  have t: "to_tensors (ds_train d) ?m ?s = Inr (?x, map sm_actual_output_tokens (ds_train d))"
    using training_tensors [OF assms] ms by force
  have col: "mean_of (column ?x j) = 0 \<and> std_of (column ?x j) = (if ?s ! j < 1 / 10 ^ 8 then ?s ! j else 1)"
    if j: "j < 40" for j
  proof -
    let ?c = "std_safe ?s ! j"
    have c: "0 < ?c" using std_safe_nth [of j ?s] j by (smt (verit) divide_pos_pos length_map length_upt minus_nat.diff_0 zero_less_power)
    have ne: "column ?rows j \<noteq> []" using assms(2) by (simp add: column_def)
    have "column ?x j = map (\<lambda>x. (x - mean_of (column ?rows j)) / ?c) (column ?rows j)"
      using column_normalised [OF len, of j] j by simp
    then have "mean_of (column ?x j) = 0" "std_of (column ?x j) = std_of (column ?rows j) / ?c"
      using mean_affine [OF ne] std_affine [OF ne c] by simp_all
    moreover have "std_of (column ?rows j) / ?c = (if ?s ! j < 1 / 10 ^ 8 then ?s ! j else 1)"
      using j c by (auto simp: std_safe_def)
    ultimately show ?thesis by simp
  qed
  show ?thesis
  proof (intro exI conjI allI impI)
    show "ds_feature_mean d = Some ?m" "ds_feature_std d = Some ?s" by (fact ms)+
    show "to_tensors (ds_train d) ?m ?s = Inr (?x, map sm_actual_output_tokens (ds_train d))" by (fact t)
  qed (use col in \<open>auto simp del: upt_Suc\<close>)
qed

theorem training_features_standardised_witness:
  "\<exists>d m s x y. split_dataset (\<lambda>n. [0..<n]) sample_data 1 0 = Inr d \<and> ds_feature_mean d = Some m \<and>
     ds_feature_std d = Some s \<and> to_tensors (ds_train d) m s = Inr (x, y) \<and> length x = 4 \<and> mean_of (column x 7) = 0"
proof -
  have f: "\<forall>s \<in> set sample_data. length (sm_features s) = 40" "length sample_data = 4"
    by (auto simp: sample_data_def)
  obtain d where d: "split_dataset (\<lambda>n. [0..<n]) sample_data 1 0 = Inr d"
    "mset (ds_train d @ ds_val d @ ds_test d) = mset sample_data" "int (length (ds_train d)) = trunc 4"
    using split_parts [of "\<lambda>n. [0..<n]" sample_data 1 0] f by auto
  have l: "length (ds_train d) = 4" using d(3) by (simp add: trunc_def)
  then have ne: "ds_train d \<noteq> []" by auto
  have "set (ds_train d) \<subseteq> set sample_data" using d(2) by (metis set_append set_mset_mset sup_ge1)
  with f(1) have "\<forall>s \<in> set (ds_train d). length (sm_features s) = 40" by blast
  from training_features_standardised [OF d(1) ne this] obtain m s x where
    "ds_feature_mean d = Some m" "ds_feature_std d = Some s"
    "to_tensors (ds_train d) m s = Inr (x, map sm_actual_output_tokens (ds_train d))"
    "length x = length (ds_train d)" "\<forall>j < 40. mean_of (column x j) = 0 \<and>
       std_of (column x j) = (if s ! j < 1 / 10 ^ 8 then s ! j else 1)" by blast
  moreover from this(5) have "mean_of (column x 7) = 0" by simp
  ultimately show ?thesis using d(1) l by auto
qed

text \<open>
  The cache answers for the data set. After a download, loading again (by the same name, or
  by any whose cache file coincides) returns exactly the samples of the first load and leaves
  the cache alone. Neither the rows the server would send now nor the requested prompt and
  output columns are looked at, since they are not part of the file's name. The codec is
  assumed to write a record as one line and to read it back, and the package of data sets to be
  installed both times.
\<close>

theorem cache_returns_first_download:
  assumes "dict_get cache (cache_key fmt name split n) = None"
    and "from_huggingface fmt loads dumps (Some (Inr rows)) name split n pk ok cache = (samples, cache')"
    and "\<forall>rec \<in> set (hf_records fmt n pk ok rows). json_object_line (dumps rec) \<and> loads (dumps rec) = Inr rec"
    and "cache_key fmt name' split' n' = cache_key fmt name split n"
  shows "from_huggingface fmt loads dumps (Some loaded) name' split' n' pk' ok' cache' = (samples, cache')"
proof -
  let ?path = "cache_key fmt name split n" and ?recs = "hf_records fmt n pk ok rows"
  have "samples = from_records fmt ?recs" "cache' = dict_set ?path (write_jsonl dumps ?recs) cache"
    using assms(1,2) by (simp_all add: from_huggingface_def Let_def)
  moreover from this(2) have "dict_get cache' ?path = Some (write_jsonl dumps ?recs)"
    by (simp add: dict_get_set)
  ultimately show ?thesis
    using jsonl_roundtrip [OF assms(3), of fmt] by (simp add: from_huggingface_def assms(4))
qed

theorem cache_returns_first_download_witness:
  "\<exists>samples cache'. from_huggingface (\<lambda>_. ''5'') (\<lambda>_. Inr [(''prompt'', PStr ''hi''), (''output'', PStr [])]) (\<lambda>_. ''{}'')
      (Some (Inr [[(''instruction'', PStr ''hi'')]])) ''a/b'' ''train'' 5 ''instruction'' ''output'' [] = (samples, cache') \<and>
     from_huggingface (\<lambda>_. ''5'') (\<lambda>_. Inr [(''prompt'', PStr ''hi''), (''output'', PStr [])]) (\<lambda>_. ''{}'')
      (Some (Inl TimeoutError)) ''a_b'' ''train'' 5 ''text'' ''response'' cache' = (samples, cache')"
proof -
  let ?loads = "\<lambda>_. Inr [(''prompt'', PStr ''hi''), (''output'', PStr [])]"
  let ?rows = "[[(''instruction'', PStr ''hi'')]]"
  obtain samples cache' where e: "from_huggingface (\<lambda>_. ''5'') ?loads (\<lambda>_. ''{}'') (Some (Inr ?rows)) ''a/b'' ''train'' 5
      ''instruction'' ''output'' [] = (samples, cache')" by force
  have k: "cache_key (\<lambda>_. ''5'') ''a_b'' ''train'' 5 = cache_key (\<lambda>_. ''5'') ''a/b'' ''train'' 5" by code_simp
  have "dict_get [] (cache_key (\<lambda>_. ''5'') ''a/b'' ''train'' 5) = None" by simp
  moreover have "hf_records (\<lambda>_. ''5'') 5 ''instruction'' ''output'' ?rows = [[(''prompt'', PStr ''hi''), (''output'', PStr [])]]"
    by (simp add: hf_records_def get_first_def List.map_filter_def)
  moreover have "json_object_line ''{}''" by (simp add: json_object_line_def line_end_def)
  ultimately show ?thesis using cache_returns_first_download [OF _ e _ k] e by simp
qed

text \<open>The candidate of iteration \<open>i\<close>; its sample never fails to be built.\<close>

definition candidate :: "(nat \<Rightarrow> draw) \<Rightarrow> nat \<Rightarrow> sample" where
  "candidate rng i =
     (let prompt = synthetic_prompt (rng i) i; fs = feature_values default_extractor prompt
      in \<lparr>sm_prompt = prompt, sm_features = fs,
          sm_actual_output_tokens = max 5 (real_of_int (dr_target (rng i)) + sum_list (take 5 fs) * (1 / 2) * (1 / 10)),
          sm_metadata = [(''source'', PStr ''synthetic'')]\<rparr>)"

lemma candidate_sample: "synthetic_sample (rng i) (synthetic_prompt (rng i) i) = Inr (candidate rng i)"
  by (simp add: synthetic_sample_def candidate_def extract_prompt_eq as_list_def Let_def)

lemma candidate_prompt [simp]: "sm_prompt (candidate rng i) = synthetic_prompt (rng i) i"
  by (simp add: candidate_def Let_def)

lemma synthetic_loop_eq:
  "int (length samples) \<le> n \<Longrightarrow>
   synthetic_loop hash rng n is seen samples =
     Inr (samples @ take (nat n - length samples) (dedup_loop hash seen (map (candidate rng) is)))"
proof (induction "is" arbitrary: seen samples)
  case (Cons i "is")
  show ?case
  proof (cases "int (length samples) \<ge> n")
    case True
    with Cons.prems show ?thesis by simp
  next
    case False
    then have "nat n - length samples = Suc (nat n - Suc (length samples))" by linarith
    with False Cons.IH [of samples seen] Cons.IH [of "samples @ [candidate rng i]" "insert (hash (synthetic_prompt (rng i) i)) seen"]
    show ?thesis by (auto simp: Let_def candidate_sample)
  qed
qed simp

text \<open>
  The synthetic generator. It always returns, after at most \<open>3 n\<close> iterations, the first \<open>n\<close>
  samples with different prompts among the \<open>3 n\<close> candidates it draws (fewer when there are not
  that many); every sample has forty features and a target of at least five tokens. The hash
  is assumed to distinguish the candidates' prompts.
\<close>

theorem synthetic_data_spec:
  assumes "0 \<le> n" and "inj_on hash ((\<lambda>i. synthetic_prompt (rng i) i) ` {0..<nat (n * 3)})"
  shows "\<exists>samples. generate_synthetic hash rng n = Inr samples \<and>
    samples = take (nat n) (first_by_prompt (map (candidate rng) [0..<nat (n * 3)])) \<and>
    int (length samples) \<le> n \<and> distinct (map sm_prompt samples) \<and>
    (\<forall>s \<in> set samples. length (sm_features s) = 40 \<and> 5 \<le> sm_actual_output_tokens s)"
proof -
  let ?cs = "map (candidate rng) [0..<nat (n * 3)]"
  let ?out = "take (nat n) (first_by_prompt ?cs)"
  have "inj_on hash (sm_prompt ` set ?cs)" using assms(2) by (simp add: image_image)
  then have "generate_synthetic hash rng n = Inr ?out"
    using synthetic_loop_eq [of "[]" n hash rng "[0..<nat (n * 3)]" "{}"] assms(1)
    by (simp add: generate_synthetic_def dedup_loop_spec)
  moreover have "distinct (map sm_prompt ?out)"
    using distinct_first_by_prompt [of ?cs] by (simp add: take_map [symmetric])
  moreover have "length (sm_features s) = 40 \<and> 5 \<le> sm_actual_output_tokens s" if "s \<in> set ?out" for s
  proof -
    have "s \<in> set ?cs" using that set_first_by_prompt [of ?cs] by (meson in_set_takeD subsetD)
    then show ?thesis by (auto simp: candidate_def Let_def length_feature_values)
  qed
  ultimately show ?thesis using assms(1) by auto
qed

definition sample_rng :: "nat \<Rightarrow> draw" where
  "sample_rng i = \<lparr>dr_template = (if i = 1 then 3 else if i = 2 then 3 else 0), dr_topic = i mod 6, dr_a = 0, dr_b = 1,
     dr_sentences = 3, dr_target = 30\<rparr>"

theorem synthetic_data_spec_witness:
  "\<exists>samples. generate_synthetic id sample_rng 2 = Inr samples \<and> length samples \<le> 2 \<and>
     distinct (map sm_prompt samples)"
  using synthetic_data_spec [of 2 id sample_rng] by auto

end
