(* ===== verification/Trainer.thy ===== *)
theory Trainer
  imports Dataset
begin

text \<open>
  The training loop of \<^verbatim>\<open>python/predictor/trainer.py\<close>: the epochs with their losses and metrics,
  early stopping, the best checkpoint, and \<^verbatim>\<open>resume\<close>. PyTorch (the network, the optimiser and its
  schedule, the data loaders, the Huber loss) is an argument; loggers, seeds and devices are in theory
  \<open>TrainerLogging\<close>. Infinity, the initial best loss, is \<open>None\<close>.
\<close>

section \<open>Configuration and results\<close>

record train_config =
  tr_hidden_dim :: int
  tr_dropout :: real
  tr_lr :: real
  tr_weight_decay :: real
  tr_batch_size :: int
  tr_epochs :: int
  tr_patience :: int
  tr_grad_clip :: real
  tr_seed :: int
  tr_use_amp :: bool
  tr_use_compile :: bool
  tr_checkpoint_dir :: string
  tr_log_dir :: string
  tr_device :: string

definition default_train_config :: train_config where
  "default_train_config = \<lparr>tr_hidden_dim = 128, tr_dropout = 1 / 10, tr_lr = 1 / 1000, tr_weight_decay = 1 / 10000,
     tr_batch_size = 256, tr_epochs = 50, tr_patience = 8, tr_grad_clip = 1, tr_seed = 42, tr_use_amp = True,
     tr_use_compile = False, tr_checkpoint_dir = ''models/checkpoints'', tr_log_dir = ''models/logs'', tr_device = ''auto''\<rparr>"

record train_metrics =
  tm_epoch :: nat
  tm_train_loss :: real
  tm_val_loss :: real
  tm_val_mae :: real
  tm_val_rmse :: real
  tm_val_r2 :: real
  tm_lr :: real

record train_result =
  tres_best_epoch :: nat
  tres_best_val_loss :: "real option"
  tres_metrics_history :: "train_metrics list"
  tres_checkpoint_path :: string
  tres_feature_mean :: "real list"
  tres_feature_std :: "real list"

text \<open>
  PyTorch's side: \<open>'m\<close> is the training state (parameters, optimiser, learning-rate schedule,
  scaler), \<open>'w\<close> a state dictionary. \<open>tc_step\<close> is one optimisation step on a batch and returns the
  loss; the loaders return the batches of an epoch.
\<close>

type_synonym row = "real list \<times> real"

record ('m, 'w) torch =
  tc_init :: "train_config \<Rightarrow> 'm"
  tc_step :: "'m \<Rightarrow> row list \<Rightarrow> real \<times> 'm"
  tc_forward :: "'m \<Rightarrow> real list \<Rightarrow> real"
  tc_loss :: "real list \<Rightarrow> real list \<Rightarrow> real"
  tc_sched_step :: "'m \<Rightarrow> 'm"
  tc_lr :: "'m \<Rightarrow> real"
  tc_state_dict :: "'m \<Rightarrow> 'w"
  tc_train_batches :: "nat \<Rightarrow> int \<Rightarrow> row list \<Rightarrow> row list list"
  tc_val_batches :: "int \<Rightarrow> row list \<Rightarrow> row list list"

section \<open>Metrics\<close>

text \<open>
  Defined for at least one sample (NumPy's mean of an empty array is a NaN); both lists have the
  same length.
\<close>

definition regression_metrics :: "real list \<Rightarrow> real list \<Rightarrow> real \<times> real \<times> real" where
  "regression_metrics y_true y_pred =
     (let diffs = map2 (-) y_true y_pred;
          mae = mean_of (map abs diffs);
          rmse = sqrt (mean_of (map (\<lambda>d. d\<^sup>2) diffs));
          ss_res = sum_list (map (\<lambda>d. d\<^sup>2) diffs);
          ss_tot = sum_list (map (\<lambda>y. (y - mean_of y_true)\<^sup>2) y_true);
          r2 = (if ss_tot > 0 then 1 - ss_res / ss_tot else 0)
      in (mae, rmse, r2))"

section \<open>Epochs\<close>

fun train_batches :: "('m, 'w) torch \<Rightarrow> row list list \<Rightarrow> real \<Rightarrow> nat \<Rightarrow> 'm \<Rightarrow> real \<times> nat \<times> 'm" where
  "train_batches T [] tot n m = (tot, n, m)"
| "train_batches T (b # bs) tot n m =
     (case tc_step T m b of (loss, m') \<Rightarrow>
        train_batches T bs (tot + loss * real (length b)) (n + length b) m')"

definition train_epoch :: "('m, 'w) torch \<Rightarrow> row list list \<Rightarrow> 'm \<Rightarrow> real \<times> 'm" where
  "train_epoch T loader m =
     (case train_batches T loader 0 0 m of (tot, n, m') \<Rightarrow> (tot / real (max n 1), m'))"

fun eval_batches ::
  "('m, 'w) torch \<Rightarrow> 'm \<Rightarrow> row list list \<Rightarrow> real \<Rightarrow> nat \<Rightarrow> real list \<Rightarrow> real list \<Rightarrow> real \<times> nat \<times> real list \<times> real list" where
  "eval_batches T m [] tot n preds targets = (tot, n, preds, targets)"
| "eval_batches T m (b # bs) tot n preds targets =
     (let pred = map (tc_forward T m \<circ> fst) b; yb = map snd b; loss = tc_loss T pred yb
      in eval_batches T m bs (tot + loss * real (length b)) (n + length b) (preds @ pred) (targets @ yb))"

definition eval_epoch :: "('m, 'w) torch \<Rightarrow> 'm \<Rightarrow> row list list \<Rightarrow> real \<times> real \<times> real \<times> real" where
  "eval_epoch T m loader =
     (case eval_batches T m loader 0 0 [] [] of (tot, n, preds, targets) \<Rightarrow>
        case regression_metrics targets preds of (mae, rmse, r2) \<Rightarrow> (tot / real (max n 1), mae, rmse, r2))"

section \<open>Training\<close>

record ('m, 'w) loop_state =
  ls_model :: 'm
  ls_best_val :: "real option"
  ls_best_epoch :: nat
  ls_patience_counter :: nat
  ls_history :: "train_metrics list"
  ls_saved :: "'w option"

text \<open>Training, evaluation and the step of the schedule in one epoch.\<close>

definition run_epoch :: "('m, 'w) torch \<Rightarrow> train_config \<Rightarrow> row list \<Rightarrow> row list \<Rightarrow> nat \<Rightarrow> 'm \<Rightarrow> train_metrics \<times> 'm" where
  "run_epoch T cfg train val epoch m =
     (case train_epoch T (tc_train_batches T epoch (tr_batch_size cfg) train) m of (train_loss, m1) \<Rightarrow>
      case eval_epoch T m1 (tc_val_batches T (tr_batch_size cfg) val) of (val_loss, mae, rmse, r2) \<Rightarrow>
      let m2 = tc_sched_step T m1
      in (\<lparr>tm_epoch = epoch, tm_train_loss = train_loss, tm_val_loss = val_loss, tm_val_mae = mae,
           tm_val_rmse = rmse, tm_val_r2 = r2, tm_lr = tc_lr T m2\<rparr>, m2))"

text \<open>The bookkeeping after an epoch, and whether training stops early.\<close>

definition book_epoch ::
  "('m \<Rightarrow> 'w) \<Rightarrow> int \<Rightarrow> nat \<Rightarrow> train_metrics \<Rightarrow> 'm \<Rightarrow> ('m, 'w) loop_state \<Rightarrow> bool \<times> ('m, 'w) loop_state" where
  "book_epoch state_dict patience epoch tm m s =
     (let s1 = s\<lparr>ls_model := m, ls_history := ls_history s @ [tm]\<rparr>
      in if (case ls_best_val s of None \<Rightarrow> True | Some b \<Rightarrow> tm_val_loss tm < b)
         then (False, s1\<lparr>ls_best_val := Some (tm_val_loss tm), ls_best_epoch := epoch, ls_patience_counter := 0,
                         ls_saved := Some (state_dict m)\<rparr>)
         else (let c = Suc (ls_patience_counter s)
               in (patience \<le> int c, s1\<lparr>ls_patience_counter := c\<rparr>)))"

fun train_loop ::
  "('m \<Rightarrow> 'w) \<Rightarrow> int \<Rightarrow> (nat \<Rightarrow> 'm \<Rightarrow> train_metrics \<times> 'm) \<Rightarrow> nat list \<Rightarrow> ('m, 'w) loop_state \<Rightarrow> ('m, 'w) loop_state" where
  "train_loop state_dict patience run [] s = s"
| "train_loop state_dict patience run (e # es) s =
     (case run e (ls_model s) of (tm, m) \<Rightarrow>
      case book_epoch state_dict patience e tm m s of (stop, s') \<Rightarrow>
        if stop then s' else train_loop state_dict patience run es s')"

definition loop_start :: "'m \<Rightarrow> ('m, 'w) loop_state" where
  "loop_start m = \<lparr>ls_model = m, ls_best_val = None, ls_best_epoch = 0, ls_patience_counter = 0,
     ls_history = [], ls_saved = None\<rparr>"

text \<open>\<^verbatim>\<open>_make_loaders\<close>. Without training data the mean is a NaN and the shuffling loader rejects the empty set.\<close>

definition make_loaders :: "dataset_splits \<Rightarrow> (row list \<times> row list) pyres" where
  "make_loaders d =
     (case (ds_feature_mean d, ds_feature_std d) of
        (Some m, Some s) \<Rightarrow>
          bind_res (to_tensors (ds_train d) m s) (\<lambda>(xt, yt).
          bind_res (to_tensors (ds_val d) m s) (\<lambda>(xv, yv). Inr (zip xt yt, zip xv yv)))
      | _ \<Rightarrow> Inl (ValueError ''no training data''))"

definition path_join :: "string \<Rightarrow> string \<Rightarrow> string" where
  "path_join d f = d @ ''/'' @ f"

text \<open>\<open>files\<close> are the state dictionaries on disk.\<close>

definition train :: "('m, 'w) torch \<Rightarrow> train_config \<Rightarrow> dataset_splits \<Rightarrow> (string, 'w) dict \<Rightarrow>
  (train_result \<times> (string, 'w) dict) pyres" where
  "train T cfg d files =
     bind_res (make_loaders d) (\<lambda>(tr, va).
       let s = train_loop (tc_state_dict T) (tr_patience cfg) (run_epoch T cfg tr va)
                 [1..<Suc (nat (tr_epochs cfg))] (loop_start (tc_init T cfg));
           path = path_join (tr_checkpoint_dir cfg) ''best.pt''
       in Inr (\<lparr>tres_best_epoch = ls_best_epoch s, tres_best_val_loss = ls_best_val s,
                tres_metrics_history = ls_history s, tres_checkpoint_path = path,
                tres_feature_mean = the (ds_feature_mean d), tres_feature_std = the (ds_feature_std d)\<rparr>,
               (case ls_saved s of None \<Rightarrow> files | Some wts \<Rightarrow> dict_set path wts files)))"

text \<open>\<open>loads w\<close>: whether the default network accepts the state dictionary.\<close>

definition resume :: "('m, 'w) torch \<Rightarrow> ('w \<Rightarrow> bool) \<Rightarrow> train_config \<Rightarrow> dataset_splits \<Rightarrow> string \<Rightarrow> (string, 'w) dict \<Rightarrow>
  (train_result \<times> (string, 'w) dict) pyres" where
  "resume T loads cfg d checkpoint files =
     (case dict_get files checkpoint of
        None \<Rightarrow> Inl (OtherError ''FileNotFoundError'')
      | Some wts \<Rightarrow>
          if loads wts then train T cfg d (dict_set (path_join (tr_checkpoint_dir cfg) ''resume_base.pt'') wts files)
          else Inl (OtherError ''RuntimeError''))"

section \<open>Facts\<close>

text \<open>The states and the losses of training without early stopping.\<close>

fun after :: "(nat \<Rightarrow> 'm \<Rightarrow> train_metrics \<times> 'm) \<Rightarrow> 'm \<Rightarrow> nat \<Rightarrow> 'm" where
  "after run m 0 = m"
| "after run m (Suc k) = snd (run (Suc k) (after run m k))"

definition metrics_at :: "(nat \<Rightarrow> 'm \<Rightarrow> train_metrics \<times> 'm) \<Rightarrow> 'm \<Rightarrow> nat \<Rightarrow> train_metrics" where
  "metrics_at run m k = fst (run k (after run m (k - 1)))"

abbreviation loss_at :: "(nat \<Rightarrow> 'm \<Rightarrow> train_metrics \<times> 'm) \<Rightarrow> 'm \<Rightarrow> nat \<Rightarrow> real" where
  "loss_at run m k \<equiv> tm_val_loss (metrics_at run m k)"

text \<open>The loop's state after \<open>k\<close> epochs: \<open>b\<close> is the first epoch with the least loss.\<close>

definition best_so_far :: "(nat \<Rightarrow> 'm \<Rightarrow> train_metrics \<times> 'm) \<Rightarrow> 'm \<Rightarrow> nat \<Rightarrow> nat \<Rightarrow> bool" where
  "best_so_far run m k b \<longleftrightarrow> 1 \<le> b \<and> b \<le> k \<and> (\<forall>i. 1 \<le> i \<and> i \<le> k \<longrightarrow> loss_at run m b \<le> loss_at run m i) \<and>
     (\<forall>i. 1 \<le> i \<and> i < b \<longrightarrow> loss_at run m b < loss_at run m i)"

definition loop_inv ::
  "('m \<Rightarrow> 'w) \<Rightarrow> (nat \<Rightarrow> 'm \<Rightarrow> train_metrics \<times> 'm) \<Rightarrow> 'm \<Rightarrow> nat \<Rightarrow> ('m, 'w) loop_state \<Rightarrow> bool" where
  "loop_inv sd run m k s \<longleftrightarrow>
     ls_model s = after run m k \<and> ls_history s = map (metrics_at run m) [1..<Suc k] \<and>
     (if k = 0 then s = loop_start m
      else best_so_far run m k (ls_best_epoch s) \<and> ls_best_val s = Some (loss_at run m (ls_best_epoch s)) \<and>
           ls_patience_counter s = k - ls_best_epoch s \<and> ls_saved s = Some (sd (after run m (ls_best_epoch s))))"

lemma book_epoch_inv:
  assumes "loop_inv sd run m k s" and "run (Suc k) (ls_model s) = (tm, m')"
    and "book_epoch sd patience (Suc k) tm m' s = (stop, s')"
  shows "loop_inv sd run m (Suc k) s'"
    and "stop \<longleftrightarrow> ls_best_epoch s' \<noteq> Suc k \<and> patience \<le> int (Suc k - ls_best_epoch s')"
proof -
  have run: "after run m (Suc k) = m'" "metrics_at run m (Suc k) = tm"
    using assms(1,2) by (auto simp: loop_inv_def metrics_at_def)
  have hist: "ls_model s' = after run m (Suc k)" "ls_history s' = map (metrics_at run m) [1..<Suc (Suc k)]"
    using assms(1,3) run by (auto simp: loop_inv_def book_epoch_def Let_def split: if_splits)
  have "loop_inv sd run m (Suc k) s' \<and> (stop \<longleftrightarrow> ls_best_epoch s' \<noteq> Suc k \<and> patience \<le> int (Suc k - ls_best_epoch s'))"
  proof (cases "k = 0")
    case True
    then have "s = loop_start m" using assms(1) by (simp add: loop_inv_def)
    with True assms(3) run hist show ?thesis
      by (auto simp: loop_inv_def loop_start_def book_epoch_def best_so_far_def Let_def)
  next
    case False
    let ?b = "ls_best_epoch s"
    have b: "best_so_far run m k ?b" "ls_best_val s = Some (loss_at run m ?b)"
      "ls_patience_counter s = k - ?b" "ls_saved s = Some (sd (after run m ?b))"
      using assms(1) False by (simp_all add: loop_inv_def)
    show ?thesis
    proof (cases "loss_at run m (Suc k) < loss_at run m ?b")
      case True
      have "best_so_far run m (Suc k) (Suc k)"
        using True b(1) unfolding best_so_far_def by (metis Suc_leI le_Suc_eq le_refl less_Suc_eq_le less_eq_real_def order_less_le_trans zero_less_Suc)
      with True assms(3) b run hist show ?thesis
        by (auto simp: loop_inv_def book_epoch_def Let_def)
    next
      case False
      have "best_so_far run m (Suc k) ?b"
        using False b(1) unfolding best_so_far_def by (metis le_Suc_eq linorder_not_less)
      moreover have "?b \<le> k" using b(1) by (simp add: best_so_far_def)
      ultimately show ?thesis
        using False assms(3) b run hist by (auto simp: loop_inv_def book_epoch_def Let_def Suc_diff_le)
    qed
  qed
  then show "loop_inv sd run m (Suc k) s'"
    "stop \<longleftrightarrow> ls_best_epoch s' \<noteq> Suc k \<and> patience \<le> int (Suc k - ls_best_epoch s')" by blast+
qed

text \<open>The patience is exhausted after epoch \<open>i\<close>.\<close>

definition impatient :: "(nat \<Rightarrow> 'm \<Rightarrow> train_metrics \<times> 'm) \<Rightarrow> 'm \<Rightarrow> int \<Rightarrow> nat \<Rightarrow> bool" where
  "impatient run m patience i \<longleftrightarrow> (\<exists>b. best_so_far run m i b \<and> b < i \<and> patience \<le> int (i - b))"

lemma best_so_far_unique: "best_so_far run m k b \<Longrightarrow> best_so_far run m k b' \<Longrightarrow> b = b'"
  unfolding best_so_far_def by (meson linorder_neqE_nat not_less order_less_imp_le)

lemma best_so_far_prefix: "best_so_far run m k b \<Longrightarrow> b \<le> j \<Longrightarrow> j \<le> k \<Longrightarrow> best_so_far run m j b"
  unfolding best_so_far_def by auto

lemma stop_iff_impatient:
  assumes "loop_inv sd run m (Suc k) s"
  shows "ls_best_epoch s \<noteq> Suc k \<and> patience \<le> int (Suc k - ls_best_epoch s) \<longleftrightarrow> impatient run m patience (Suc k)"
proof -
  have "best_so_far run m (Suc k) (ls_best_epoch s)" using assms by (simp add: loop_inv_def)
  with best_so_far_unique [OF this] show ?thesis
    unfolding impatient_def by (metis best_so_far_def le_neq_implies_less less_irrefl)
qed

lemma train_loop_run:
  assumes "loop_inv sd run m k s" and "k \<le> n"
  shows "\<exists>j. k \<le> j \<and> j \<le> n \<and> (k < n \<longrightarrow> k < j) \<and> loop_inv sd run m j (train_loop sd patience run [Suc k..<Suc n] s) \<and>
    (j < n \<longrightarrow> impatient run m patience j) \<and> (\<forall>i. k < i \<and> i < j \<longrightarrow> \<not> impatient run m patience i)"
  using assms
proof (induction "n - k" arbitrary: k s)
  case 0
  then show ?case by auto
next
  case (Suc d)
  then have kn: "k < n" by simp
  then have up: "[Suc k..<Suc n] = Suc k # [Suc (Suc k)..<Suc n]" by (simp add: upt_rec)
  obtain tm m' where r: "run (Suc k) (ls_model s) = (tm, m')" by force
  obtain stop s' where b: "book_epoch sd patience (Suc k) tm m' s = (stop, s')" by force
  note inv = book_epoch_inv [OF Suc.prems(1) r b]
  note stop = inv(2) [unfolded stop_iff_impatient [OF inv(1)]]
  show ?case
  proof (cases stop)
    case True
    with up r b inv(1) stop kn show ?thesis by (intro exI [of _ "Suc k"]) auto
  next
    case False
    have "\<exists>j. Suc k \<le> j \<and> j \<le> n \<and> (Suc k < n \<longrightarrow> Suc k < j) \<and>
        loop_inv sd run m j (train_loop sd patience run [Suc (Suc k)..<Suc n] s') \<and>
        (j < n \<longrightarrow> impatient run m patience j) \<and> (\<forall>i. Suc k < i \<and> i < j \<longrightarrow> \<not> impatient run m patience i)"
      using Suc.hyps(2) kn by (intro Suc.hyps(1) inv(1)) auto
    then obtain j where j: "Suc k \<le> j" "j \<le> n" "loop_inv sd run m j (train_loop sd patience run [Suc (Suc k)..<Suc n] s')"
      "j < n \<longrightarrow> impatient run m patience j" "\<forall>i. Suc k < i \<and> i < j \<longrightarrow> \<not> impatient run m patience i" by blast
    have "\<not> impatient run m patience i" if "k < i" "i < j" for i
      using that j(5) False stop by (cases "i = Suc k") auto
    with j False up r b show ?thesis by (intro exI [of _ j]) auto
  qed
qed

section \<open>Properties\<close>

text \<open>
  C30: training stops and keeps the best model. Whenever the data can be loaded, training returns.
  It runs the first \<open>j\<close> of the configured epochs, where \<open>j\<close> is the first epoch after which the
  patience is exhausted, or all of them; at most \<open>max 1 patience\<close> epochs follow the best one. If
  any epoch ran, the result names the first epoch with the least validation loss and that loss,
  and the checkpoint holds the parameters the model had after exactly that epoch.
\<close>

theorem early_stopping_keeps_best:
  assumes "make_loaders d = Inr (tr, va)" and "run = run_epoch T cfg tr va" and "m0 = tc_init T cfg"
  shows "\<exists>res files' j. train T cfg d files = Inr (res, files') \<and> j \<le> nat (tr_epochs cfg) \<and>
    tres_metrics_history res = map (metrics_at run m0) [1..<Suc j] \<and>
    (j < nat (tr_epochs cfg) \<longrightarrow> impatient run m0 (tr_patience cfg) j) \<and>
    (\<forall>i. 0 < i \<and> i < j \<longrightarrow> \<not> impatient run m0 (tr_patience cfg) i) \<and>
    (if tr_epochs cfg \<le> 0 then tres_best_val_loss res = None \<and> files' = files
     else best_so_far run m0 j (tres_best_epoch res) \<and>
       int j \<le> int (tres_best_epoch res) + max 1 (tr_patience cfg) \<and>
       tres_best_val_loss res = Some (loss_at run m0 (tres_best_epoch res)) \<and>
       dict_get files' (tres_checkpoint_path res) = Some (tc_state_dict T (after run m0 (tres_best_epoch res))))"
proof -
  let ?n = "nat (tr_epochs cfg)" and ?p = "tr_patience cfg"
  let ?s = "train_loop (tc_state_dict T) ?p run [Suc 0..<Suc ?n] (loop_start m0)"
  have "loop_inv (tc_state_dict T) run m0 0 (loop_start m0)" by (simp add: loop_inv_def loop_start_def)
  from train_loop_run [OF this, of ?n ?p] obtain j where
    j: "j \<le> ?n" "0 < ?n \<longrightarrow> 0 < j" "loop_inv (tc_state_dict T) run m0 j ?s"
      "j < ?n \<longrightarrow> impatient run m0 ?p j" "\<forall>i. 0 < i \<and> i < j \<longrightarrow> \<not> impatient run m0 ?p i" by auto
  define res where "res = \<lparr>tres_best_epoch = ls_best_epoch ?s, tres_best_val_loss = ls_best_val ?s,
    tres_metrics_history = ls_history ?s, tres_checkpoint_path = path_join (tr_checkpoint_dir cfg) ''best.pt'',
    tres_feature_mean = the (ds_feature_mean d), tres_feature_std = the (ds_feature_std d)\<rparr>"
  define files' where "files' = (case ls_saved ?s of None \<Rightarrow> files | Some wts \<Rightarrow>
    dict_set (path_join (tr_checkpoint_dir cfg) ''best.pt'') wts files)"
  have t: "train T cfg d files = Inr (res, files')" "tres_best_epoch res = ls_best_epoch ?s"
    "tres_best_val_loss res = ls_best_val ?s" "tres_metrics_history res = ls_history ?s"
    "tres_checkpoint_path res = path_join (tr_checkpoint_dir cfg) ''best.pt''"
    unfolding files'_def res_def train_def Let_def assms by (simp_all del: upt_Suc)
  have "int j \<le> int (ls_best_epoch ?s) + max 1 ?p" if "0 < j"
  proof (rule ccontr)
    assume a: "\<not> ?thesis"
    let ?b = "ls_best_epoch ?s"
    have b: "best_so_far run m0 j ?b" using j(3) that by (simp add: loop_inv_def)
    have "best_so_far run m0 (j - 1) ?b" using a by (intro best_so_far_prefix [OF b]) auto
    then have "impatient run m0 ?p (j - 1)" unfolding impatient_def using a by (intro exI [of _ ?b]) auto
    moreover have "0 < j - 1" "j - 1 < j" using a that b by (auto simp: best_so_far_def)
    ultimately show False using j(5) by blast
  qed
  with t j show ?thesis
    by (intro exI [of _ res] exI [of _ files'] exI [of _ j])
       (auto simp: loop_inv_def loop_start_def files'_def dict_simps simp del: upt_Suc)
qed

text \<open>
  A training run on a network that is its number of epochs: the validation losses are 5, 3, 4, 4
  and then 1, with a patience of two.
\<close>

definition sample_torch :: "(nat, nat) torch" where
  "sample_torch = \<lparr>tc_init = (\<lambda>_. 0), tc_step = (\<lambda>m b. (1, Suc m)), tc_forward = (\<lambda>m x. [0, 5, 3, 4, 4, 1, 1] ! m),
     tc_loss = (\<lambda>ps ys. hd ps), tc_sched_step = id, tc_lr = (\<lambda>_. 0), tc_state_dict = id,
     tc_train_batches = (\<lambda>e b xs. [xs]), tc_val_batches = (\<lambda>b xs. [xs])\<rparr>"

definition sample_splits :: dataset_splits where
  "sample_splits = (let s = \<lparr>sm_prompt = ''p'', sm_features = [1], sm_actual_output_tokens = 7, sm_metadata = []\<rparr>
     in \<lparr>ds_train = [s], ds_val = [s], ds_test = [], ds_feature_mean = Some [0], ds_feature_std = Some [1]\<rparr>)"

lemma sample_loaders: "make_loaders sample_splits = Inr ([([1], 7)], [([1], 7)])"
  by (simp add: make_loaders_def sample_splits_def to_tensors_def np_rows_def normalise_def np_bcast_def std_safe_def Let_def)

theorem early_stopping_keeps_best_witness:
  "\<exists>res files' j. train sample_torch (default_train_config\<lparr>tr_patience := 2, tr_epochs := 6\<rparr>) sample_splits [] = Inr (res, files') \<and>
     length (tres_metrics_history res) = j \<and> j \<le> 6 \<and> j \<le> tres_best_epoch res + 2 \<and>
     dict_get files' (tres_checkpoint_path res) =
       Some (after (run_epoch sample_torch (default_train_config\<lparr>tr_patience := 2, tr_epochs := 6\<rparr>) [([1], 7)] [([1], 7)]) 0
         (tres_best_epoch res))"
proof -
  let ?cfg = "default_train_config\<lparr>tr_patience := 2, tr_epochs := 6\<rparr>"
  have t: "tc_init sample_torch ?cfg = 0" "tc_state_dict sample_torch = id" "tr_epochs ?cfg = 6" "tr_patience ?cfg = 2"
    by (simp_all add: sample_torch_def)
  let ?run = "run_epoch sample_torch ?cfg [([1], 7)] [([1], 7)]"
  obtain res files' j where r: "train sample_torch ?cfg sample_splits [] = Inr (res, files')" "j \<le> nat (tr_epochs ?cfg)"
    "tres_metrics_history res = map (metrics_at ?run (tc_init sample_torch ?cfg)) [1..<Suc j]"
    "if tr_epochs ?cfg \<le> 0 then tres_best_val_loss res = None \<and> files' = []
     else best_so_far ?run (tc_init sample_torch ?cfg) j (tres_best_epoch res) \<and>
       int j \<le> int (tres_best_epoch res) + max 1 (tr_patience ?cfg) \<and>
       tres_best_val_loss res = Some (loss_at ?run (tc_init sample_torch ?cfg) (tres_best_epoch res)) \<and>
       dict_get files' (tres_checkpoint_path res) =
         Some (tc_state_dict sample_torch (after ?run (tc_init sample_torch ?cfg) (tres_best_epoch res)))"
    using early_stopping_keeps_best [OF sample_loaders refl refl, of sample_torch ?cfg "[]"] by blast
  have "length (tres_metrics_history res) = j" using r(3) by simp
  with r show ?thesis unfolding t by (intro exI [of _ res] exI [of _ files'] exI [of _ j]) simp
qed

text \<open>Means.\<close>

lemma sum_squares_shift:
  "sum_list (map (\<lambda>x. (x - a)\<^sup>2) xs) = sum_list (map (\<lambda>x. x\<^sup>2) xs) - 2 * a * sum_list xs + real (length xs) * a\<^sup>2"
  by (induction xs) (auto simp: power2_eq_square algebra_simps)

lemma mean_le_rms: "(mean_of xs)\<^sup>2 \<le> mean_of (map (\<lambda>x. x\<^sup>2) xs)"
proof (cases "xs = []")
  case False
  let ?n = "real (length xs)" and ?a = "mean_of xs"
  have n: "0 < ?n" using False by simp
  have s: "sum_list xs = ?n * ?a" using n by (simp add: mean_of_def)
  have "0 \<le> sum_list (map (\<lambda>x. (x - ?a)\<^sup>2) xs)" by (intro sum_list_nonneg) auto
  also have "\<dots> = sum_list (map (\<lambda>x. x\<^sup>2) xs) - ?n * ?a\<^sup>2"
    unfolding sum_squares_shift s by (simp add: power2_eq_square)
  finally have "?a\<^sup>2 * ?n \<le> sum_list (map (\<lambda>x. x\<^sup>2) xs)" by (simp add: mult.commute)
  then have "?a\<^sup>2 \<le> sum_list (map (\<lambda>x. x\<^sup>2) xs) / ?n" using n by (simp add: pos_le_divide_eq)
  then show ?thesis by (simp add: mean_of_def)
qed (simp add: mean_of_def)

lemma eval_batches_eq:
  "eval_batches T m bs tot n preds targets =
     (tot + sum_list (map (\<lambda>b. tc_loss T (map (tc_forward T m \<circ> fst) b) (map snd b) * real (length b)) bs),
      n + length (concat bs), preds @ map (tc_forward T m \<circ> fst) (concat bs), targets @ map snd (concat bs))"
  by (induction bs arbitrary: tot n preds targets) (auto simp: Let_def)

lemma batch_losses:
  assumes "\<And>ps ys. length ps = length ys \<Longrightarrow> tc_loss T ps ys = mean_of (map2 l ps ys)"
  shows "sum_list (map (\<lambda>b. tc_loss T (map (tc_forward T m \<circ> fst) b) (map snd b) * real (length b)) bs)
    = sum_list (map (\<lambda>(x, y). l (tc_forward T m x) y) (concat bs))"
proof (induction bs)
  case (Cons b bs)
  have "map2 l (map (tc_forward T m \<circ> fst) b) (map snd b) = map (\<lambda>(x, y). l (tc_forward T m x) y) b"
    by (induction b) auto
  then have "tc_loss T (map (tc_forward T m \<circ> fst) b) (map snd b) * real (length b)
      = sum_list (map (\<lambda>(x, y). l (tc_forward T m x) y) b)"
    by (cases "b = []") (simp_all add: assms mean_of_def del: map_map)
  then show ?case by (simp only: list.map sum_list.Cons concat.simps map_append sum_list_append Cons)
qed simp

text \<open>
  C33: validation metrics. If the loss is a mean over the batch (PyTorch's default reduction) and
  the loader delivers the data in batches of any sizes, the validation loss of an epoch is the
  mean loss over all samples, independent of the batching; the mean absolute error never
  exceeds the root mean square error, and the coefficient of determination never exceeds one.
\<close>

theorem validation_metrics_sound:
  assumes "\<And>ps ys. length ps = length ys \<Longrightarrow> tc_loss T ps ys = mean_of (map2 l ps ys)"
    and "concat loader = data" and "data \<noteq> []"
    and "eval_epoch T m loader = (loss, mae, rmse, r2)"
  shows "loss = mean_of (map (\<lambda>(x, y). l (tc_forward T m x) y) data) \<and> 0 \<le> mae \<and> mae \<le> rmse \<and> r2 \<le> 1 \<and>
    mae = mean_of (map (\<lambda>(x, y). \<bar>y - tc_forward T m x\<bar>) data)"
proof -
  let ?ds = "map2 (-) (map snd data) (map (tc_forward T m \<circ> fst) data)"
  have n: "real (max (length data) 1) = real (length data)" using assms(3) by (cases data) auto
  have ev: "eval_batches T m loader 0 0 [] [] = (sum_list (map (\<lambda>(x, y). l (tc_forward T m x) y) data), length data,
      map (tc_forward T m \<circ> fst) data, map snd data)"
    using batch_losses [OF assms(1), of m loader] by (simp add: eval_batches_eq assms(2) del: map_map)
  have "0 \<le> sum_list (map (\<lambda>d. d\<^sup>2) ?ds)" by (intro sum_list_nonneg) auto
  then have e: "loss = sum_list (map (\<lambda>(x, y). l (tc_forward T m x) y) data) / real (length data)"
    "mae = mean_of (map abs ?ds)" "rmse = sqrt (mean_of (map (\<lambda>d. d\<^sup>2) ?ds))" "r2 \<le> 1"
    using assms(4) n unfolding eval_epoch_def ev regression_metrics_def Let_def
    by (auto simp del: map_map split: if_splits)
  have "0 \<le> mae" unfolding e(2) mean_of_def by (intro divide_nonneg_nonneg sum_list_nonneg) auto
  moreover have "mae\<^sup>2 \<le> mean_of (map (\<lambda>d. d\<^sup>2) ?ds)"
    unfolding e(2) using mean_le_rms [of "map abs ?ds"] by (simp add: comp_def)
  ultimately have "mae \<le> rmse" unfolding e(3) by (simp add: real_le_rsqrt)
  moreover have "map abs ?ds = map (\<lambda>(x, y). \<bar>y - tc_forward T m x\<bar>) data" by (induction data) auto
  ultimately show ?thesis using e \<open>0 \<le> mae\<close> by (simp add: mean_of_def)
qed

theorem validation_metrics_sound_witness:
  "\<exists>loss mae rmse r2. eval_epoch (sample_torch\<lparr>tc_forward := (\<lambda>m x. hd x), tc_loss := (\<lambda>ps ys. mean_of (map2 (\<lambda>p y. \<bar>p - y\<bar>) ps ys))\<rparr>) 0
      [[([1], 3), ([2], 2)], [([5], 1)]] = (loss, mae, rmse, r2) \<and> loss = 2 \<and> mae \<le> rmse \<and> r2 \<le> 1"
proof -
  let ?T = "sample_torch\<lparr>tc_forward := (\<lambda>m x. hd x), tc_loss := (\<lambda>ps ys. mean_of (map2 (\<lambda>p y. \<bar>p - y\<bar>) ps ys))\<rparr>"
  let ?loader = "[[([1], 3), ([2], 2)], [([5], 1)]] :: row list list"
  obtain loss mae rmse r2 where e: "eval_epoch ?T 0 ?loader = (loss, mae, rmse, r2)" by (metis prod.exhaust)
  have c: "concat ?loader = [([1], 3), ([2], 2), ([5], 1)]" by simp
  have l: "tc_loss ?T ps ys = mean_of (map2 (\<lambda>p y. \<bar>p - y\<bar>) ps ys)" for ps ys by simp
  from validation_metrics_sound [OF l c _ e] have "loss = 2 \<and> mae \<le> rmse \<and> r2 \<le> 1" by (simp add: mean_of_def)
  with e show ?thesis by blast
qed

text \<open>
  Resuming starts over. \<^verbatim>\<open>resume\<close> is documented to continue from a checkpoint; what it returns
  is exactly what training from scratch returns, whatever the checkpoint holds (as long as the
  default network accepts it), and the best checkpoint it leaves behind is the same as well.
\<close>

theorem resume_starts_over:
  assumes "dict_get files checkpoint = Some wts" and "loads wts" and "0 < tr_epochs cfg"
  shows "map_sum id fst (resume T loads cfg d checkpoint files) = map_sum id fst (train T cfg d files) \<and>
    (\<forall>res f res' f'. resume T loads cfg d checkpoint files = Inr (res, f) \<and> train T cfg d files = Inr (res', f') \<longrightarrow>
       dict_get f (tres_checkpoint_path res) = dict_get f' (tres_checkpoint_path res'))"
proof (cases "make_loaders d")
  case (Inl e)
  with assms show ?thesis by (simp add: resume_def train_def)
next
  case (Inr l)
  obtain tr va where l: "make_loaders d = Inr (tr, va)" using Inr by (cases l) auto
  let ?files = "dict_set (path_join (tr_checkpoint_dir cfg) ''resume_base.pt'') wts files"
  note e = early_stopping_keeps_best [OF l refl refl]
  obtain res f where 1: "train T cfg d files = Inr (res, f)" using e [of T cfg files] by blast
  obtain res' f' where 2: "train T cfg d ?files = Inr (res', f')" using e [of T cfg ?files] by blast
  have r: "res' = res" using 1 2 l by (auto simp: train_def Let_def)
  have "dict_get f (tres_checkpoint_path res) = dict_get f' (tres_checkpoint_path res)"
    using e [of T cfg files] e [of T cfg ?files] 1 2 r assms(3) by auto
  with 1 2 r assms(1,2) show ?thesis by (simp add: resume_def)
qed

theorem resume_starts_over_witness:
  "map_sum id fst (resume sample_torch (\<lambda>_. True) default_train_config sample_splits ''old.pt'' [(''old.pt'', 99)])
     = map_sum id fst (train sample_torch default_train_config sample_splits [(''old.pt'', 99)])"
  using resume_starts_over [of "[(''old.pt'', 99)]" "''old.pt''" 99 "\<lambda>_. True" default_train_config sample_torch sample_splits]
  by (simp add: default_train_config_def)

text \<open>
  Small data sets cannot be trained on. When the validation share rounds down to no sample
  (with the default ratios: fewer than ten samples), the split itself succeeds, but training
  raises the broadcasting error of the empty validation array, whatever the configuration, and
  writes no checkpoint.
\<close>

theorem empty_validation_breaks_training:
  assumes "\<And>n. mset (permutation n) = mset [0..<n]" and "\<forall>s \<in> set samples. length (sm_features s) = 40"
    and "0 \<le> tr" and "0 \<le> vr" and "tr + vr \<le> 1"
    and "1 \<le> real (length samples) * tr" and "real (length samples) * vr < 1"
  shows "\<exists>d. split_dataset permutation samples tr vr = Inr d \<and> ds_val d = [] \<and>
    (\<forall>(T :: ('m, 'w) torch) cfg files. train T cfg d files = Inl (ValueError ''operands could not be broadcast together''))"
proof -
  obtain d where d: "split_dataset permutation samples tr vr = Inr d"
    "mset (ds_train d @ ds_val d @ ds_test d) = mset samples"
    "int (length (ds_train d)) = trunc (real (length samples) * tr)"
    "int (length (ds_val d)) = trunc (real (length samples) * vr)"
    using split_parts [OF assms(1-5)] by blast
  have "0 \<le> real (length samples) * vr" using assms(4) by simp
  with d(4) assms(7) have val: "ds_val d = []" by (simp add: trunc_nonneg floor_unique [of 0])
  have "1 \<le> trunc (real (length samples) * tr)" using assms(6) by (simp add: trunc_nonneg le_floor_iff)
  with d(3) have ne: "ds_train d \<noteq> []" by auto
  have "set (ds_train d) \<subseteq> set samples" using d(2) by (metis set_append set_mset_mset sup_ge1)
  with assms(2) have f: "\<forall>s \<in> set (ds_train d). length (sm_features s) = 40" by blast
  obtain m s x where ms: "ds_feature_mean d = Some m" "ds_feature_std d = Some s"
    "to_tensors (ds_train d) m s = Inr (x, map sm_actual_output_tokens (ds_train d))"
    using training_tensors [OF d(1) ne f] by blast
  have "length m = 40" using feature_mean_length [OF d(1) ne f ms(1)] .
  then have "to_tensors (ds_val d) m s = Inl (ValueError ''operands could not be broadcast together'')"
    by (simp add: val to_tensors_def normalise_def np_bcast_def)
  with ms have "make_loaders d = Inl (ValueError ''operands could not be broadcast together'')"
    by (simp add: make_loaders_def)
  with d(1) val show ?thesis by (simp add: train_def)
qed

theorem empty_validation_breaks_training_witness:
  "\<exists>d. split_dataset (\<lambda>n. [0..<n]) sample_data (8 / 10) (1 / 10) = Inr d \<and>
     train sample_torch default_train_config d [] = Inl (ValueError ''operands could not be broadcast together'')"
proof -
  have s: "\<forall>s \<in> set sample_data. length (sm_features s) = 40" "length sample_data = 4" by (auto simp: sample_data_def)
  show ?thesis
    using empty_validation_breaks_training [of "\<lambda>n. [0..<n]" sample_data "8 / 10" "1 / 10", where 'm = nat and 'w = nat] s by auto
qed

end
