(* ===== verification/TrainingPipeline.thy ===== *)
theory TrainingPipeline
  imports Trainer
begin

text \<open>
  The training scripts and the export: \<^verbatim>\<open>python/training/prepare_dataset.py\<close>, \<^verbatim>\<open>train.py\<close> and
  \<^verbatim>\<open>evaluate.py\<close>, and \<^verbatim>\<open>python/predictor/export.py\<close>. The configuration is a record here (theory
  \<^verbatim>\<open>TrainingScripts\<close> reads it from the file); the preset loader, the permutation of the split, the correlation
  coefficients and PyTorch are arguments. A network is \<open>width\<close> wide; \<open>fits h w\<close> says whether a
  network of hidden width \<open>h\<close> accepts the state dictionary \<open>w\<close>.
\<close>

section \<open>Configuration\<close>

record dataset_config =
  dc_preset :: string
  dc_max_samples :: int
  dc_train_ratio :: real
  dc_val_ratio :: real
  dc_seed :: int

record script_config =
  sc_dataset :: dataset_config
  sc_training :: train_config
  sc_output_dir :: string
  sc_model_version :: string

text \<open>What the scripts get from elsewhere.\<close>

record ('m, 'w) script_env =
  se_torch :: "('m, 'w) torch"
  se_fits :: "int \<Rightarrow> 'w \<Rightarrow> bool"
  se_network :: "'w \<Rightarrow> real list \<Rightarrow> real"
  se_preset :: "string \<Rightarrow> int \<Rightarrow> sample list pyres"
  se_permutation :: "int \<Rightarrow> nat \<Rightarrow> nat list"
  se_correlations :: "real list \<Rightarrow> real list \<Rightarrow> (real \<times> real) pyres"
  se_now :: string
  se_git :: "string pyres"

section \<open>Preparing data\<close>

definition deduplicated_splits :: "(string \<Rightarrow> 'h) \<Rightarrow> ('m, 'w) script_env \<Rightarrow> dataset_config \<Rightarrow> (sample list \<times> dataset_splits) pyres" where
  "deduplicated_splits hash env c =
     bind_res (se_preset env (dc_preset c) (dc_max_samples c)) (\<lambda>samples.
       let samples = deduplicate hash samples
       in bind_res (split_dataset (se_permutation env (dc_seed c)) samples (dc_train_ratio c) (dc_val_ratio c))
            (\<lambda>splits. Inr (samples, splits)))"

text \<open>The lines of the data file, in order, and the contents of \<^verbatim>\<open>splits_meta.json\<close>.\<close>

record splits_meta =
  sp_train :: nat
  sp_val :: nat
  sp_test :: nat
  sp_feature_mean :: "real list option"
  sp_feature_std :: "real list option"

definition prepare_dataset :: "(string \<Rightarrow> 'h) \<Rightarrow> ('m, 'w) script_env \<Rightarrow> dataset_config \<Rightarrow> (sample list \<times> splits_meta) pyres" where
  "prepare_dataset hash env c =
     bind_res (deduplicated_splits hash env c) (\<lambda>(samples, splits).
       Inr (ds_train splits @ ds_val splits @ ds_test splits,
            \<lparr>sp_train = length (ds_train splits), sp_val = length (ds_val splits), sp_test = length (ds_test splits),
             sp_feature_mean = ds_feature_mean splits, sp_feature_std = ds_feature_std splits\<rparr>))"

section \<open>Export\<close>

record export_metadata =
  em_model_version :: string
  em_feature_names :: "string list"
  em_num_features :: nat
  em_feature_mean :: "real list"
  em_feature_std :: "real list"
  em_hidden_dim :: int
  em_dropout :: real
  em_training_date :: string
  em_git_sha :: string
  em_metrics :: "(string, real) dict"

text \<open>
  The files of the model directory that the predictors read: state dictionaries, the two graphs
  (here the parameters they were traced from) and the metadata.
\<close>

record 'w artifacts =
  ar_states :: "(string, 'w) dict"
  ar_torchscript :: "(string, 'w) dict"
  ar_onnx :: "(string, 'w) dict"
  ar_metadata :: "(string, export_metadata) dict"

text \<open>The revision: \<open>git\<close> is the output of \<^verbatim>\<open>git rev-parse HEAD\<close>, or why there is none.\<close>

definition git_sha :: "string pyres \<Rightarrow> string" where
  "git_sha git = (case git of Inr out \<Rightarrow> take 12 (strip out) | Inl e \<Rightarrow> ''unknown'')"

definition export_model ::
  "(int \<Rightarrow> 'w \<Rightarrow> bool) \<Rightarrow> string \<Rightarrow> string pyres \<Rightarrow> string \<Rightarrow> string \<Rightarrow> real list \<Rightarrow> real list \<Rightarrow> (string, real) dict \<Rightarrow> string \<Rightarrow> int \<Rightarrow> real \<Rightarrow>
   'w artifacts \<Rightarrow> (export_metadata \<times> 'w artifacts) pyres" where
  "export_model fits now git checkpoint_path output_dir feature_mean feature_std metrics model_version hidden_dim dropout a =
     (case dict_get (ar_states a) checkpoint_path of
        None \<Rightarrow> Inl (OtherError ''FileNotFoundError'')
      | Some wts \<Rightarrow>
          if \<not> fits hidden_dim wts then Inl (OtherError ''RuntimeError'')
          else let meta = \<lparr>em_model_version = model_version, em_feature_names = FEATURE_NAMES,
                           em_num_features = NUM_FEATURES, em_feature_mean = feature_mean,
                           em_feature_std = feature_std, em_hidden_dim = hidden_dim, em_dropout = dropout,
                           em_training_date = now, em_git_sha = git_sha git, em_metrics = metrics\<rparr>
               in Inr (meta, a\<lparr>ar_states := dict_set (path_join output_dir ''output_length_mlp.pt'') wts (ar_states a),
                               ar_torchscript := dict_set (path_join output_dir ''output_length.ts'') wts (ar_torchscript a),
                               ar_onnx := dict_set (path_join output_dir ''output_length.onnx'') wts (ar_onnx a),
                               ar_metadata := dict_set (path_join output_dir ''metadata.json'') meta (ar_metadata a)\<rparr>))"

section \<open>Training and evaluation\<close>

text \<open>The default network, \<^verbatim>\<open>OutputLengthMLP()\<close>, is 128 wide; both scripts load the checkpoint into it.\<close>

definition load_default :: "('m, 'w) script_env \<Rightarrow> string \<Rightarrow> (string, 'w) dict \<Rightarrow> 'w pyres" where
  "load_default env path files =
     (case dict_get files path of
        None \<Rightarrow> Inl (OtherError ''FileNotFoundError'')
      | Some wts \<Rightarrow> if se_fits env (mc_hidden_dim default_model_config) wts then Inr wts else Inl (OtherError ''RuntimeError''))"

definition test_predictions :: "('m, 'w) script_env \<Rightarrow> 'w \<Rightarrow> dataset_splits \<Rightarrow> (real list \<times> real list) pyres" where
  "test_predictions env wts splits =
     (case (ds_feature_mean splits, ds_feature_std splits) of
        (Some m, Some s) \<Rightarrow>
          bind_res (to_tensors (ds_test splits) m s) (\<lambda>(x, y).
            Inr (y, map (\<lambda>r. clamp 1 4096 (se_network env wts r)) x))
      | _ \<Rightarrow> Inl (ValueError ''no training data''))"

definition script_metrics :: "train_result \<Rightarrow> real list \<Rightarrow> real list \<Rightarrow> real \<times> real \<Rightarrow> (string, real) dict" where
  "script_metrics result y_test preds correlations =
     (let (mae, rmse, _) = regression_metrics y_test preds; (pearson, spearman) = correlations
      in [(''test_mae'', mae), (''test_rmse'', rmse), (''test_pearson'', pearson), (''test_spearman'', spearman)]
         @ (case tres_best_val_loss result of None \<Rightarrow> [] | Some b \<Rightarrow> [(''best_val_loss'', b)])
         @ [(''best_epoch'', real (tres_best_epoch result))])"

definition train_main ::
  "(string \<Rightarrow> 'h) \<Rightarrow> ('m, 'w) script_env \<Rightarrow> script_config \<Rightarrow> 'w artifacts \<Rightarrow> (export_metadata \<times> 'w artifacts) pyres" where
  "train_main hash env cfg a =
     bind_res (deduplicated_splits hash env (sc_dataset cfg)) (\<lambda>(samples, splits).
     bind_res (train (se_torch env) (sc_training cfg) splits (ar_states a)) (\<lambda>(result, states).
     bind_res (load_default env (tres_checkpoint_path result) states) (\<lambda>wts.
     bind_res (test_predictions env wts splits) (\<lambda>(y_test, preds).
     bind_res (se_correlations env y_test preds) (\<lambda>correlations.
       export_model (se_fits env) (se_now env) (se_git env) (tres_checkpoint_path result) (sc_output_dir cfg)
         (or_empty (ds_feature_mean splits)) (or_empty (ds_feature_std splits))
         (script_metrics result y_test preds correlations) (sc_model_version cfg)
         (tr_hidden_dim (sc_training cfg)) (tr_dropout (sc_training cfg)) (a\<lparr>ar_states := states\<rparr>))))))"

text \<open>\<^verbatim>\<open>evaluate.py\<close>: no deduplication, and the default ratios of \<^verbatim>\<open>split\<close>.\<close>

definition evaluation_splits :: "('m, 'w) script_env \<Rightarrow> dataset_config \<Rightarrow> dataset_splits pyres" where
  "evaluation_splits env c =
     bind_res (se_preset env (dc_preset c) (dc_max_samples c)) (\<lambda>samples.
       split_dataset (se_permutation env (dc_seed c)) samples (8 / 10) (1 / 10))"

record evaluation =
  ev_mae :: real
  ev_rmse :: real
  ev_r2 :: real
  ev_pearson :: real
  ev_spearman :: real
  ev_n_test :: nat

definition evaluate_main :: "('m, 'w) script_env \<Rightarrow> dataset_config \<Rightarrow> string \<Rightarrow> 'w artifacts \<Rightarrow> evaluation pyres" where
  "evaluate_main env c checkpoint a =
     bind_res (evaluation_splits env c) (\<lambda>splits.
     bind_res (load_default env checkpoint (ar_states a)) (\<lambda>wts.
     bind_res (test_predictions env wts splits) (\<lambda>(y, preds).
     bind_res (se_correlations env y preds) (\<lambda>(pearson, spearman).
       let (mae, rmse, r2) = regression_metrics y preds
       in Inr \<lparr>ev_mae = mae, ev_rmse = rmse, ev_r2 = r2, ev_pearson = pearson, ev_spearman = spearman, ev_n_test = length y\<rparr>))))"

section \<open>Facts\<close>

text \<open>PyTorch keeps the shape of a network: training does not change its width.\<close>

definition keeps_width :: "('m, 'w) torch \<Rightarrow> ('m \<Rightarrow> int) \<Rightarrow> bool" where
  "keeps_width T width \<longleftrightarrow> (\<forall>cfg. width (tc_init T cfg) = tr_hidden_dim cfg) \<and>
     (\<forall>m b. width (snd (tc_step T m b)) = width m) \<and> (\<forall>m. width (tc_sched_step T m) = width m)"

lemma train_batches_width:
  "keeps_width T width \<Longrightarrow> train_batches T bs tot n m = (tot', n', m') \<Longrightarrow> width m' = width m"
proof (induction bs arbitrary: tot n m)
  case (Cons b bs)
  obtain l m1 where s: "tc_step T m b = (l, m1)" by force
  then have "width m1 = width m" using Cons.prems(1) unfolding keeps_width_def by (metis snd_conv)
  moreover have "width m' = width m1"
    using Cons.prems(2) s by (intro Cons.IH [OF Cons.prems(1)]) (simp add: s)
  ultimately show ?case by simp
qed simp

lemma run_epoch_width:
  assumes "keeps_width T width"
  shows "width (snd (run_epoch T cfg tr va e m)) = width m"
proof -
  obtain tot n m' where b: "train_batches T (tc_train_batches T e (tr_batch_size cfg) tr) 0 0 m = (tot, n, m')"
    by (metis prod.exhaust)
  have "width (tc_sched_step T m') = width m"
    using train_batches_width [OF assms b] assms by (simp add: keeps_width_def)
  then show ?thesis by (simp add: run_epoch_def train_epoch_def b Let_def split: prod.split)
qed

lemma after_width: "keeps_width T width \<Longrightarrow> width (after (run_epoch T cfg tr va) m k) = width m"
  by (induction k) (simp_all add: run_epoch_width)

lemma train_checkpoint:
  assumes "make_loaders d = Inr l" and "0 < tr_epochs cfg"
  shows "\<exists>res files' k. train T cfg d files = Inr (res, files') \<and>
    dict_get files' (tres_checkpoint_path res) = Some (tc_state_dict T (after (run_epoch T cfg (fst l) (snd l)) (tc_init T cfg) k)) "
proof -
  let ?run = "run_epoch T cfg (fst l) (snd l)" and ?m = "tc_init T cfg"
  have "loop_inv (tc_state_dict T) ?run ?m 0 (loop_start ?m)" by (simp add: loop_inv_def loop_start_def)
  from train_loop_run [OF this, of "nat (tr_epochs cfg)" "tr_patience cfg"] assms(2) obtain j where
    "0 < j" "loop_inv (tc_state_dict T) ?run ?m j
      (train_loop (tc_state_dict T) (tr_patience cfg) ?run [Suc 0..<Suc (nat (tr_epochs cfg))] (loop_start ?m))" by auto
  with assms(1) show ?thesis
    by (cases l) (auto simp: train_def Let_def loop_inv_def dict_simps simp del: upt_Suc)
qed

lemma to_tensors_40:
  assumes "\<forall>s \<in> set ss. length (sm_features s) = 40" and "ss \<noteq> []" and "length m = 40" and "length s = 40"
  shows "to_tensors ss m s = Inr (map (\<lambda>r. map2 (/) (map2 (-) r m) (std_safe s)) (map sm_features ss),
    map sm_actual_output_tokens ss)"
proof -
  have "\<forall>r \<in> set (map sm_features ss). length r = length m" "length s = length m" using assms by simp_all
  with assms(2) show ?thesis unfolding to_tensors_def np_rows_40 [OF assms(1)] bind_res_simps
    by (subst normalise_rows) simp_all
qed

lemma loaders_exist:
  assumes "split_dataset permutation samples tr vr = Inr d" and "ds_train d \<noteq> []" and "ds_val d \<noteq> []"
    and "\<forall>s \<in> set (ds_train d) \<union> set (ds_val d). length (sm_features s) = 40"
  shows "\<exists>l. make_loaders d = Inr l"
proof -
  have "\<forall>s \<in> set (ds_train d). length (sm_features s) = 40" "\<forall>s \<in> set (ds_val d). length (sm_features s) = 40"
    using assms(4) by blast+
  moreover from split_statistics [OF assms(1,2) this(1)] obtain m s where
    "ds_feature_mean d = Some m" "ds_feature_std d = Some s" "length m = 40" "length s = 40" by fastforce
  ultimately show ?thesis using to_tensors_40 assms(2,3) by (simp add: make_loaders_def)
qed

lemma export_model_Inr:
  assumes "export_model fits now git path dir mean std metrics version h dropout a = Inr (meta, a')"
  shows "em_feature_mean meta = mean" and "em_feature_std meta = std"
    and "dict_get (ar_metadata a') (path_join dir ''metadata.json'') = Some meta"
    and "dict_get (ar_states a') (path_join dir ''output_length_mlp.pt'') = dict_get (ar_states a) path"
  using assms by (auto simp: export_model_def Let_def dict_simps split: option.splits if_splits)

lemma split_dataset_parts:
  assumes "\<forall>s \<in> set samples. length (sm_features s) = 40" and "set (permutation (length samples)) \<subseteq> {..<length samples}"
  shows "\<exists>d. split_dataset permutation samples tr vr = Inr d \<and>
    ds_train d = map ((!) samples) (py_slice 0 (trunc (real (length samples) * tr)) (permutation (length samples))) \<and>
    ds_test d = map ((!) samples) (drop (slice_bound (length (permutation (length samples)))
      (trunc (real (length samples) * tr) + trunc (real (length samples) * vr))) (permutation (length samples)))"
proof -
  let ?train = "map ((!) samples) (py_slice 0 (trunc (real (length samples) * tr)) (permutation (length samples)))"
  have "set ?train \<subseteq> set samples"
    using assms(2) by (auto simp: py_slice_def dest!: in_set_takeD in_set_dropD)
  with assms(1) have "np_rows (map sm_features ?train) = Inr (map sm_features ?train)" by (intro np_rows_40) blast
  then show ?thesis unfolding split_dataset_def Let_def by simp
qed

section \<open>Properties\<close>

text \<open>
  Only the default width survives the training script. With a hidden width other than 128 the
  script trains to the end and then raises, because it loads the checkpoint into the default
  network before exporting: no configuration with another \<^verbatim>\<open>hidden_dim\<close> is ever exported.
  PyTorch is assumed to keep the width of a network and to accept a state dictionary only at
  its own width.
\<close>

theorem other_width_never_exported:
  assumes "keeps_width (se_torch env) width" and "\<And>h m. se_fits env h (tc_state_dict (se_torch env) m) \<longleftrightarrow> h = width m"
    and "tr_hidden_dim (sc_training cfg) \<noteq> 128" and "0 < tr_epochs (sc_training cfg)"
    and "deduplicated_splits hash env (sc_dataset cfg) = Inr (samples, splits)" and "make_loaders splits = Inr l"
  shows "train_main hash env cfg a = Inl (OtherError ''RuntimeError'')"
proof -
  let ?T = "se_torch env" and ?c = "sc_training cfg"
  obtain res files' k where t: "train ?T ?c splits (ar_states a) = Inr (res, files')"
    "dict_get files' (tres_checkpoint_path res) = Some (tc_state_dict ?T (after (run_epoch ?T ?c (fst l) (snd l)) (tc_init ?T ?c) k))"
    using train_checkpoint [OF assms(6,4)] by blast
  have "width (after (run_epoch ?T ?c (fst l) (snd l)) (tc_init ?T ?c) k) = tr_hidden_dim ?c"
    using after_width [OF assms(1)] assms(1) by (simp add: keeps_width_def)
  then have "load_default env (tres_checkpoint_path res) files' = Inl (OtherError ''RuntimeError'')"
    using t(2) assms(2,3) by (simp add: load_default_def default_model_config_def)
  with assms(5) t(1) show ?thesis by (simp add: train_main_def)
qed

text \<open>A network that is its own width, on the sample data of three different prompts.\<close>

definition width_torch :: "(int, int) torch" where
  "width_torch = \<lparr>tc_init = tr_hidden_dim, tc_step = (\<lambda>m b. (1, m)), tc_forward = (\<lambda>m x. 0), tc_loss = (\<lambda>ps ys. 0),
     tc_sched_step = id, tc_lr = (\<lambda>_. 0), tc_state_dict = id, tc_train_batches = (\<lambda>e b xs. [xs]), tc_val_batches = (\<lambda>b xs. [xs])\<rparr>"

definition sample_env :: "sample list \<Rightarrow> (int, int) script_env" where
  "sample_env data = \<lparr>se_torch = width_torch, se_fits = (=), se_network = (\<lambda>wts x. 50), se_preset = (\<lambda>name n. Inr data),
     se_permutation = (\<lambda>seed n. [0..<n]), se_correlations = (\<lambda>y p. Inr (0, 0)),
     se_now = ''2025-01-01T00:00:00+00:00'', se_git = Inl (OtherError ''FileNotFoundError'')\<rparr>"

definition sample_script :: "int \<Rightarrow> script_config" where
  "sample_script h = \<lparr>sc_dataset = \<lparr>dc_preset = ''synthetic'', dc_max_samples = 4, dc_train_ratio = 1 / 3, dc_val_ratio = 1 / 3, dc_seed = 42\<rparr>,
     sc_training = default_train_config\<lparr>tr_hidden_dim := h\<rparr>, sc_output_dir = ''shared/models'', sc_model_version = ''1.0.0''\<rparr>"

lemma sample_splits_exist:
  assumes "\<forall>s \<in> set data. length (sm_features s) = 40" and "length (first_by_prompt data) = 3"
  shows "\<exists>d l. deduplicated_splits id (sample_env data) (sc_dataset (sample_script h)) = Inr (first_by_prompt data, d) \<and>
     make_loaders d = Inr l \<and> length (ds_train d) = 1 \<and> length (ds_test d) = 1 \<and>
     set (ds_train d @ ds_val d @ ds_test d) = set (first_by_prompt data)"
proof -
  let ?ss = "first_by_prompt data"
  have f: "\<forall>s \<in> set ?ss. length (sm_features s) = 40" using assms(1) set_first_by_prompt [of data] by blast
  obtain d where d: "split_dataset (\<lambda>n. [0..<n]) ?ss (1 / 3) (1 / 3) = Inr d"
    "mset (ds_train d @ ds_val d @ ds_test d) = mset ?ss" "int (length (ds_train d)) = 1" "int (length (ds_val d)) = 1"
    using split_parts [of "\<lambda>n. [0..<n]" ?ss "1 / 3" "1 / 3"] f assms(2) by (auto simp: trunc_def)
  have set: "set (ds_train d @ ds_val d @ ds_test d) = set ?ss" using d(2) by (metis set_mset_mset)
  have "length (ds_train d @ ds_val d @ ds_test d) = 3" using d(2) assms(2) by (metis size_mset)
  then have len: "length (ds_test d) = 1" using d(3,4) by simp
  have "ds_train d \<noteq> []" "ds_val d \<noteq> []" using d(3,4) by auto
  with loaders_exist [OF d(1)] set f obtain l where "make_loaders d = Inr l" by auto
  with d len set show ?thesis
    by (auto simp: deduplicated_splits_def sample_env_def sample_script_def deduplicate_spec Let_def)
qed

lemma sample_env_width:
  "keeps_width (se_torch (sample_env data)) id"
  "se_fits (sample_env data) h (tc_state_dict (se_torch (sample_env data)) m) \<longleftrightarrow> h = id m"
  "0 < tr_epochs (sc_training (sample_script k))" "tr_hidden_dim (sc_training (sample_script k)) = k"
  by (simp_all add: keeps_width_def sample_env_def width_torch_def sample_script_def default_train_config_def)

theorem other_width_never_exported_witness:
  "train_main id (sample_env sample_data) (sample_script 64) \<lparr>ar_states = [], ar_torchscript = [], ar_onnx = [], ar_metadata = []\<rparr>
     = Inl (OtherError ''RuntimeError'')"
proof -
  have "\<forall>s \<in> set sample_data. length (sm_features s) = 40" "length (first_by_prompt sample_data) = 3"
    by (auto simp: sample_data_def)
  from sample_splits_exist [OF this] obtain d l where
    d: "deduplicated_splits id (sample_env sample_data) (sc_dataset (sample_script 64)) = Inr (first_by_prompt sample_data, d)"
      "make_loaders d = Inr l" by blast
  have "tr_hidden_dim (sc_training (sample_script 64)) \<noteq> 128" by (simp add: sample_env_width)
  from other_width_never_exported [OF sample_env_width(1,2) this sample_env_width(3) d] show ?thesis .
qed

text \<open>With the default width the script succeeds.\<close>

lemma default_width_exports:
  assumes "keeps_width (se_torch env) width" and "\<And>h m. se_fits env h (tc_state_dict (se_torch env) m) \<longleftrightarrow> h = width m"
    and "tr_hidden_dim (sc_training cfg) = 128" and "0 < tr_epochs (sc_training cfg)"
    and "deduplicated_splits hash env (sc_dataset cfg) = Inr (samples, splits)" and "make_loaders splits = Inr l"
    and "ds_test splits \<noteq> []" and "\<forall>s \<in> set (ds_train splits) \<union> set (ds_test splits). length (sm_features s) = 40"
    and "ds_train splits \<noteq> []" and "\<And>y p. \<exists>c. se_correlations env y p = Inr c"
  shows "\<exists>meta a'. train_main hash env cfg a = Inr (meta, a')"
proof -
  let ?T = "se_torch env" and ?c = "sc_training cfg"
  obtain res files' k where t: "train ?T ?c splits (ar_states a) = Inr (res, files')"
    "dict_get files' (tres_checkpoint_path res) = Some (tc_state_dict ?T (after (run_epoch ?T ?c (fst l) (snd l)) (tc_init ?T ?c) k))"
    using train_checkpoint [OF assms(6,4)] by blast
  let ?w = "tc_state_dict ?T (after (run_epoch ?T ?c (fst l) (snd l)) (tc_init ?T ?c) k)"
  have fits: "se_fits env 128 ?w"
    using after_width [OF assms(1)] assms(1,2,3) by (simp add: keeps_width_def)
  then have l: "load_default env (tres_checkpoint_path res) files' = Inr ?w"
    using t(2) by (simp add: load_default_def default_model_config_def)
  obtain samples' where sp: "split_dataset (se_permutation env (dc_seed (sc_dataset cfg))) samples'
      (dc_train_ratio (sc_dataset cfg)) (dc_val_ratio (sc_dataset cfg)) = Inr splits"
    using assms(5) by (auto simp: deduplicated_splits_def bind_res_Inr_iff Let_def)
  have f: "\<forall>s \<in> set (ds_train splits). length (sm_features s) = 40" "\<forall>s \<in> set (ds_test splits). length (sm_features s) = 40"
    using assms(8) by blast+
  obtain m s where ms: "ds_feature_mean splits = Some m" "ds_feature_std splits = Some s" "length m = 40" "length s = 40"
    using split_statistics [OF sp assms(9) f(1)] by fastforce
  obtain y p where "test_predictions env ?w splits = Inr (y, p)"
    using to_tensors_40 [OF f(2) assms(7) ms(3,4)] ms by (simp add: test_predictions_def)
  with t l fits assms(3,5) assms(10) [of y p] show ?thesis by (auto simp: train_main_def export_model_def Let_def)
qed


definition extracted_data :: "sample list" where
  "extracted_data = map (\<lambda>p. \<lparr>sm_prompt = p, sm_features = feature_values default_extractor p, sm_actual_output_tokens = 30,
     sm_metadata = []\<rparr>) [''Why?'', ''List 3 facts.'', ''Hi'']"


text \<open>
  The evaluation script does not use the test data of the training script. When no prompt
  repeats and the ratios are the defaults, both scripts split the data alike. Otherwise the
  evaluation splits the data with its duplicates: there is a data set and a generator of
  permutations with which a prompt of the evaluation's test part was trained on.
\<close>

theorem evaluation_split_differs:
  "(\<forall>samples. se_preset env (dc_preset c) (dc_max_samples c) = Inr samples \<and> inj_on hash (sm_prompt ` set samples) \<and>
      distinct (map sm_prompt samples) \<and> dc_train_ratio c = 8 / 10 \<and> dc_val_ratio c = 1 / 10 \<longrightarrow>
      map_sum id snd (deduplicated_splits hash env c) = evaluation_splits env c) \<and>
   (\<exists>samples permutation. (\<forall>n. mset (permutation n) = mset [0..<n]) \<and> (\<forall>s \<in> set samples. length (sm_features s) = 40) \<and>
      (\<exists>d d'. split_dataset permutation (deduplicate (id :: string \<Rightarrow> string) samples) (8 / 10) (1 / 10) = Inr d \<and>
        split_dataset permutation samples (8 / 10) (1 / 10) = Inr d' \<and>
        sm_prompt ` set (ds_train d) \<inter> sm_prompt ` set (ds_test d') \<noteq> {}))"
proof (intro conjI allI impI)
  fix samples
  assume a: "se_preset env (dc_preset c) (dc_max_samples c) = Inr samples \<and> inj_on hash (sm_prompt ` set samples) \<and>
      distinct (map sm_prompt samples) \<and> dc_train_ratio c = 8 / 10 \<and> dc_val_ratio c = 1 / 10"
  have "first_by_prompt ss = ss" if "distinct (map sm_prompt ss)" for ss
    using that by (induction ss) (auto simp: filter_id_conv image_iff)
  then have "deduplicate hash samples = samples" using a by (simp add: deduplicate_spec)
  moreover have r: "dc_train_ratio c = 8 / 10" "dc_val_ratio c = 1 / 10" using a by blast+
  ultimately show "map_sum id snd (deduplicated_splits hash env c) = evaluation_splits env c"
    using a unfolding deduplicated_splits_def evaluation_splits_def r
    by (auto simp: bind_res_def Let_def split: sum.splits)
next
  let ?mk = "\<lambda>p. \<lparr>sm_prompt = p, sm_features = replicate 40 0, sm_actual_output_tokens = 1, sm_metadata = []\<rparr> :: sample"
  let ?ss = "map ?mk [''a'', ''b'', ''b'']"
  let ?perm = "\<lambda>n. if n = 2 then rev [0..<n] else [0..<n]"
  let ?dd = "map ?mk [''a'', ''b'']"
  have d: "deduplicate id ?ss = ?dd" by (simp add: deduplicate_def Let_def)
  have t: "trunc (real 2 * (8 / 10)) = 1" "trunc (real 3 * (8 / 10)) = 2" "trunc (real 3 * (1 / 10)) = 0"
    by (simp_all add: trunc_def floor_unique)
  have p: "?perm 2 = [1, 0]" "?perm 3 = [0, 1, 2]" by (simp_all add: upt_rec)
  obtain d1 where d1: "split_dataset ?perm ?dd (8 / 10) (1 / 10) = Inr d1"
    "ds_train d1 = map ((!) ?dd) (py_slice 0 (trunc (real 2 * (8 / 10))) (?perm 2))"
    using split_dataset_parts [of ?dd ?perm "8 / 10" "1 / 10"] by (auto simp: upt_rec)
  obtain d2 where d2: "split_dataset ?perm ?ss (8 / 10) (1 / 10) = Inr d2"
    "ds_test d2 = map ((!) ?ss) (drop (slice_bound (length (?perm 3)) (trunc (real 3 * (8 / 10)) + trunc (real 3 * (1 / 10)))) (?perm 3))"
    using split_dataset_parts [of ?ss ?perm "8 / 10" "1 / 10"] by (auto simp: upt_rec)
  have "sm_prompt ` set (ds_train d1) = {''b''}" unfolding d1(2) t p by (simp add: py_slice_def slice_bound_def)
  moreover have "sm_prompt ` set (ds_test d2) = {''b''}" unfolding d2(2) t p by (simp add: slice_bound_def)
  moreover have "\<forall>n. mset (?perm n) = mset [0..<n]" "\<forall>s \<in> set ?ss. length (sm_features s) = 40" by simp_all
  ultimately show "\<exists>samples permutation. (\<forall>n. mset (permutation n) = mset [0..<n]) \<and> (\<forall>s \<in> set samples. length (sm_features s) = 40) \<and>
      (\<exists>d d'. split_dataset permutation (deduplicate (id :: string \<Rightarrow> string) samples) (8 / 10) (1 / 10) = Inr d \<and>
        split_dataset permutation samples (8 / 10) (1 / 10) = Inr d' \<and>
        sm_prompt ` set (ds_train d) \<inter> sm_prompt ` set (ds_test d') \<noteq> {})"
    using d d1(1) d2(1) by (intro exI [of _ ?ss] exI [of _ ?perm] conjI exI [of _ d1] exI [of _ d2]) simp_all
qed

theorem evaluation_split_differs_witness:
  "map_sum id snd (deduplicated_splits id (sample_env extracted_data)
       \<lparr>dc_preset = ''synthetic'', dc_max_samples = 3, dc_train_ratio = 8 / 10, dc_val_ratio = 1 / 10, dc_seed = 42\<rparr>)
     = evaluation_splits (sample_env extracted_data)
       \<lparr>dc_preset = ''synthetic'', dc_max_samples = 3, dc_train_ratio = 8 / 10, dc_val_ratio = 1 / 10, dc_seed = 42\<rparr>"
  using evaluation_split_differs [of "sample_env extracted_data"
      "\<lparr>dc_preset = ''synthetic'', dc_max_samples = 3, dc_train_ratio = 8 / 10, dc_val_ratio = 1 / 10, dc_seed = 42\<rparr>" id]
  by (auto simp: sample_env_def extracted_data_def)

end
