(* ===== verification/TrainingScripts.thy ===== *)
theory TrainingScripts
  imports TrainingPipeline Py_Config
begin

text \<open>
  The command lines and configuration files of the training scripts \<^verbatim>\<open>prepare_dataset.py\<close>, \<^verbatim>\<open>train.py\<close> and
  \<^verbatim>\<open>evaluate.py\<close> in \<^verbatim>\<open>python/training\<close>. The scripts read the keys of the parsed YAML file where they need them,
  so an error in the configuration may show only after the training. The typed pipeline of theory \<^verbatim>\<open>TrainingPipeline\<close> is what a script computes from a
  complete configuration.
\<close>

section \<open>Command lines\<close>

definition prepare_parser :: "opt_spec list" where
  "prepare_parser = [text_option ''--config'' ''configs/training.yaml'', text_option ''--output'' ''data/processed/dataset.jsonl'']"

definition train_parser :: "opt_spec list" where
  "train_parser = [text_option ''--config'' ''configs/training.yaml'']"

definition evaluate_parser :: "opt_spec list" where
  "evaluate_parser = [text_option ''--config'' ''configs/training.yaml'',
     text_option ''--checkpoint'' ''shared/models/output_length_mlp.pt'', text_option ''--output'' ''shared/models/evaluation.json'']"

section \<open>The scripts\<close>

text \<open>The first part of \<^verbatim>\<open>train.py\<close> and of \<^verbatim>\<open>prepare_dataset.py\<close>: loading, deduplication and split.\<close>

definition script_splits :: "(string \<Rightarrow> 'h) \<Rightarrow> ('m, 'w) script_env \<Rightarrow> pyval \<Rightarrow> (sample list \<times> dataset_splits) typed" where
  "script_splits hash env ds_cfg =
     bind_typed (read_key as_text ds_cfg ''preset'') (\<lambda>preset.
     bind_typed (read_key as_integer ds_cfg ''max_samples'') (\<lambda>max_samples.
     bind_typed (Some (se_preset env preset max_samples)) (\<lambda>samples.
       let samples = deduplicate hash samples in
     bind_typed (read_key as_number ds_cfg ''train_ratio'') (\<lambda>train_ratio.
     bind_typed (read_key as_number ds_cfg ''val_ratio'') (\<lambda>val_ratio.
     bind_typed (read_key_or as_integer ds_cfg ''seed'' (PInt 42)) (\<lambda>seed.
       Some (bind_res (split_dataset (se_permutation env seed) samples train_ratio val_ratio)
         (\<lambda>splits. Inr (samples, splits)))))))))"

definition load_train_config :: "pyval \<Rightarrow> pyval \<Rightarrow> train_config typed" where
  "load_train_config model_cfg tr_cfg =
     bind_typed (read_key as_integer model_cfg ''hidden_dim'') (\<lambda>hidden_dim.
     bind_typed (read_key as_number model_cfg ''dropout'') (\<lambda>dropout.
     bind_typed (read_key as_number tr_cfg ''lr'') (\<lambda>lr.
     bind_typed (read_key as_number tr_cfg ''weight_decay'') (\<lambda>weight_decay.
     bind_typed (read_key as_integer tr_cfg ''batch_size'') (\<lambda>batch_size.
     bind_typed (read_key as_integer tr_cfg ''epochs'') (\<lambda>epochs.
     bind_typed (read_key as_integer tr_cfg ''patience'') (\<lambda>patience.
     bind_typed (read_key as_number tr_cfg ''grad_clip'') (\<lambda>grad_clip.
     bind_typed (read_key as_flag tr_cfg ''use_amp'') (\<lambda>use_amp.
     bind_typed (read_key_or as_flag tr_cfg ''use_compile'' (PBool False)) (\<lambda>use_compile.
     bind_typed (read_key as_integer tr_cfg ''seed'') (\<lambda>seed.
     bind_typed (read_key_or as_text tr_cfg ''device'' (PStr ''auto'')) (\<lambda>device.
       Some (Inr (default_train_config\<lparr>tr_hidden_dim := hidden_dim, tr_dropout := dropout, tr_lr := lr,
         tr_weight_decay := weight_decay, tr_batch_size := batch_size, tr_epochs := epochs, tr_patience := patience,
         tr_grad_clip := grad_clip, tr_use_amp := use_amp, tr_use_compile := use_compile, tr_seed := seed,
         tr_device := device\<rparr>))))))))))))))"

text \<open>\<^verbatim>\<open>prepare_dataset.py\<close>: the path of the data file, its samples and the contents of \<^verbatim>\<open>splits_meta.json\<close> beside it.\<close>

definition prepare_script ::
  "(string \<Rightarrow> 'h) \<Rightarrow> ('m, 'w) script_env \<Rightarrow> (string \<Rightarrow> pyval pyres) \<Rightarrow> string list \<Rightarrow> (string \<times> sample list \<times> splits_meta) typed" where
  "prepare_script hash env read_config argv =
     bind_typed (open_config read_config prepare_parser argv) (\<lambda>(args, cfg).
     bind_typed (Some (py_index cfg ''dataset'')) (\<lambda>ds_cfg.
     bind_typed (script_splits hash env ds_cfg) (\<lambda>(samples, splits).
       Some (Inr (arg args ''output'', ds_train splits @ ds_val splits @ ds_test splits,
         \<lparr>sp_train = length (ds_train splits), sp_val = length (ds_val splits), sp_test = length (ds_test splits),
          sp_feature_mean = ds_feature_mean splits, sp_feature_std = ds_feature_std splits\<rparr>)))))"

text \<open>\<^verbatim>\<open>train.py\<close>: the section on the export is read when the network is trained and evaluated.\<close>

definition train_script ::
  "(string \<Rightarrow> 'h) \<Rightarrow> ('m, 'w) script_env \<Rightarrow> (string \<Rightarrow> pyval pyres) \<Rightarrow> string list \<Rightarrow> 'w artifacts \<Rightarrow>
   (export_metadata \<times> 'w artifacts) typed" where
  "train_script hash env read_config argv a =
     bind_typed (open_config read_config train_parser argv) (\<lambda>(args, cfg).
     bind_typed (Some (py_index cfg ''dataset'')) (\<lambda>ds_cfg.
     bind_typed (Some (py_index cfg ''training'')) (\<lambda>tr_cfg.
     bind_typed (Some (py_index cfg ''model'')) (\<lambda>model_cfg.
     bind_typed (Some (py_index cfg ''export'')) (\<lambda>export_cfg.
     bind_typed (script_splits hash env ds_cfg) (\<lambda>(samples, splits).
     bind_typed (load_train_config model_cfg tr_cfg) (\<lambda>config.
     bind_typed (Some (train (se_torch env) config splits (ar_states a))) (\<lambda>(result, states).
     bind_typed (Some (load_default env (tres_checkpoint_path result) states)) (\<lambda>wts.
     bind_typed (Some (test_predictions env wts splits)) (\<lambda>(y_test, preds).
     bind_typed (Some (se_correlations env y_test preds)) (\<lambda>correlations.
     bind_typed (read_key as_text export_cfg ''output_dir'') (\<lambda>output_dir.
     bind_typed (read_key_or as_text export_cfg ''model_version'' (PStr ''1.0.0'')) (\<lambda>model_version.
       Some (export_model (se_fits env) (se_now env) (se_git env) (tres_checkpoint_path result) output_dir
         (or_empty (ds_feature_mean splits)) (or_empty (ds_feature_std splits))
         (script_metrics result y_test preds correlations) model_version
         (tr_hidden_dim config) (tr_dropout config) (a\<lparr>ar_states := states\<rparr>)))))))))))))))"

text \<open>\<^verbatim>\<open>evaluate.py\<close>: the path of the result file and its contents.\<close>

definition evaluate_script ::
  "('m, 'w) script_env \<Rightarrow> (string \<Rightarrow> pyval pyres) \<Rightarrow> string list \<Rightarrow> 'w artifacts \<Rightarrow> (string \<times> evaluation) typed" where
  "evaluate_script env read_config argv a =
     bind_typed (open_config read_config evaluate_parser argv) (\<lambda>(args, cfg).
     bind_typed (Some (py_index cfg ''dataset'')) (\<lambda>ds_cfg.
     bind_typed (read_key as_text ds_cfg ''preset'') (\<lambda>preset.
     bind_typed (read_key as_integer ds_cfg ''max_samples'') (\<lambda>max_samples.
     bind_typed (Some (se_preset env preset max_samples)) (\<lambda>samples.
     bind_typed (read_key_or as_integer ds_cfg ''seed'' (PInt 42)) (\<lambda>seed.
     bind_typed (Some (split_dataset (se_permutation env seed) samples (8 / 10) (1 / 10))) (\<lambda>splits.
     bind_typed (Some (load_default env (arg args ''checkpoint'') (ar_states a))) (\<lambda>wts.
     bind_typed (Some (test_predictions env wts splits)) (\<lambda>(y, preds).
     bind_typed (Some (se_correlations env y preds)) (\<lambda>(pearson, spearman).
       let (mae, rmse, r2) = regression_metrics y preds
       in Some (Inr (arg args ''output'',
            \<lparr>ev_mae = mae, ev_rmse = rmse, ev_r2 = r2, ev_pearson = pearson, ev_spearman = spearman, ev_n_test = length y\<rparr>))))))))))))"

section \<open>Complete configurations\<close>

definition load_dataset_config :: "pyval \<Rightarrow> dataset_config typed" where
  "load_dataset_config ds_cfg =
     bind_typed (read_key as_text ds_cfg ''preset'') (\<lambda>preset.
     bind_typed (read_key as_integer ds_cfg ''max_samples'') (\<lambda>max_samples.
     bind_typed (read_key as_number ds_cfg ''train_ratio'') (\<lambda>train_ratio.
     bind_typed (read_key as_number ds_cfg ''val_ratio'') (\<lambda>val_ratio.
     bind_typed (read_key_or as_integer ds_cfg ''seed'' (PInt 42)) (\<lambda>seed.
       Some (Inr \<lparr>dc_preset = preset, dc_max_samples = max_samples, dc_train_ratio = train_ratio, dc_val_ratio = val_ratio,
         dc_seed = seed\<rparr>))))))"

definition load_script_config :: "pyval \<Rightarrow> script_config typed" where
  "load_script_config cfg =
     bind_typed (Some (py_index cfg ''dataset'')) (\<lambda>ds_cfg.
     bind_typed (Some (py_index cfg ''training'')) (\<lambda>tr_cfg.
     bind_typed (Some (py_index cfg ''model'')) (\<lambda>model_cfg.
     bind_typed (Some (py_index cfg ''export'')) (\<lambda>export_cfg.
     bind_typed (load_dataset_config ds_cfg) (\<lambda>dataset.
     bind_typed (load_train_config model_cfg tr_cfg) (\<lambda>training.
     bind_typed (read_key as_text export_cfg ''output_dir'') (\<lambda>output_dir.
     bind_typed (read_key_or as_text export_cfg ''model_version'' (PStr ''1.0.0'')) (\<lambda>model_version.
       Some (Inr \<lparr>sc_dataset = dataset, sc_training = training, sc_output_dir = output_dir,
         sc_model_version = model_version\<rparr>)))))))))"

text \<open>The file \<^verbatim>\<open>configs/training.yaml\<close> of the repository.\<close>

definition shipped_config :: pyval where
  "shipped_config = PDict
     [(''dataset'', PDict [(''preset'', PStr ''synthetic''), (''max_samples'', PInt 8000), (''train_ratio'', PFloat (8 / 10)),
        (''val_ratio'', PFloat (1 / 10)), (''seed'', PInt 42)]),
      (''model'', PDict [(''hidden_dim'', PInt 128), (''dropout'', PFloat (1 / 10))]),
      (''training'', PDict [(''lr'', PFloat (1 / 1000)), (''weight_decay'', PFloat (1 / 10000)), (''batch_size'', PInt 256),
        (''epochs'', PInt 50), (''patience'', PInt 8), (''grad_clip'', PFloat 1), (''use_amp'', PBool True),
        (''use_compile'', PBool False), (''seed'', PInt 42), (''device'', PStr ''auto'')]),
      (''export'', PDict [(''output_dir'', PStr ''shared/models''), (''model_version'', PStr ''1.0.0'')]),
      (''benchmark'', PDict [(''concurrency_levels'', PList (map PInt [1, 2, 4, 8, 16, 32])), (''requests_per_level'', PInt 20),
        (''max_tokens'', PInt 100)])]"

section \<open>Facts\<close>

lemma script_splits_complete:
  "load_dataset_config ds = Some (Inr c) \<Longrightarrow> script_splits hash env ds = Some (deduplicated_splits hash env c)"
  by (cases "se_preset env (dc_preset c) (dc_max_samples c)")
     (auto simp: load_dataset_config_def script_splits_def deduplicated_splits_def bind_typed_Inr_iff Let_def)

lemma wf_parsers: "wf_specs prepare_parser" "wf_specs train_parser" "wf_specs evaluate_parser"
  by code_simp+

text \<open>The parts of a complete configuration.\<close>

lemma load_script_configE:
  assumes "load_script_config cfg = Some (Inr c)"
  obtains ds tr model export where "py_index cfg ''dataset'' = Inr ds" "py_index cfg ''training'' = Inr tr"
    "py_index cfg ''model'' = Inr model" "py_index cfg ''export'' = Inr export"
    "load_dataset_config ds = Some (Inr (sc_dataset c))" "load_train_config model tr = Some (Inr (sc_training c))"
    "read_key as_text export ''output_dir'' = Some (Inr (sc_output_dir c))"
    "read_key_or as_text export ''model_version'' (PStr ''1.0.0'') = Some (Inr (sc_model_version c))"
  using assms by (auto simp: load_script_config_def bind_typed_Inr_iff)

lemma load_dataset_configE:
  assumes "load_dataset_config ds = Some (Inr c)"
  obtains "read_key as_text ds ''preset'' = Some (Inr (dc_preset c))" "read_key as_integer ds ''max_samples'' = Some (Inr (dc_max_samples c))"
    "read_key as_number ds ''train_ratio'' = Some (Inr (dc_train_ratio c))" "read_key as_number ds ''val_ratio'' = Some (Inr (dc_val_ratio c))"
    "read_key_or as_integer ds ''seed'' (PInt 42) = Some (Inr (dc_seed c))"
  using assms by (auto simp: load_dataset_config_def bind_typed_Inr_iff)

lemma train_script_complete:
  assumes "load_script_config cfg = Some (Inr c)" and "parse_args train_parser argv = Inr ns" and "read_config (arg ns ''config'') = Inr cfg"
  shows "train_script hash env read_config argv a = Some (train_main hash env c a)"
proof -
  obtain ds tr model export where p: "py_index cfg ''dataset'' = Inr ds" "py_index cfg ''training'' = Inr tr"
    "py_index cfg ''model'' = Inr model" "py_index cfg ''export'' = Inr export"
    "load_dataset_config ds = Some (Inr (sc_dataset c))" "load_train_config model tr = Some (Inr (sc_training c))"
    "read_key as_text export ''output_dir'' = Some (Inr (sc_output_dir c))"
    "read_key_or as_text export ''model_version'' (PStr ''1.0.0'') = Some (Inr (sc_model_version c))"
    using load_script_configE [OF assms(1)] by metis
  show ?thesis
    unfolding train_script_def train_main_def open_config_Inr [of _ _ _ read_config, OF assms(2,3)]
    by (simp add: p(1-4,6-8) script_splits_complete [OF p(5)] bind_typed_def bind_res_def split: sum.splits prod.splits)
qed

lemma prepare_script_complete:
  assumes "load_script_config cfg = Some (Inr c)" and "parse_args prepare_parser argv = Inr ns" and "read_config (arg ns ''config'') = Inr cfg"
  shows "prepare_script hash env read_config argv =
    Some (bind_res (prepare_dataset hash env (sc_dataset c)) (\<lambda>(data, meta). Inr (arg ns ''output'', data, meta)))"
proof -
  obtain ds where p: "py_index cfg ''dataset'' = Inr ds" "load_dataset_config ds = Some (Inr (sc_dataset c))"
    using load_script_configE [OF assms(1)] by metis
  show ?thesis
    unfolding prepare_script_def prepare_dataset_def open_config_Inr [of _ _ _ read_config, OF assms(2,3)]
    by (simp add: p(1) script_splits_complete [OF p(2)] bind_typed_def bind_res_def split: sum.splits prod.splits)
qed

lemma evaluate_script_complete:
  assumes "load_script_config cfg = Some (Inr c)" and "parse_args evaluate_parser argv = Inr ns" and "read_config (arg ns ''config'') = Inr cfg"
  shows "evaluate_script env read_config argv a =
    Some (bind_res (evaluate_main env (sc_dataset c) (arg ns ''checkpoint'') a) (\<lambda>e. Inr (arg ns ''output'', e)))"
proof -
  obtain ds where p: "py_index cfg ''dataset'' = Inr ds" "load_dataset_config ds = Some (Inr (sc_dataset c))"
    using load_script_configE [OF assms(1)] by metis
  obtain i: "read_key as_text ds ''preset'' = Some (Inr (dc_preset (sc_dataset c)))"
      "read_key as_integer ds ''max_samples'' = Some (Inr (dc_max_samples (sc_dataset c)))"
      "read_key_or as_integer ds ''seed'' (PInt 42) = Some (Inr (dc_seed (sc_dataset c)))"
    using load_dataset_configE [OF p(2)] by metis
  show ?thesis
    unfolding evaluate_script_def evaluate_main_def evaluation_splits_def open_config_Inr [of _ _ _ read_config, OF assms(2,3)]
    by (simp add: p(1) i bind_typed_def bind_res_def Let_def split: sum.splits prod.splits)
qed

lemma shipped_config_complete:
  "load_script_config shipped_config = Some (Inr \<lparr>sc_dataset = \<lparr>dc_preset = ''synthetic'', dc_max_samples = 8000,
       dc_train_ratio = 8 / 10, dc_val_ratio = 1 / 10, dc_seed = 42\<rparr>, sc_training = default_train_config,
     sc_output_dir = ''shared/models'', sc_model_version = ''1.0.0''\<rparr>)"
  by (simp add: load_script_config_def load_dataset_config_def load_train_config_def shipped_config_def view_def default_train_config_def)

section \<open>Properties\<close>



text \<open>
  The section on the export is looked at only after the training: when it names no directory, a
  run that would succeed with one raises, with the trained network left in the checkpoint.
\<close>

theorem export_section_read_last:
  assumes "parse_args train_parser argv = Inr ns" and "read_config (arg ns ''config'') = Inr cfg"
    and "py_index cfg ''dataset'' = Inr ds" and "py_index cfg ''training'' = Inr tr" and "py_index cfg ''model'' = Inr model"
    and "py_index cfg ''export'' = Inr (PDict e)" and "dict_get e ''output_dir'' = None"
    and "load_dataset_config ds = Some (Inr dc)" and "load_train_config model tr = Some (Inr tc)"
    and "train_main hash env \<lparr>sc_dataset = dc, sc_training = tc, sc_output_dir = dir, sc_model_version = version\<rparr> a = Inr (meta, a')"
  shows "train_script hash env read_config argv a = Some (Inl (KeyError ''output_dir''))"
proof -
  obtain samples splits result states wts y preds where "deduplicated_splits hash env dc = Inr (samples, splits)"
    "train (se_torch env) tc splits (ar_states a) = Inr (result, states)"
    "load_default env (tres_checkpoint_path result) states = Inr wts" "test_predictions env wts splits = Inr (y, preds)"
    "\<exists>cs. se_correlations env y preds = Inr cs"
    using assms(10) by (auto simp: train_main_def bind_res_Inr_iff)
  then show ?thesis
    unfolding train_script_def open_config_Inr [of _ _ _ read_config, OF assms(1,2)]
    by (auto simp: assms(3-7,9) script_splits_complete [OF assms(8)] view_def)
qed

end
