(* ===== verification/TrainerLogging.thy ===== *)
theory TrainerLogging
  imports Trainer
begin

text \<open>
  The rest of \<^verbatim>\<open>python/predictor/trainer.py\<close>: the constructor with seeding and the choice of the
  device, and training with the optional experiment loggers (TensorBoard, Weights \<open>&\<close> Biases, MLflow).
  The calls that leave the program are events of a trace; \<open>ext\<close> says, from the trace so far, whether
  a call raises. The environment is a function from names to values.
\<close>

section \<open>Calls of other packages\<close>

datatype ext_call =
    SeedRandom int | SeedNumpy int | SeedTorch int | SeedCuda int | SetHashSeed int | MakeDevice string
  | ImportTensorboard | OpenWriter string | AddScalar string real nat | CloseWriter
  | ImportWandb | WandbInit string train_config | WandbLog train_metrics | WandbFinish
  | ImportMlflow | SetExperiment string | StartRun | LogParams train_config
  | LogMetrics real real real nat | EndRun

type_synonym ext = "ext_call list \<Rightarrow> ext_call \<Rightarrow> pyexn option"

abbreviation ImportError :: pyexn where
  "ImportError \<equiv> OtherError ''ImportError''"

text \<open>Calls in sequence, up to the first that raises; the trace keeps the call that raised.\<close>

fun run_calls :: "ext \<Rightarrow> ext_call list \<Rightarrow> ext_call list \<Rightarrow> pyexn option \<times> ext_call list" where
  "run_calls ext [] tr = (None, tr)"
| "run_calls ext (c # cs) tr =
     (case ext tr c of Some e \<Rightarrow> (Some e, tr @ [c]) | None \<Rightarrow> run_calls ext cs (tr @ [c]))"

section \<open>The constructor\<close>

definition setup_seed :: "bool \<Rightarrow> int \<Rightarrow> ext_call list" where
  "setup_seed cuda seed =
     [SeedRandom seed, SeedNumpy seed, SeedTorch seed] @ (if cuda then [SeedCuda seed] else []) @ [SetHashSeed seed]"

definition resolve_device :: "bool \<Rightarrow> string \<Rightarrow> string" where
  "resolve_device cuda device = (if device = ''auto'' then (if cuda then ''cuda'' else ''cpu'') else device)"

record loggers =
  lg_tb :: bool
  lg_wandb :: bool
  lg_mlflow :: bool
  lg_trace :: "ext_call list"

record trainer =
  tn_config :: train_config
  tn_device :: string
  tn_loggers :: loggers

definition mk_trainer :: "ext \<Rightarrow> bool \<Rightarrow> train_config option \<Rightarrow> trainer pyres" where
  "mk_trainer ext cuda config =
     (let cfg = (case config of Some c \<Rightarrow> c | None \<Rightarrow> default_train_config);
          device = resolve_device cuda (tr_device cfg)
      in case run_calls ext (setup_seed cuda (tr_seed cfg) @ [MakeDevice device]) [] of
           (Some e, tr) \<Rightarrow> Inl e
         | (None, tr) \<Rightarrow> Inr \<lparr>tn_config = cfg, tn_device = device,
             tn_loggers = \<lparr>lg_tb = False, lg_wandb = False, lg_mlflow = False, lg_trace = tr\<rparr>\<rparr>)"

section \<open>Loggers\<close>

definition env_set :: "(string \<Rightarrow> string option) \<Rightarrow> string \<Rightarrow> bool" where
  "env_set env k \<longleftrightarrow> (case env k of None \<Rightarrow> False | Some v \<Rightarrow> v \<noteq> [])"

definition use_tensorboard :: "(string \<Rightarrow> string option) \<Rightarrow> bool" where
  "use_tensorboard env \<longleftrightarrow> lower (case env ''USE_TENSORBOARD'' of None \<Rightarrow> [] | Some v \<Rightarrow> v) \<in> {''1'', ''true''}"

text \<open>TensorBoard: every exception is swallowed.\<close>

definition init_tensorboard :: "ext \<Rightarrow> (string \<Rightarrow> string option) \<Rightarrow> train_config \<Rightarrow> loggers \<Rightarrow> pyexn option \<times> loggers" where
  "init_tensorboard ext env cfg l =
     (if use_tensorboard env
      then (case run_calls ext [ImportTensorboard, OpenWriter (tr_log_dir cfg)] (lg_trace l) of
              (e, tr) \<Rightarrow> (None, l\<lparr>lg_tb := (if e = None then True else lg_tb l), lg_trace := tr\<rparr>))
      else (None, l))"

text \<open>The other two swallow an \<^verbatim>\<open>ImportError\<close> only.\<close>

definition unless_import :: "pyexn option \<Rightarrow> pyexn option" where
  "unless_import e = (if e = Some ImportError then None else e)"

definition init_wandb :: "ext \<Rightarrow> (string \<Rightarrow> string option) \<Rightarrow> train_config \<Rightarrow> loggers \<Rightarrow> pyexn option \<times> loggers" where
  "init_wandb ext env cfg l =
     (if env_set env ''WANDB_PROJECT''
      then (case run_calls ext [ImportWandb, WandbInit (the (env ''WANDB_PROJECT'')) cfg] (lg_trace l) of
              (e, tr) \<Rightarrow> (unless_import e, l\<lparr>lg_wandb := (if e = None then True else lg_wandb l), lg_trace := tr\<rparr>))
      else (None, l))"

definition init_mlflow :: "ext \<Rightarrow> (string \<Rightarrow> string option) \<Rightarrow> train_config \<Rightarrow> loggers \<Rightarrow> pyexn option \<times> loggers" where
  "init_mlflow ext env cfg l =
     (if env_set env ''MLFLOW_TRACKING_URI''
      then (let experiment = (case env ''MLFLOW_EXPERIMENT'' of None \<Rightarrow> ''output-length'' | Some v \<Rightarrow> v)
            in case run_calls ext [ImportMlflow, SetExperiment experiment, StartRun] (lg_trace l) of
                 (Some e, tr) \<Rightarrow> (unless_import (Some e), l\<lparr>lg_trace := tr\<rparr>)
               | (None, tr) \<Rightarrow>
                   (case run_calls ext [LogParams cfg] tr of
                      (e, tr') \<Rightarrow> (unless_import e, l\<lparr>lg_mlflow := True, lg_trace := tr'\<rparr>)))
      else (None, l))"

text \<open>One after the other, up to an exception.\<close>

definition and_then ::
  "(loggers \<Rightarrow> pyexn option \<times> loggers) \<Rightarrow> (loggers \<Rightarrow> pyexn option \<times> loggers) \<Rightarrow> loggers \<Rightarrow> pyexn option \<times> loggers" where
  "and_then f g l = (case f l of (Some e, l') \<Rightarrow> (Some e, l') | (None, l') \<Rightarrow> g l')"

definition init_loggers :: "ext \<Rightarrow> (string \<Rightarrow> string option) \<Rightarrow> train_config \<Rightarrow> loggers \<Rightarrow> pyexn option \<times> loggers" where
  "init_loggers ext env cfg =
     and_then (init_tensorboard ext env cfg) (and_then (init_wandb ext env cfg) (init_mlflow ext env cfg))"

definition metric_calls :: "loggers \<Rightarrow> train_metrics \<Rightarrow> ext_call list" where
  "metric_calls l m =
     (if lg_tb l then [AddScalar ''loss/train'' (tm_train_loss m) (tm_epoch m), AddScalar ''loss/val'' (tm_val_loss m) (tm_epoch m),
                       AddScalar ''mae/val'' (tm_val_mae m) (tm_epoch m)] else []) @
     (if lg_wandb l then [WandbLog m] else []) @
     (if lg_mlflow l then [LogMetrics (tm_train_loss m) (tm_val_loss m) (tm_val_mae m) (tm_epoch m)] else [])"

definition close_calls :: "loggers \<Rightarrow> ext_call list" where
  "close_calls l = (if lg_tb l then [CloseWriter] else []) @ (if lg_wandb l then [WandbFinish] else []) @
     (if lg_mlflow l then [EndRun] else [])"

definition log_calls :: "ext \<Rightarrow> ext_call list \<Rightarrow> loggers \<Rightarrow> pyexn option \<times> loggers" where
  "log_calls ext cs l = (case run_calls ext cs (lg_trace l) of (e, tr) \<Rightarrow> (e, l\<lparr>lg_trace := tr\<rparr>))"

definition log_metrics :: "ext \<Rightarrow> train_metrics \<Rightarrow> loggers \<Rightarrow> pyexn option \<times> loggers" where
  "log_metrics ext m l = log_calls ext (metric_calls l m) l"

definition close_loggers :: "ext \<Rightarrow> loggers \<Rightarrow> pyexn option \<times> loggers" where
  "close_loggers ext l = log_calls ext (close_calls l) l"

section \<open>Training with loggers\<close>

text \<open>The metrics are logged before the bookkeeping of the epoch; an exception leaves the loop.\<close>

fun logged_loop ::
  "ext \<Rightarrow> ('m \<Rightarrow> 'w) \<Rightarrow> int \<Rightarrow> (nat \<Rightarrow> 'm \<Rightarrow> train_metrics \<times> 'm) \<Rightarrow> nat list \<Rightarrow> ('m, 'w) loop_state \<Rightarrow> loggers \<Rightarrow>
   pyexn option \<times> ('m, 'w) loop_state \<times> loggers" where
  "logged_loop ext state_dict patience run [] s l = (None, s, l)"
| "logged_loop ext state_dict patience run (e # es) s l =
     (case run e (ls_model s) of (tm, m) \<Rightarrow>
      case log_metrics ext tm l of
        (Some x, l') \<Rightarrow> (Some x, s, l')
      | (None, l') \<Rightarrow>
          (case book_epoch state_dict patience e tm m s of (stop, s') \<Rightarrow>
             if stop then (None, s', l') else logged_loop ext state_dict patience run es s' l'))"

definition train_outcome :: "train_config \<Rightarrow> dataset_splits \<Rightarrow> ('m, 'w) loop_state \<Rightarrow> train_result" where
  "train_outcome cfg d s =
     \<lparr>tres_best_epoch = ls_best_epoch s, tres_best_val_loss = ls_best_val s, tres_metrics_history = ls_history s,
      tres_checkpoint_path = path_join (tr_checkpoint_dir cfg) ''best.pt'',
      tres_feature_mean = the (ds_feature_mean d), tres_feature_std = the (ds_feature_std d)\<rparr>"

definition checkpoint_files :: "train_config \<Rightarrow> ('m, 'w) loop_state \<Rightarrow> (string, 'w) dict \<Rightarrow> (string, 'w) dict" where
  "checkpoint_files cfg s files =
     (case ls_saved s of None \<Rightarrow> files | Some wts \<Rightarrow> dict_set (path_join (tr_checkpoint_dir cfg) ''best.pt'') wts files)"

text \<open>\<^verbatim>\<open>train\<close>: the result or exception, the files and the loggers afterwards.\<close>

definition train_logged ::
  "ext \<Rightarrow> (string \<Rightarrow> string option) \<Rightarrow> ('m, 'w) torch \<Rightarrow> train_config \<Rightarrow> dataset_splits \<Rightarrow> (string, 'w) dict \<Rightarrow> loggers \<Rightarrow>
   train_result pyres \<times> (string, 'w) dict \<times> loggers" where
  "train_logged ext env T cfg d files l =
     (case make_loaders d of
        Inl e \<Rightarrow> (Inl e, files, l)
      | Inr (tr, va) \<Rightarrow>
          (case init_loggers ext env cfg l of
             (Some e, l1) \<Rightarrow> (Inl e, files, l1)
           | (None, l1) \<Rightarrow>
               (case logged_loop ext (tc_state_dict T) (tr_patience cfg) (run_epoch T cfg tr va)
                       [1..<Suc (nat (tr_epochs cfg))] (loop_start (tc_init T cfg)) l1 of
                  (Some e, s, l2) \<Rightarrow> (Inl e, checkpoint_files cfg s files, l2)
                | (None, s, l2) \<Rightarrow>
                    (case close_loggers ext l2 of
                       (Some e, l3) \<Rightarrow> (Inl e, checkpoint_files cfg s files, l3)
                     | (None, l3) \<Rightarrow> (Inr (train_outcome cfg d s), checkpoint_files cfg s files, l3)))))"

section \<open>Facts\<close>

text \<open>
  A stage only adds calls of \<open>A\<close> to the trace, and an exception is that of the last call.
\<close>

definition traced :: "ext \<Rightarrow> ext_call set \<Rightarrow> ext_call list \<Rightarrow> pyexn option \<Rightarrow> ext_call list \<Rightarrow> bool" where
  "traced ext A tr e tr' \<longleftrightarrow> (\<exists>new. tr' = tr @ new \<and> set new \<subseteq> A) \<and>
     (\<forall>x. e = Some x \<longrightarrow> (\<exists>before c. tr' = before @ [c] \<and> ext before c = Some x))"

text \<open>The last call raised \<open>e\<close>, and unless it closes a logger itself, none was closed.\<close>

definition closing :: "ext_call set" where
  "closing = {CloseWriter, WandbFinish, EndRun}"

definition raised_last :: "ext \<Rightarrow> ext_call list \<Rightarrow> pyexn \<Rightarrow> ext_call list \<Rightarrow> bool" where
  "raised_last ext tr e tr' \<longleftrightarrow> (\<exists>before c new. tr' = before @ [c] \<and> ext before c = Some e \<and> tr' = tr @ new \<and>
     (c \<notin> closing \<longrightarrow> set new \<inter> closing = {}))"

lemma raised_open: "traced ext (- closing) tr (Some e) tr' \<Longrightarrow> raised_last ext tr e tr'"
  unfolding traced_def raised_last_def by blast

lemma traced_refl [simp, intro]: "traced ext A tr None tr"
  by (simp add: traced_def)

lemma traced_trans: "traced ext A tr e0 tr1 \<Longrightarrow> traced ext A tr1 e tr2 \<Longrightarrow> traced ext A tr e tr2"
  by (auto simp: traced_def)

lemma traced_forget: "traced ext A tr e tr' \<Longrightarrow> traced ext A tr None tr'"
  by (simp add: traced_def)

lemma run_calls_traced: "run_calls ext cs tr = (e, tr') \<Longrightarrow> set cs \<subseteq> A \<Longrightarrow> traced ext A tr e tr'"
proof (induction cs arbitrary: tr)
  case (Cons c cs)
  have one: "traced ext A tr x (tr @ [c])" if "x = None \<or> ext tr c = x" for x
    using Cons.prems(2) that by (auto simp: traced_def)
  show ?case
  proof (cases "ext tr c")
    case None
    with Cons have "traced ext A (tr @ [c]) e tr'" by simp
    with one [of None] show ?thesis by (auto intro: traced_trans)
  next
    case (Some x)
    with Cons.prems one [of "Some x"] show ?thesis by auto
  qed
qed auto

lemma run_calls_None: "run_calls ext cs tr = (None, tr') \<Longrightarrow> tr' = tr @ cs"
  by (induction cs arbitrary: tr) (fastforce split: option.splits)+

lemma run_calls_silent: "\<forall>c \<in> set cs. \<forall>tr. ext tr c = None \<Longrightarrow> run_calls ext cs tr = (None, tr @ cs)"
  by (induction cs arbitrary: tr) auto

text \<open>The exceptions that the setup of the loggers survives.\<close>

fun tolerated :: "ext_call \<Rightarrow> pyexn \<Rightarrow> bool" where
  "tolerated ImportTensorboard e = True"
| "tolerated (OpenWriter d) e = True"
| "tolerated ImportWandb e = (e = ImportError)"
| "tolerated ImportMlflow e = (e = ImportError)"
| "tolerated c e = False"

lemma and_then_traced:
  assumes "\<And>l e l'. f l = (e, l') \<Longrightarrow> traced ext A (lg_trace l) e (lg_trace l')"
    and "\<And>l e l'. g l = (e, l') \<Longrightarrow> traced ext A (lg_trace l) e (lg_trace l')"
    and "and_then f g l = (e, l')"
  shows "traced ext A (lg_trace l) e (lg_trace l')"
  using assms(3) by (auto simp: and_then_def split: prod.splits option.splits intro: assms(1) traced_trans [OF assms(1) assms(2)])

lemma init_loggers_traced: "init_loggers ext env cfg l = (e, l') \<Longrightarrow> traced ext (- closing) (lg_trace l) e (lg_trace l')"
proof -
  have tb: "traced ext (- closing) (lg_trace l) e (lg_trace l')" if "init_tensorboard ext env cfg l = (e, l')" for l e l'
    using that run_calls_traced [of ext "[ImportTensorboard, OpenWriter (tr_log_dir cfg)]" "lg_trace l" _ _ "- closing"]
    by (auto simp: init_tensorboard_def closing_def split: if_splits prod.splits intro: traced_forget)
  have wb: "traced ext (- closing) (lg_trace l) e (lg_trace l')" if "init_wandb ext env cfg l = (e, l')" for l e l'
    using that run_calls_traced [of ext "[ImportWandb, WandbInit (the (env ''WANDB_PROJECT'')) cfg]" "lg_trace l" _ _ "- closing"]
    by (auto simp: init_wandb_def closing_def unless_import_def split: if_splits prod.splits intro: traced_forget)
  have ml: "traced ext (- closing) (lg_trace l) e (lg_trace l')" if "init_mlflow ext env cfg l = (e, l')" for l e l'
  proof -
    let ?cs = "[ImportMlflow, SetExperiment (case env ''MLFLOW_EXPERIMENT'' of None \<Rightarrow> ''output-length'' | Some v \<Rightarrow> v), StartRun]"
    obtain e1 tr1 where 1: "run_calls ext ?cs (lg_trace l) = (e1, tr1)" by force
    obtain e2 tr2 where 2: "run_calls ext [LogParams cfg] tr1 = (e2, tr2)" by force
    have t: "traced ext (- closing) (lg_trace l) e1 tr1" "traced ext (- closing) tr1 e2 tr2"
      by (rule run_calls_traced [OF 1] run_calls_traced [OF 2]; simp add: closing_def)+
    from that 1 2 t traced_trans [OF t] show ?thesis
      by (auto simp: init_mlflow_def Let_def unless_import_def split: if_splits option.splits prod.splits intro: traced_forget)
  qed
  have wm: "traced ext (- closing) (lg_trace l) e (lg_trace l')"
    if "and_then (init_wandb ext env cfg) (init_mlflow ext env cfg) l = (e, l')" for l e l'
    by (rule and_then_traced [OF _ _ that]) (fact wb ml)+
  assume "init_loggers ext env cfg l = (e, l')"
  then show ?thesis unfolding init_loggers_def by (rule and_then_traced [rotated 2]) (fact tb wm)+
qed

lemma init_loggers_tolerated:
  assumes "\<And>tr c e. ext tr c = Some e \<Longrightarrow> tolerated c e"
  shows "\<exists>l'. init_loggers ext env cfg l = (None, l')"
proof -
  have ok: "ext tr c = None" if "\<And>e. \<not> tolerated c e" for tr c using assms that by (cases "ext tr c") auto
  have imp: "ext tr c = Some e \<Longrightarrow> e = ImportError" if "c = ImportWandb \<or> c = ImportMlflow" for tr c e
    using assms that by fastforce
  have "\<exists>l'. init_tensorboard ext env cfg l = (None, l')" "\<exists>l'. init_wandb ext env cfg l = (None, l')"
    "\<exists>l'. init_mlflow ext env cfg l = (None, l')" for l
    using imp by (auto simp: init_tensorboard_def init_wandb_def init_mlflow_def unless_import_def ok Let_def
        split: prod.splits option.splits)
  then show ?thesis unfolding init_loggers_def and_then_def by (metis (no_types, lifting) case_prod_conv option.simps(4))
qed

lemma log_calls_effect:
  assumes "log_calls ext cs l = (e, l')" and "set cs \<subseteq> A"
  shows "traced ext A (lg_trace l) e (lg_trace l')" "l' = l\<lparr>lg_trace := lg_trace l'\<rparr>"
    "e = None \<Longrightarrow> lg_trace l' = lg_trace l @ cs"
  using assms run_calls_traced [OF _ assms(2), of ext "lg_trace l"] run_calls_None [of ext cs "lg_trace l"]
  by (auto simp: log_calls_def split: prod.splits)

lemma metric_calls_open: "set (metric_calls l m) \<subseteq> - closing"
  by (auto simp: metric_calls_def closing_def)

lemma calls_flags [simp]:
  "metric_calls (l\<lparr>lg_trace := tr\<rparr>) = metric_calls l" "close_calls (l\<lparr>lg_trace := tr\<rparr>) = close_calls l"
  by (auto simp: metric_calls_def close_calls_def)

text \<open>The loop with loggers: without an exception it is the loop without them.\<close>

lemma book_epoch_history: "book_epoch sd patience e tm m s = (stop, s') \<Longrightarrow> ls_history s' = ls_history s @ [tm]"
  by (auto simp: book_epoch_def Let_def split: if_splits)

lemma logged_loop_effect:
  assumes "logged_loop ext sd patience run es s l = (e, s', l')"
  shows "traced ext (- closing) (lg_trace l) e (lg_trace l') \<and> l' = l\<lparr>lg_trace := lg_trace l'\<rparr> \<and>
    (e = None \<longrightarrow> s' = train_loop sd patience run es s \<and>
      (\<exists>new. ls_history s' = ls_history s @ new \<and> lg_trace l' = lg_trace l @ concat (map (metric_calls l) new)))"
  using assms
proof (induction es arbitrary: s l)
  case (Cons k es)
  obtain tm m where r: "run k (ls_model s) = (tm, m)" by force
  obtain x l1 where lm: "log_metrics ext tm l = (x, l1)" by force
  note eff = log_calls_effect [OF lm [unfolded log_metrics_def] metric_calls_open]
  show ?case
  proof (cases x)
    case (Some y)
    with Cons.prems r lm have "e = Some y" "l' = l1" by simp_all
    with Some eff(1,2) show ?thesis by simp
  next
    case None
    obtain stop s1 where b: "book_epoch sd patience k tm m s = (stop, s1)" by force
    note h = book_epoch_history [OF b] and tr1 = eff(3) [OF None]
    show ?thesis
    proof (cases stop)
      case True
      with Cons.prems r lm None b have "e = None" "s' = s1" "l' = l1" by simp_all
      with True r b eff(1,2) h tr1 None show ?thesis by simp
    next
      case False
      with Cons.prems r lm None b have l: "logged_loop ext sd patience run es s1 l1 = (e, s', l')" by simp
      have mc: "metric_calls l1 = metric_calls l" using eff(2) calls_flags(1) by metis
      from Cons.IH [OF l] traced_trans [OF eff(1)] eff(2) show ?thesis
        using False r b h tr1 mc by (auto simp: fun_eq_iff)
    qed
  qed
qed auto

lemma logged_loop_silent:
  assumes "\<And>tr c. (\<And>e. \<not> tolerated c e) \<Longrightarrow> ext tr c = None"
  shows "fst (logged_loop ext sd patience run es s l) = None"
proof (induction es arbitrary: s l)
  case (Cons k es)
  have "\<forall>c \<in> set (metric_calls l m). \<forall>tr. ext tr c = None" for l m
    by (auto simp: metric_calls_def assms)
  from run_calls_silent [OF this] Cons show ?case
    by (auto simp: log_metrics_def log_calls_def split: prod.splits)
qed simp

lemma train_by_outcome:
  "train T cfg d files = bind_res (make_loaders d) (\<lambda>(tr, va).
     let s = train_loop (tc_state_dict T) (tr_patience cfg) (run_epoch T cfg tr va) [1..<Suc (nat (tr_epochs cfg))]
               (loop_start (tc_init T cfg))
     in Inr (train_outcome cfg d s, checkpoint_files cfg s files))"
  by (simp add: train_def train_outcome_def checkpoint_files_def Let_def split_beta)

lemma close_outcome:
  assumes "close_loggers ext l = (e, l')" and "traced ext (- closing) tr None (lg_trace l)"
  shows "case e of Some x \<Rightarrow> raised_last ext tr x (lg_trace l') | None \<Rightarrow> lg_trace l' = lg_trace l @ close_calls l"
proof (cases e)
  case None
  with log_calls_effect(3) [OF assms(1) [unfolded close_loggers_def] subset_UNIV] show ?thesis by simp
next
  case (Some x)
  have sub: "set (close_calls l) \<subseteq> closing" by (auto simp: close_calls_def closing_def)
  note t = log_calls_effect(1) [OF assms(1) [unfolded close_loggers_def] sub, unfolded Some traced_def]
  obtain before c where bc: "lg_trace l' = before @ [c]" "ext before c = Some x" using t by blast
  obtain n1 n2 where n: "lg_trace l' = lg_trace l @ n1" "set n1 \<subseteq> closing" "lg_trace l = tr @ n2" "set n2 \<subseteq> - closing"
    using t assms(2) by (auto simp: traced_def)
  have "c \<in> closing \<or> set (n2 @ n1) \<inter> closing = {}"
  proof (cases "n1 = []")
    case True
    then show ?thesis using n(4) by auto
  next
    case False
    then have "c = last n1" using bc(1) n(1) by (metis last_appendR last_snoc)
    with last_in_set [OF False] n(2) show ?thesis by auto
  qed
  with bc n(1,3) show ?thesis unfolding Some raised_last_def option.case by (metis append.assoc)
qed

text \<open>The stages of training with loggers once the data is loaded.\<close>

lemma train_logged_outcome:
  assumes "make_loaders d = Inr (tr, va)" and "train_logged ext env T cfg d files l = (res, files', l')"
  shows "case res of
      Inl e \<Rightarrow> raised_last ext (lg_trace l) e (lg_trace l')
    | Inr r \<Rightarrow> train T cfg d files = Inr (r, files') \<and>
        (\<exists>l1. init_loggers ext env cfg l = (None, l1) \<and>
           lg_trace l' = lg_trace l1 @ concat (map (metric_calls l1) (tres_metrics_history r)) @ close_calls l1)"
proof -
  obtain e1 l1 where i: "init_loggers ext env cfg l = (e1, l1)" by force
  obtain e2 s l2 where o: "logged_loop ext (tc_state_dict T) (tr_patience cfg) (run_epoch T cfg tr va)
      [1..<Suc (nat (tr_epochs cfg))] (loop_start (tc_init T cfg)) l1 = (e2, s, l2)" by (metis prod.collapse)
  obtain e3 l3 where c: "close_loggers ext l2 = (e3, l3)" by force
  note eq = assms(2) [unfolded train_logged_def assms(1) sum.case prod.case i o c]
  note t1 = init_loggers_traced [OF i] and t2 = logged_loop_effect [OF o]
  have t12: "traced ext (- closing) (lg_trace l) e2 (lg_trace l2)" using traced_trans [OF t1] t2 by blast
  show ?thesis
  proof (cases e1)
    case (Some x)
    with eq have "res = Inl x" "l' = l1" by simp_all
    with Some t1 show ?thesis by (simp add: raised_open)
  next
    case e1: None
    show ?thesis
    proof (cases e2)
      case (Some x)
      with eq e1 have "res = Inl x" "l' = l2" by simp_all
      with Some t12 show ?thesis by (simp add: raised_open)
    next
      case e2: None
      have "close_calls l2 = close_calls l1" using t2 calls_flags(2) by metis
      moreover have "train T cfg d files = Inr (train_outcome cfg d s, checkpoint_files cfg s files)"
        using t2 e2 assms(1) by (simp add: train_by_outcome Let_def)
      moreover have "lg_trace l2 = lg_trace l1 @ concat (map (metric_calls l1) (ls_history s))"
        using t2 e2 by (auto simp: loop_start_def)
      ultimately show ?thesis using eq e1 e2 i close_outcome [OF c traced_forget [OF t12]]
        by (cases e3) (auto simp: train_outcome_def)
    qed
  qed
qed

section \<open>Properties\<close>



text \<open>Training with MLflow, and a package for Weights \<open>&\<close> Biases that is not installed.\<close>

definition no_wandb :: ext where
  "no_wandb tr c = (if c = ImportWandb then Some ImportError else None)"

definition sample_environ :: "string \<Rightarrow> string option" where
  "sample_environ = [''WANDB_PROJECT'' \<mapsto> ''p'', ''MLFLOW_TRACKING_URI'' \<mapsto> ''uri'']"


text \<open>
  A run that Weights \<open>&\<close> Biases refuses to start (for any reason but a missing package) aborts training
  before the first epoch: no checkpoint is written.
\<close>

theorem wandb_failure_aborts_training:
  assumes "env ''WANDB_PROJECT'' = Some (c # cs)" and "\<And>tr. ext tr ImportWandb = None"
    and "\<And>tr p cfg. ext tr (WandbInit p cfg) = Some e" and "e \<noteq> ImportError" and "make_loaders d = Inr x"
  shows "fst (train_logged ext env T cfg d files l) = Inl e \<and> fst (snd (train_logged ext env T cfg d files l)) = files"
proof -
  have "fst (init_wandb ext env cfg l) = Some e" for l
    using assms by (simp add: init_wandb_def env_set_def unless_import_def)
  moreover have "fst (init_tensorboard ext env cfg l) = None" for l by (simp add: init_tensorboard_def split: prod.splits)
  ultimately have "fst (init_loggers ext env cfg l) = Some e"
    unfolding init_loggers_def and_then_def by (auto split: prod.splits option.splits) (metis fst_conv option.distinct(1) option.inject)+
  with assms(5) show ?thesis by (cases x) (auto simp: train_logged_def split: prod.splits)
qed

theorem wandb_failure_aborts_training_witness:
  "fst (train_logged (\<lambda>tr c. case c of WandbInit p cfg \<Rightarrow> Some TimeoutError | _ \<Rightarrow> None) sample_environ sample_torch
     default_train_config sample_splits [] \<lparr>lg_tb = False, lg_wandb = False, lg_mlflow = False, lg_trace = []\<rparr>) = Inl TimeoutError"
  by (rule wandb_failure_aborts_training [THEN conjunct1, OF _ _ _ _ sample_loaders]) (simp_all add: sample_environ_def)

end
