(* ===== verification/AuditStatic.thy ===== *)
theory AuditStatic
  imports Py_Text "HOL-Library.List_Lexorder" "HOL-Library.Char_ord" "HOL-Library.Product_Lexorder"
begin

text \<open>
  The static integrity pass of the audit, \<^verbatim>\<open>audit_scripts/phase1_static.py\<close>. The checkout (its files and
  their texts), the external programs and the parsers are arguments. A step of the script writes
  lines to the log and may raise; it is a function from the log so far to its result and the log.
\<close>

section \<open>Steps that log\<close>

type_synonym 'a step = "string list \<Rightarrow> 'a pyres \<times> string list"

definition ret :: "'a \<Rightarrow> 'a step" where
  "ret x l = (Inr x, l)"

definition and_with :: "'a step \<Rightarrow> ('a \<Rightarrow> 'b step) \<Rightarrow> 'b step" where
  "and_with m f l = (case m l of (Inl e, l') \<Rightarrow> (Inl e, l') | (Inr x, l') \<Rightarrow> f x l')"

definition say :: "string \<Rightarrow> unit step" where
  "say msg l = (Inr (), l @ [msg])"

fun for_each :: "('a \<Rightarrow> 'b step) \<Rightarrow> 'a list \<Rightarrow> 'b list step" where
  "for_each f [] = ret []"
| "for_each f (x # xs) = and_with (f x) (\<lambda>y. and_with (for_each f xs) (\<lambda>ys. ret (y # ys)))"

text \<open>\<^verbatim>\<open>subprocess.run\<close>: exit code and output, or an exception when the program does not exist.\<close>

record run_result =
  rr_code :: int
  rr_out :: string
  rr_err :: string

type_synonym proc = "string list \<Rightarrow> run_result pyres"

definition call :: "proc \<Rightarrow> string list \<Rightarrow> run_result step" where
  "call proc cmd l = (proc cmd, l)"

section \<open>References in files\<close>

text \<open>The texts of group 1 of the matches of a pattern \<open>a(b)\<close>.\<close>

definition rx_groups :: "rx \<Rightarrow> rx \<Rightarrow> string \<Rightarrow> string list" where
  "rx_groups a b s =
     map (\<lambda>(i, j). slice s (the (find (\<lambda>k. rx_ends b s k \<noteq> []) (rx_ends a s i))) j) (rx_spans (Seq a b) s 0)"

definition non_space :: rx where
  "non_space = Plus (Cls (\<lambda>c. \<not> is_space c))"

definition COPY_PREFIX :: rx where
  "COPY_PREFIX = Seq (Lit ''COPY'') (Plus Space)"

definition VOLUMES_PREFIX :: rx where
  "VOLUMES_PREFIX = SeqL [Lit ''volumes:'', Star Space, Ch (CHR 0x0A), Star Space, Lit ''-'', Star Space]"

definition MODELS_PREFIX :: rx where
  "MODELS_PREFIX = SeqL [Lit ''models_dir'', Plus (Cls (\<lambda>c. c = CHR '':'' \<or> is_space c)),
     Alt (Cls (\<lambda>c. c = CHR 0x22 \<or> c = CHR 0x27)) Eps]"

definition patterns :: "(rx \<times> rx) list" where
  "patterns = [(COPY_PREFIX, non_space), (VOLUMES_PREFIX, non_space),
     (MODELS_PREFIX, Plus (Cls (\<lambda>c. c \<noteq> CHR 0x22 \<and> c \<noteq> CHR 0x27 \<and> \<not> is_space c)))]"

definition file_refs :: "string \<times> string \<Rightarrow> (string \<times> string) list" where
  "file_refs f = concat (map (\<lambda>(a, b). map (Pair (fst f)) (rx_groups a b (snd f))) patterns)"

section \<open>The checkout\<close>

text \<open>
  \<open>co_python\<close> are the paths of \<^verbatim>\<open>rglob("*.py")\<close>, \<open>co_files\<close> all files with what \<^verbatim>\<open>read_text\<close> gives,
  \<open>co_ref_files\<close> the files of the five globs with their texts. \<open>co_exists\<close> is whether \<^verbatim>\<open>ROOT / ref\<close>
  exists, \<open>co_resolved\<close> the same after \<^verbatim>\<open>resolve\<close>. A parser returns its exception; \<open>co_yaml\<close> is
  \<open>None\<close> without the package.
\<close>

record checkout =
  co_python :: "string list"
  co_files :: "(string \<times> string pyres) list"
  co_ref_files :: "(string \<times> string) list"
  co_exists :: "string \<Rightarrow> bool"
  co_resolved :: "string \<Rightarrow> bool"
  co_json :: "string \<Rightarrow> pyexn option"
  co_yaml :: "(string \<Rightarrow> pyexn option) option"
  co_toml :: "(string \<Rightarrow> pyexn option) option"

text \<open>\<^verbatim>\<open>Path.suffix\<close>: from the last dot of the name, unless it begins or ends the name.\<close>

definition base_name :: "string \<Rightarrow> string" where
  "base_name p = rev (takeWhile (\<lambda>c. c \<noteq> CHR ''/'') (rev p))"

definition path_suffix :: "string \<Rightarrow> string" where
  "path_suffix p =
     (let n = base_name p; ext = rev (takeWhile (\<lambda>c. c \<noteq> CHR ''.'') (rev n))
      in if CHR ''.'' \<in> set n \<and> ext \<noteq> [] \<and> Suc (length ext) < length n then ''.'' @ ext else [])"

section \<open>The sections of the script\<close>

definition git_section :: "proc \<Rightarrow> unit step" where
  "git_section proc =
     and_with (for_each (\<lambda>(title, cmd).
         and_with (say (CHR 0x0A # ''=== '' @ title @ '' ===''))
           (\<lambda>_. and_with (call proc cmd) (\<lambda>r. say (rr_out r @ rr_err r))))
       [(''git status'', [''git'', ''status'']), (''git diff --stat'', [''git'', ''diff'', ''--stat''])]) (\<lambda>_. ret ())"

definition skipped :: "string \<Rightarrow> bool" where
  "skipped p \<longleftrightarrow> has_infix ''.venv_audit'' p \<or> has_infix ''__pycache__'' p"

definition compile_file :: "proc \<Rightarrow> string \<Rightarrow> string \<Rightarrow> (string \<times> string) list step" where
  "compile_file proc python py =
     (if skipped py then ret []
      else and_with (call proc [python, ''-m'', ''py_compile'', py]) (\<lambda>r.
        if rr_code r \<noteq> 0
        then and_with (say (''FAIL: '' @ py @ [CHR 0x0A] @ rr_err r)) (\<lambda>_. ret [(py, rr_err r)])
        else ret []))"

definition compile_section :: "(pyval \<Rightarrow> string) \<Rightarrow> proc \<Rightarrow> string \<Rightarrow> checkout \<Rightarrow> (string \<times> string) list step" where
  "compile_section fmt proc python co =
     and_with (say (CHR 0x0A # ''=== py_compile all .py ==='')) (\<lambda>_.
     and_with (for_each (compile_file proc python) (co_python co)) (\<lambda>errss.
       let errors = concat errss
       in and_with (say (''COMPILE: '' @ fmt (PInt (int (length (co_python co)))) @ '' files, '' @
                         fmt (PInt (int (length errors))) @ '' errors'')) (\<lambda>_. ret errors)))"

definition import_section :: "(pyval \<Rightarrow> string) \<Rightarrow> proc \<Rightarrow> string \<Rightarrow> unit step" where
  "import_section fmt proc python =
     and_with (say (CHR 0x0A # ''=== import top-level packages ==='')) (\<lambda>_.
     and_with (for_each (\<lambda>pkg.
         and_with (call proc [python, ''-c'', ''import '' @ pkg @ ''; print('' @ [CHR 0x27] @ ''OK'' @ [CHR 0x27] @ '', '' @
             [CHR 0x27] @ pkg @ [CHR 0x27] @ '')'']) (\<lambda>r.
           say (pkg @ '': exit='' @ fmt (PInt (rr_code r)) @ [CHR 0x0A] @ rr_out r @ rr_err r)))
       [''vllm_port'', ''python.predictor'', ''python.scheduler'']) (\<lambda>_. ret ()))"

definition is_dangling :: "checkout \<Rightarrow> string \<Rightarrow> bool" where
  "is_dangling co ref \<longleftrightarrow> take 1 ref \<noteq> ''$'' \<and>
     \<not> (if take 1 ref = ''/'' then co_exists co ref else co_resolved co ref) \<and> \<not> co_exists co ref"

definition check_ref :: "checkout \<Rightarrow> string \<times> string \<Rightarrow> (string \<times> string) list step" where
  "check_ref co sr =
     (if is_dangling co (snd sr)
      then and_with (say (''DANGLING: '' @ fst sr @ '' -> '' @ snd sr)) (\<lambda>_. ret [sr])
      else ret [])"

definition dangling_section :: "(pyval \<Rightarrow> string) \<Rightarrow> checkout \<Rightarrow> (string \<times> string) list step" where
  "dangling_section fmt co =
     and_with (say (CHR 0x0A # ''=== dangling file references ==='')) (\<lambda>_.
       let refs = sort (remdups (concat (map file_refs (co_ref_files co))))
       in and_with (for_each (check_ref co) refs) (\<lambda>ds.
          and_with (say (''Dangling refs found: '' @ fmt (PInt (int (length (concat ds)))))) (\<lambda>_. ret (concat ds))))"

definition ruff_section :: "(pyval \<Rightarrow> string) \<Rightarrow> proc \<Rightarrow> unit step" where
  "ruff_section fmt proc =
     and_with (say (CHR 0x0A # ''=== ruff check . --select=F,E9 ==='')) (\<lambda>_.
     and_with (call proc [''ruff'', ''check'', ''.'', ''--select=F,E9'']) (\<lambda>r.
     and_with (say (rr_out r @ rr_err r)) (\<lambda>_. say (''ruff exit code: '' @ fmt (PInt (rr_code r))))))"

text \<open>What parsing a file of one of the four suffixes does: nothing, a skipped file, or an exception.\<close>

datatype parse_check = ParseOk | ParseSkip | ParseFail pyexn

definition check_config :: "checkout \<Rightarrow> (string \<Rightarrow> pyexn option) \<Rightarrow> string \<times> string pyres \<Rightarrow> parse_check" where
  "check_config co toml f =
     (let suf = lower (path_suffix (fst f)); verdict = (\<lambda>e. case e of None \<Rightarrow> ParseOk | Some x \<Rightarrow> ParseFail x)
      in if suf \<notin> {''.yaml'', ''.yml'', ''.json'', ''.toml''} then ParseOk
         else case snd f of
           Inl e \<Rightarrow> ParseFail e
         | Inr txt \<Rightarrow>
             if suf = ''.json'' then verdict (co_json co txt)
             else if suf = ''.toml'' then verdict (toml txt)
             else (case co_yaml co of None \<Rightarrow> ParseSkip | Some yaml \<Rightarrow> verdict (yaml txt)))"

definition config_file :: "(pyexn \<Rightarrow> string) \<Rightarrow> checkout \<Rightarrow> (string \<Rightarrow> pyexn option) \<Rightarrow> string \<times> string pyres \<Rightarrow> string list step" where
  "config_file msg co toml f =
     (case check_config co toml f of
        ParseOk \<Rightarrow> ret []
      | ParseSkip \<Rightarrow> and_with (say (''SKIP yaml (no pyyaml): '' @ fst f)) (\<lambda>_. ret [])
      | ParseFail e \<Rightarrow> and_with (say (''PARSE FAIL: '' @ fst f @ '': '' @ msg e)) (\<lambda>_. ret [fst f]))"

text \<open>\<^verbatim>\<open>import tomllib\<close> is not guarded: without the module the script raises.\<close>

definition parse_section :: "(pyval \<Rightarrow> string) \<Rightarrow> (pyexn \<Rightarrow> string) \<Rightarrow> checkout \<Rightarrow> string list step" where
  "parse_section fmt msg co =
     and_with (say (CHR 0x0A # ''=== config file parse validation ==='')) (\<lambda>_.
       case co_toml co of
         None \<Rightarrow> Pair (Inl (OtherError ''ModuleNotFoundError''))
       | Some toml \<Rightarrow>
           and_with (for_each (config_file msg co toml) (co_files co)) (\<lambda>fs.
           and_with (say (''Config parse errors: '' @ fmt (PInt (int (length (concat fs)))))) (\<lambda>_. ret (concat fs))))"

text \<open>\<^verbatim>\<open>main\<close>: the exit code.\<close>

definition phase1_main ::
  "(pyval \<Rightarrow> string) \<Rightarrow> (pyexn \<Rightarrow> string) \<Rightarrow> proc \<Rightarrow> string \<Rightarrow> checkout \<Rightarrow> int step" where
  "phase1_main fmt msg proc python co =
     and_with (git_section proc) (\<lambda>_.
     and_with (compile_section fmt proc python co) (\<lambda>errors.
     and_with (import_section fmt proc python) (\<lambda>_.
     and_with (dangling_section fmt co) (\<lambda>dangling.
     and_with (ruff_section fmt proc) (\<lambda>_.
     and_with (parse_section fmt msg co) (\<lambda>parse_errors.
       ret (if errors \<noteq> [] \<or> parse_errors \<noteq> [] then 1 else 0)))))))"

section \<open>Facts\<close>

text \<open>A step that returns \<open>x\<close> and logs \<open>ms\<close>.\<close>

definition yields :: "'a step \<Rightarrow> 'a \<Rightarrow> string list \<Rightarrow> bool" where
  "yields m x ms \<longleftrightarrow> (\<forall>l. m l = (Inr x, l @ ms))"

lemma yields_and_with: "yields m x ms \<Longrightarrow> yields (f x) y ms' \<Longrightarrow> yields (and_with m f) y (ms @ ms')"
  by (simp add: yields_def and_with_def)

definition gives :: "'a step \<Rightarrow> 'a \<Rightarrow> bool" where
  "gives m x \<longleftrightarrow> (\<exists>ms. yields m x ms)"

named_theorems gives_intros \<open>what a step returns when every program can be run\<close>

lemma gives_basic [gives_intros]: "gives (ret x) x" "gives (say m) ()" "proc cmd = Inr r \<Longrightarrow> gives (call proc cmd) r"
  by (auto simp: gives_def yields_def ret_def say_def call_def)

lemma gives_and_with [gives_intros]: "gives m x \<Longrightarrow> gives (f x) y \<Longrightarrow> gives (and_with m f) y"
  unfolding gives_def by (elim exE, rule exI, rule yields_and_with)

lemmas gives_say = gives_and_with [OF gives_basic(2)] and gives_call = gives_and_with [OF gives_basic(3)]

lemma gives_for_each:
  assumes "\<And>x. x \<in> set xs \<Longrightarrow> gives (f x) (g x)"
  shows "gives (for_each f xs) (map g xs)"
  using assms by (induction xs) (auto intro: gives_intros)

text \<open>The sections, when every program but possibly ruff can be run.\<close>

definition runs :: "proc \<Rightarrow> (string list \<Rightarrow> run_result) \<Rightarrow> string \<Rightarrow> bool" where
  "runs proc run python \<longleftrightarrow> python \<noteq> ''ruff'' \<and> (\<forall>cmd. hd cmd \<noteq> ''ruff'' \<longrightarrow> proc cmd = Inr (run cmd))"

definition compile_fails :: "(string list \<Rightarrow> run_result) \<Rightarrow> string \<Rightarrow> string \<Rightarrow> bool" where
  "compile_fails run python py \<longleftrightarrow> \<not> skipped py \<and> rr_code (run [python, ''-m'', ''py_compile'', py]) \<noteq> 0"

lemma gives_run: "runs proc run python \<Longrightarrow> hd cmd \<noteq> ''ruff'' \<Longrightarrow> gives (f (run cmd)) y \<Longrightarrow> gives (and_with (call proc cmd) f) y"
  by (rule gives_call) (simp_all add: runs_def)

lemma git_gives: "runs proc run python \<Longrightarrow> gives (git_section proc) ()"
  unfolding git_section_def
  by (rule gives_and_with, rule gives_for_each [where g = "\<lambda>_. ()"]) (auto intro!: gives_basic gives_say gives_run)

lemma import_gives: "runs proc run python \<Longrightarrow> gives (import_section fmt proc python) ()"
  unfolding import_section_def
  by (rule gives_say, rule gives_and_with, rule gives_for_each [where g = "\<lambda>_. ()"])
     (auto intro!: gives_basic gives_run simp: runs_def)

lemma compile_gives:
  assumes "runs proc run python"
  shows "\<exists>errs. gives (compile_section fmt proc python co) errs \<and>
     (errs = [] \<longleftrightarrow> (\<forall>py \<in> set (co_python co). \<not> compile_fails run python py))"
proof -
  let ?g = "\<lambda>py. if compile_fails run python py then [(py, rr_err (run [python, ''-m'', ''py_compile'', py]))] else []"
  have "gives (compile_file proc python py) (?g py)" for py
    using assms unfolding compile_file_def compile_fails_def by (auto intro!: gives_basic gives_run gives_say simp: runs_def)
  then have "gives (for_each (compile_file proc python) (co_python co)) (map ?g (co_python co))"
    by (rule gives_for_each)
  then have "gives (compile_section fmt proc python co) (concat (map ?g (co_python co)))"
    unfolding compile_section_def Let_def by (intro gives_and_with [OF gives_basic(2)] gives_and_with [OF _ gives_and_with [OF gives_basic(2) gives_basic(1)]])
  moreover have "concat (map ?g pys) = [] \<longleftrightarrow> (\<forall>py \<in> set pys. \<not> compile_fails run python py)" for pys by (induction pys) auto
  ultimately show ?thesis by blast
qed

lemma dangling_gives:
  "\<exists>ds ms. yields (dangling_section fmt co) ds ms \<and>
     (\<forall>f r. (f, r) \<in> set (concat (map file_refs (co_ref_files co))) \<longrightarrow> is_dangling co r \<longrightarrow>
        (f, r) \<in> set ds \<and> ''DANGLING: '' @ f @ '' -> '' @ r \<in> set ms)"
proof -
  let ?refs = "sort (remdups (concat (map file_refs (co_ref_files co))))"
  let ?g = "\<lambda>sr. if is_dangling co (snd sr) then [sr] else []"
  let ?h = "\<lambda>sr. if is_dangling co (snd sr) then [''DANGLING: '' @ fst sr @ '' -> '' @ snd sr] else []"
  have "yields (check_ref co sr) (?g sr) (?h sr)" for sr
    by (simp add: yields_def check_ref_def and_with_def say_def ret_def)
  then have "yields (for_each (check_ref co) xs) (map ?g xs) (concat (map ?h xs))" for xs
    by (induction xs) (simp_all add: yields_def and_with_def ret_def)
  then have y: "yields (dangling_section fmt co) (concat (map ?g ?refs))
      ([CHR 0x0A # ''=== dangling file references ===''] @ concat (map ?h ?refs) @
        [''Dangling refs found: '' @ fmt (PInt (int (length (concat (map ?g ?refs)))))])"
    by (simp add: dangling_section_def yields_def and_with_def say_def ret_def Let_def)
  have mem: "(f, r) \<in> set (concat (map ?g xs)) \<and> ''DANGLING: '' @ f @ '' -> '' @ r \<in> set (concat (map ?h xs))"
    if "(f, r) \<in> set xs" "is_dangling co r" for f r xs
    using that by (induction xs) auto
  show ?thesis
  proof (intro exI conjI, rule y, intro allI impI)
    fix f r assume "(f, r) \<in> set (concat (map file_refs (co_ref_files co)))" and d: "is_dangling co r"
    then have "(f, r) \<in> set ?refs" by simp
    from mem [OF this d] show "(f, r) \<in> set (concat (map ?g ?refs)) \<and> ''DANGLING: '' @ f @ '' -> '' @ r \<in>
        set ([CHR 0x0A # ''=== dangling file references ===''] @ concat (map ?h ?refs) @
          [''Dangling refs found: '' @ fmt (PInt (int (length (concat (map ?g ?refs)))))])"
      unfolding set_append Un_iff by blast
  qed
qed

lemma parse_gives:
  assumes "co_toml co = Some toml"
  shows "\<exists>fs. gives (parse_section fmt msg co) fs \<and> (fs = [] \<longleftrightarrow> (\<forall>f \<in> set (co_files co). \<forall>e. check_config co toml f \<noteq> ParseFail e))"
proof -
  let ?g = "\<lambda>f. case check_config co toml f of ParseFail e \<Rightarrow> [fst f] | _ \<Rightarrow> []"
  have "gives (config_file msg co toml f) (?g f)" for f
    unfolding config_file_def by (auto intro!: gives_basic gives_say split: parse_check.splits)
  then have "gives (for_each (config_file msg co toml) (co_files co)) (map ?g (co_files co))"
    by (rule gives_for_each)
  then have "gives (parse_section fmt msg co) (concat (map ?g (co_files co)))"
    unfolding parse_section_def assms option.case by (intro gives_say gives_and_with [OF _ gives_say [OF gives_basic(1)]])
  moreover have "concat (map ?g (co_files co)) = [] \<longleftrightarrow> (\<forall>f \<in> set (co_files co). \<forall>e. check_config co toml f \<noteq> ParseFail e)"
    by (auto split: parse_check.splits)
  ultimately show ?thesis by blast
qed

section \<open>Properties\<close>

text \<open>
  C40: what the static pass decides. Let git and Python be runnable and \<^verbatim>\<open>tomllib\<close> exist. Without ruff the
  pass raises. Otherwise it ends, with exit code 1 exactly if a file outside \<^verbatim>\<open>.venv_audit\<close> and
  \<^verbatim>\<open>__pycache__\<close> does not compile or a configuration file does not parse. Every dangling
  reference is logged, but neither these nor failing imports nor the findings of ruff
  influence the code.
\<close>

theorem static_pass_exit_code:
  assumes "runs proc run python" and "co_toml co = Some toml"
  shows "case proc [''ruff'', ''check'', ''.'', ''--select=F,E9''] of
      Inl e \<Rightarrow> fst (phase1_main fmt msg proc python co l) = Inl e
    | Inr r \<Rightarrow> \<exists>l'. phase1_main fmt msg proc python co l =
        (Inr (if (\<exists>py \<in> set (co_python co). compile_fails run python py) \<or>
                 (\<exists>f \<in> set (co_files co). \<exists>e. check_config co toml f = ParseFail e) then 1 else 0), l') \<and>
        (\<forall>f ref. (f, ref) \<in> set (concat (map file_refs (co_ref_files co))) \<longrightarrow> is_dangling co ref \<longrightarrow>
           ''DANGLING: '' @ f @ '' -> '' @ ref \<in> set l')"
proof -
  obtain errs where c: "gives (compile_section fmt proc python co) errs"
    "errs = [] \<longleftrightarrow> (\<forall>py \<in> set (co_python co). \<not> compile_fails run python py)" using compile_gives [OF assms(1)] by blast
  obtain ds ms where d: "yields (dangling_section fmt co) ds ms"
    "\<forall>f r. (f, r) \<in> set (concat (map file_refs (co_ref_files co))) \<longrightarrow> is_dangling co r \<longrightarrow>
        ''DANGLING: '' @ f @ '' -> '' @ r \<in> set ms" using dangling_gives [of fmt co] by blast
  obtain fs where p: "gives (parse_section fmt msg co) fs"
    "fs = [] \<longleftrightarrow> (\<forall>f \<in> set (co_files co). \<forall>e. check_config co toml f \<noteq> ParseFail e)" using parse_gives [OF assms(2)] by blast
  note g = git_gives [OF assms(1)] and i = import_gives [OF assms(1), of fmt]
  obtain mg mc mi mp where y: "yields (git_section proc) () mg" "yields (compile_section fmt proc python co) errs mc"
    "yields (import_section fmt proc python) () mi" "yields (parse_section fmt msg co) fs mp"
    using g i c(1) p(1) unfolding gives_def by blast
  show ?thesis
  proof (cases "proc [''ruff'', ''check'', ''.'', ''--select=F,E9'']")
    case (Inl e)
    with y d(1) show ?thesis
      by (simp add: phase1_main_def ruff_section_def yields_def and_with_def say_def call_def)
  next
    case (Inr r)
    with y d(1) c(2) p(2) d(2) show ?thesis
      by (auto simp: phase1_main_def ruff_section_def yields_def and_with_def say_def call_def ret_def)
  qed
qed


text \<open>
  A checkout with a Dockerfile that copies a file which does not exist, and one source file that
  compiles: the reference is logged and the exit code is 0.
\<close>

definition sample_checkout :: checkout where
  "sample_checkout =
     \<lparr>co_python = [''a.py''], co_files = [(''a.py'', Inr []), (''c.json'', Inr ''{}'')],
      co_ref_files = [(''docker/Dockerfile'', ''COPY x'')], co_exists = (\<lambda>_. False), co_resolved = (\<lambda>_. False),
      co_json = (\<lambda>_. None), co_yaml = None, co_toml = Some (\<lambda>_. None)\<rparr>"

lemma sample_refs: "file_refs (''docker/Dockerfile'', ''COPY x'') = [(''docker/Dockerfile'', ''x'')]"
  by code_simp

theorem static_pass_exit_code_witness:
  "\<exists>l. phase1_main (\<lambda>_. []) (\<lambda>_. []) (\<lambda>cmd. Inr \<lparr>rr_code = 0, rr_out = [], rr_err = []\<rparr>) ''python'' sample_checkout [] = (Inr 0, l) \<and>
     ''DANGLING: docker/Dockerfile -> x'' \<in> set l"
proof -
  let ?r = "\<lparr>rr_code = 0, rr_out = [], rr_err = []\<rparr>"
  have r: "runs (\<lambda>cmd. Inr ?r) (\<lambda>cmd. ?r) ''python''" by (simp add: runs_def)
  have t: "co_toml sample_checkout = Some (\<lambda>_. None)" by (simp add: sample_checkout_def)
  have p: "check_config sample_checkout (\<lambda>_. None) f \<noteq> ParseFail e" if "f \<in> set (co_files sample_checkout)" for f e
    using that by (auto simp: sample_checkout_def check_config_def Let_def)
  have "is_dangling sample_checkout ''x''" by (simp add: is_dangling_def sample_checkout_def)
  with static_pass_exit_code [OF r t, of "\<lambda>_. []" "\<lambda>_. []" "[]"] p sample_refs show ?thesis
    by (auto simp: compile_fails_def) (auto simp: sample_checkout_def)
qed

end
