(* ===== verification/AuditRun.thy ===== *)
theory AuditRun
  imports AuditStatic GatewayApp
begin

text \<open>
  The audit runner, \<^verbatim>\<open>audit_scripts/run_audit.py\<close>, with its four phases, and the smoke test of the gateway in
  \<^verbatim>\<open>audit_scripts/phase4_6_7.py\<close>. External programs, the disk query, the parsers, the output of
  pytest and the time stamps are arguments. A phase returns the text of its log file or raises.
\<close>

abbreviation FileNotFound :: pyexn where
  "FileNotFound \<equiv> OtherError ''FileNotFoundError''"

section \<open>Phase 0: the environment\<close>

definition fingerprint_tools :: "(string \<times> string list) list" where
  "fingerprint_tools =
     [(''systeminfo'', [''systeminfo'']), (''python'', [''python'', ''--version'']), (''pip'', [''pip'', ''--version'']),
      (''node'', [''node'', ''--version'']), (''go'', [''go'', ''version'']), (''cmake'', [''cmake'', ''--version'']),
      (''nvidia-smi'', [''nvidia-smi'']), (''pip list'', [''pip'', ''list'']), (''pip freeze'', [''pip'', ''freeze''])]"

definition tool_lines :: "proc \<Rightarrow> string \<times> string list \<Rightarrow> string list pyres" where
  "tool_lines proc tc =
     (let head = CHR 0x0A # ''=== '' @ fst tc @ '' ===''
      in case proc (snd tc) of
           Inr r \<Rightarrow> Inr ([head, rr_out r @ rr_err r] @
             (if fst tc = ''nvidia-smi'' \<and> rr_code r \<noteq> 0 then [''NO GPU (nvidia-smi failed)''] else []))
         | Inl e \<Rightarrow> if e = FileNotFound then Inr [head, ''NOT FOUND: '' @ hd (snd tc)] else Inl e)"

definition memory_command :: "string list" where
  "memory_command = [''powershell'', ''-Command'',
     ''(Get-CimInstance Win32_OperatingSystem | Select TotalVisibleMemorySize,FreePhysicalMemory | Format-List | Out-String)'']"

text \<open>\<open>disk\<close> is what \<^verbatim>\<open>shutil.disk_usage\<close> gives for drive C: its free and total bytes, or an exception.\<close>

definition phase0 :: "(pyval \<Rightarrow> string) \<Rightarrow> (pyexn \<Rightarrow> string) \<Rightarrow> string \<Rightarrow> proc \<Rightarrow> (int \<times> int) pyres \<Rightarrow> string pyres" where
  "phase0 fmt msg now proc disk =
     bind_res (map_res (tool_lines proc) fingerprint_tools) (\<lambda>tools.
     bind_res disk (\<lambda>(free, total).
       Inr (join_with [CHR 0x0A] ([''=== PHASE 0 '' @ [CHR 0x97] @ '' Environment Fingerprint ==='', ''Timestamp: '' @ now] @ concat tools @
         [CHR 0x0A # ''=== Disk C: ==='' @ [CHR 0x0A] @ ''free='' @ fmt (PInt free) @ '' total='' @ fmt (PInt total),
          (case proc memory_command of
             Inr r \<Rightarrow> CHR 0x0A # ''=== Memory ==='' @ [CHR 0x0A] @ rr_out r
           | Inl e \<Rightarrow> ''memory query failed: '' @ msg e)]))))"

section \<open>Phase 1: static integrity\<close>

definition audit_compile :: "(pyval \<Rightarrow> string) \<Rightarrow> proc \<Rightarrow> string \<Rightarrow> checkout \<Rightarrow> unit step" where
  "audit_compile fmt proc python co =
     (let pyfiles = filter (\<lambda>p. \<not> has_infix ''.venv_audit'' p) (co_python co)
      in and_with (say (CHR 0x0A # ''=== py_compile ==='')) (\<lambda>_.
         and_with (for_each (\<lambda>py. and_with (call proc [python, ''-m'', ''py_compile'', py]) (\<lambda>r.
             if rr_code r \<noteq> 0 then and_with (say (''FAIL '' @ py @ '': '' @ rr_err r)) (\<lambda>_. ret [py]) else ret [])) pyfiles) (\<lambda>errs.
           say (''Total '' @ fmt (PInt (int (length pyfiles))) @ '' files, '' @ fmt (PInt (int (length (concat errs)))) @ '' compile errors''))))"

definition audit_imports :: "(pyval \<Rightarrow> string) \<Rightarrow> proc \<Rightarrow> string \<Rightarrow> unit step" where
  "audit_imports fmt proc python =
     and_with (say (CHR 0x0A # ''=== imports ==='')) (\<lambda>_.
     and_with (for_each (\<lambda>m.
         and_with (call proc [python, ''-c'', ''import '' @ m @ ''; print('' @ [CHR 0x27] @ ''ok'' @ [CHR 0x27] @ '')'']) (\<lambda>r.
           say (m @ '': exit='' @ fmt (PInt (rr_code r)) @ '' '' @ rr_out r @ rr_err r)))
       [''vllm_port'', ''vllm_port.smollm3'']) (\<lambda>_. ret ()))"

definition audit_parse :: "(pyval \<Rightarrow> string) \<Rightarrow> (pyexn \<Rightarrow> string) \<Rightarrow> checkout \<Rightarrow> unit step" where
  "audit_parse fmt msg co =
     and_with (say (CHR 0x0A # ''=== config parse ==='')) (\<lambda>_.
       case (co_toml co, co_yaml co) of
         (Some toml, Some yaml) \<Rightarrow>
           and_with (for_each (\<lambda>f. case check_config co toml f of
               ParseFail e \<Rightarrow> and_with (say (''PARSE FAIL '' @ fst f @ '': '' @ msg e)) (\<lambda>_. ret [fst f])
             | _ \<Rightarrow> ret []) (filter (\<lambda>f. \<not> has_infix ''.venv_audit'' (fst f)) (co_files co))) (\<lambda>fs.
           say (''parse errors: '' @ fmt (PInt (int (length (concat fs))))))
       | _ \<Rightarrow> Pair (Inl (OtherError ''ModuleNotFoundError'')))"

text \<open>A reference without its trailing slashes, and its part before the first slash.\<close>

definition rstrip_slash :: "string \<Rightarrow> string" where
  "rstrip_slash s = rev (dropWhile (\<lambda>c. c = CHR ''/'') (rev s))"

definition first_component :: "string \<Rightarrow> string" where
  "first_component s = takeWhile (\<lambda>c. c \<noteq> CHR ''/'') s"

definition audit_dangling :: "checkout \<Rightarrow> string \<Rightarrow> bool" where
  "audit_dangling co ref \<longleftrightarrow> \<not> co_exists co ref \<and> \<not> co_exists co (first_component ref)"

definition audit_refs :: "(pyval \<Rightarrow> string) \<Rightarrow> checkout \<Rightarrow> (string \<times> string) list \<Rightarrow> unit step" where
  "audit_refs fmt co docker_files =
     and_with (say (CHR 0x0A # ''=== dangling refs (Docker/compose) ==='')) (\<lambda>_.
     and_with (for_each (\<lambda>(name, ref).
         if audit_dangling co ref then and_with (say (''DANGLING COPY '' @ name @ '': '' @ ref)) (\<lambda>_. ret [(name, ref)]) else ret [])
       (concat (map (\<lambda>(name, txt). map (\<lambda>r. (name, rstrip_slash r)) (rx_groups COPY_PREFIX non_space txt)) docker_files))) (\<lambda>ds.
       say (''dangling: '' @ fmt (PInt (int (length (concat ds)))))))"

definition audit_phase1 ::
  "(pyval \<Rightarrow> string) \<Rightarrow> (pyexn \<Rightarrow> string) \<Rightarrow> proc \<Rightarrow> string \<Rightarrow> checkout \<Rightarrow> (string \<times> string) list \<Rightarrow> unit step" where
  "audit_phase1 fmt msg proc python co docker_files =
     and_with (for_each (\<lambda>(title, cmd).
         and_with (call proc cmd) (\<lambda>r. say (CHR 0x0A # ''=== '' @ title @ '' ==='' @ [CHR 0x0A] @ rr_out r @ rr_err r)))
       [(''git status'', [''git'', ''status'']), (''git diff --stat'', [''git'', ''diff'', ''--stat''])]) (\<lambda>_.
     and_with (audit_compile fmt proc python co) (\<lambda>_.
     and_with (audit_imports fmt proc python) (\<lambda>_.
     and_with (and_with (say (CHR 0x0A # ''=== ruff F,E9 ==='')) (\<lambda>_.
       and_with (call proc [''ruff'', ''check'', ''.'', ''--select=F,E9'']) (\<lambda>r.
         say (rr_out r @ rr_err r @ [CHR 0x0A] @ ''exit='' @ fmt (PInt (rr_code r)))))) (\<lambda>_.
     and_with (audit_parse fmt msg co) (\<lambda>_. audit_refs fmt co docker_files)))))"

section \<open>Phases 2 and 3: installation and tests\<close>

text \<open>Whether all requirements were installed, and the lines logged up to the first failure.\<close>

fun install :: "(pyval \<Rightarrow> string) \<Rightarrow> proc \<Rightarrow> string \<Rightarrow> string list \<Rightarrow> (bool \<times> string list) pyres" where
  "install fmt proc pip [] = Inr (True, [])"
| "install fmt proc pip (req # reqs) =
     bind_res (proc [pip, ''install'', ''-r'', req]) (\<lambda>r.
       let ls = [CHR 0x0A # ''=== pip install -r '' @ req @ '' ==='',
                 ''exit='' @ fmt (PInt (rr_code r)) @ [CHR 0x0A] @ rr_out r @ [CHR 0x0A] @ rr_err r]
       in if rr_code r \<noteq> 0 then Inr (False, ls)
          else bind_res (install fmt proc pip reqs) (\<lambda>(ok, more). Inr (ok, ls @ more)))"

text \<open>\<open>create\<close> is the exception of \<^verbatim>\<open>venv.create\<close>, if any.\<close>

definition phase2 :: "(pyval \<Rightarrow> string) \<Rightarrow> string \<Rightarrow> pyexn option \<Rightarrow> proc \<Rightarrow> string \<Rightarrow> (bool \<times> string) pyres" where
  "phase2 fmt now create proc pip =
     (case create of
        Some e \<Rightarrow> Inl e
      | None \<Rightarrow> bind_res (install fmt proc pip [''requirements.txt'', ''requirements-dev.txt'']) (\<lambda>(ok, ls).
          Inr (ok, join_with [CHR 0x0A] ([''=== PHASE 2 '' @ [CHR 0x97] @ '' Clean venv install ==='', now] @ ls))))"

text \<open>\<^verbatim>\<open>splitlines\<close> on Latin-1 text.\<close>

definition line_break :: "char \<Rightarrow> bool" where
  "line_break c \<longleftrightarrow> in_range 10 13 c \<or> in_range 28 30 c \<or> code c = 133"

fun splitlines :: "string \<Rightarrow> string \<Rightarrow> string list" where
  "splitlines acc [] = (if acc = [] then [] else [acc])"
| "splitlines acc [c] = (if line_break c then [acc] else [acc @ [c]])"
| "splitlines acc (c # d # cs) =
     (if c = CHR 0x0D \<and> d = CHR 0x0A then acc # splitlines [] cs
      else if line_break c then acc # splitlines [] (d # cs)
      else splitlines (acc @ [c]) (d # cs))"

definition is_warning :: "string \<Rightarrow> bool" where
  "is_warning line \<longleftrightarrow> has_infix ''Warning'' line \<or> has_infix ''warning'' (lower line)"

definition count_warning :: "(string, nat) dict \<Rightarrow> string \<Rightarrow> (string, nat) dict" where
  "count_warning warns line =
     (if is_warning line
      then dict_set (strip line) ((case dict_get warns (strip line) of None \<Rightarrow> 0 | Some c \<Rightarrow> c) + 1) warns else warns)"

definition warning_counts :: "string list \<Rightarrow> (string, nat) dict" where
  "warning_counts ls = sort_key (\<lambda>wc. - int (snd wc)) (foldl count_warning [] ls)"

text \<open>The exit code of pytest, its log and the warnings file, from its output.\<close>

definition phase3 :: "(pyval \<Rightarrow> string) \<Rightarrow> (int \<times> string) pyres \<Rightarrow> (int \<times> string \<times> string) pyres" where
  "phase3 fmt pytest =
     bind_res pytest (\<lambda>(status, output).
       let txt = output @ [CHR 0x0A, CHR 0x0A] @ ''=== pytest exit code: '' @ fmt (PInt status) @ '' ==='' @ [CHR 0x0A]
       in Inr (status, txt, join_with [CHR 0x0A] (map (\<lambda>(w, c). fmt (PInt (int c)) @ ''x '' @ w) (warning_counts (splitlines [] txt)))))"

section \<open>The runner\<close>

record audit_env =
  ae_fmt :: "pyval \<Rightarrow> string"
  ae_msg :: "pyexn \<Rightarrow> string"
  ae_now :: string
  ae_proc :: proc
  ae_python :: string
  ae_pip :: string
  ae_disk :: "(int \<times> int) pyres"
  ae_checkout :: checkout
  ae_docker :: "(string \<times> string) list"
  ae_create :: "pyexn option"
  ae_pytest :: "(int \<times> string) pyres"

text \<open>The log files written in order, and the exception that ends the run.\<close>

definition run_audit :: "audit_env \<Rightarrow> (string \<times> string) list \<times> pyexn option" where
  "run_audit E =
     (case phase0 (ae_fmt E) (ae_msg E) (ae_now E) (ae_proc E) (ae_disk E) of
        Inl e \<Rightarrow> ([], Some e)
      | Inr t0 \<Rightarrow>
          (let f0 = [(''phase0_environment.log'', t0)];
               (r1, ls) = audit_phase1 (ae_fmt E) (ae_msg E) (ae_proc E) (ae_python E) (ae_checkout E) (ae_docker E)
                            [''=== PHASE 1 ==='' @ [CHR 0x0A] @ ae_now E];
               f1 = f0 @ [(''phase1_static_integrity.log'', concat (map (\<lambda>l. l @ [CHR 0x0A]) ls))]
           in case r1 of
                Inl e \<Rightarrow> (f1, Some e)
              | Inr _ \<Rightarrow>
                  (case phase2 (ae_fmt E) (ae_now E) (ae_create E) (ae_proc E) (ae_pip E) of
                     Inl e \<Rightarrow> (f1, Some e)
                   | Inr (ok, t2) \<Rightarrow>
                       (let f2 = f1 @ [(''phase2_venv_install.log'', t2)]
                        in if \<not> ok then (f2, None)
                           else case phase3 (ae_fmt E) (ae_pytest E) of
                                  Inl e \<Rightarrow> (f2, Some e)
                                | Inr (status, txt, warns) \<Rightarrow>
                                    (f2 @ [(''pytest_full.log'', txt), (''phase3_warnings.txt'', warns)], None)))))"

section \<open>The smoke test of the gateway\<close>

text \<open>
  \<^verbatim>\<open>phase4_gateway\<close>: requests against the application through \<^verbatim>\<open>httpx.ASGITransport\<close>, which does not run the
  lifespan and lets an exception of the application through to the client.
\<close>

definition get_request :: "string \<Rightarrow> http_request" where
  "get_request p = \<lparr>hr_method = ''GET'', hr_path = p, hr_query = [], hr_json = Inl (ValueError ''JSON''), hr_body = [], hr_headers = []\<rparr>"

definition chat_request :: http_request where
  "chat_request = \<lparr>hr_method = ''POST'', hr_path = ''/v1/chat/completions'', hr_query = [],
     hr_json = Inr (PDict [(''model'', PStr ''m''), (''messages'', PList [PDict [(''role'', PStr ''user''), (''content'', PStr ''x'')]])]),
     hr_body = [], hr_headers = []\<rparr>"

text \<open>The requests in order, what each was answered, and the exception that ends the script.\<close>

fun smoke_requests ::
  "surroundings \<Rightarrow> (route list \<Rightarrow> string \<Rightarrow> string \<Rightarrow> routed) \<Rightarrow> http_request list \<Rightarrow> app \<Rightarrow> (string \<times> activity) list \<times> pyexn option" where
  "smoke_requests X router [] a = ([], None)"
| "smoke_requests X router (req # reqs) a =
     (case app_handle X router req a of
        (Raised e, a') \<Rightarrow> ([], Some e)
      | (act, a') \<Rightarrow> (case smoke_requests X router reqs a' of (out, e) \<Rightarrow> ((hr_path req, act) # out, e)))"

definition gateway_smoke ::
  "surroundings \<Rightarrow> (route list \<Rightarrow> string \<Rightarrow> string \<Rightarrow> routed) \<Rightarrow> app \<Rightarrow> (string \<times> activity) list \<times> pyexn option" where
  "gateway_smoke X router a =
     smoke_requests X router (map get_request [''/health'', ''/metrics'', ''/scheduler/stats''] @ [chat_request]) a"

section \<open>Facts\<close>

lemma foldl_count:
  "dict_get (foldl count_warning d ls) w =
     (let n = count_list (map strip (filter is_warning ls)) w
      in if n = 0 then dict_get d w else Some (n + (case dict_get d w of None \<Rightarrow> 0 | Some c \<Rightarrow> c)))"
  by (induction ls arbitrary: d) (auto simp: count_warning_def dict_get_set Let_def split: option.splits)

lemma foldl_count_wf: "dict_wf d \<Longrightarrow> dict_wf (foldl count_warning d ls)"
  by (induction ls arbitrary: d) (auto simp: count_warning_def)

text \<open>The warnings file lists each warning once, with its number of occurrences, most frequent first.\<close>

lemma warning_counts_spec:
  "distinct (map fst (warning_counts ls)) \<and> sorted (map (\<lambda>wc. - int (snd wc)) (warning_counts ls)) \<and>
   (\<forall>w c. (w, c) \<in> set (warning_counts ls) \<longleftrightarrow> 0 < c \<and> c = count_list (map strip (filter is_warning ls)) w)"
proof -
  let ?d = "foldl count_warning [] ls"
  have wf: "dict_wf ?d" by (rule foldl_count_wf) simp
  have "mset (warning_counts ls) = mset ?d" by (simp add: warning_counts_def)
  then have same: "set (warning_counts ls) = set ?d" "mset (map fst (warning_counts ls)) = mset (map fst ?d)"
    by (metis set_mset_mset, simp)
  have "distinct (map fst (warning_counts ls))"
    using wf mset_eq_imp_distinct_iff [OF same(2)] by (simp add: dict_wf_def)
  moreover have "(w, c) \<in> set ?d \<longleftrightarrow> 0 < c \<and> c = count_list (map strip (filter is_warning ls)) w" for w c
  proof -
    have "(w, c) \<in> set ?d \<longleftrightarrow> dict_get ?d w = Some c" using wf by (simp add: dict_wf_def map_of_eq_Some_iff)
    also have "\<dots> \<longleftrightarrow> 0 < c \<and> c = count_list (map strip (filter is_warning ls)) w"
      by (auto simp: foldl_count Let_def)
    finally show ?thesis .
  qed
  ultimately show ?thesis by (simp add: same(1) warning_counts_def)
qed

lemma tools_total: "\<forall>cmd e. proc cmd = Inl e \<longrightarrow> e = FileNotFound \<Longrightarrow> \<exists>ls. map_res (tool_lines proc) tcs = Inr ls"
  by (induction tcs) (auto simp: tool_lines_def Let_def split: sum.splits)

lemma install_ok: "install fmt proc pip reqs = Inr (True, ls) \<Longrightarrow> req \<in> set reqs \<Longrightarrow> \<exists>r. proc [pip, ''install'', ''-r'', req] = Inr r \<and> rr_code r = 0"
  by (induction reqs arbitrary: ls) (auto simp: bind_res_Inr_iff Let_def split: if_splits)

section \<open>Properties\<close>

text \<open>
  The audit runner. Let every program that cannot be run be missing. If the disk query fails, as it does
  where there is no drive C, the run ends with its exception and no log at all; otherwise the
  log of the environment is written. Tests run only after both installations succeeded, and then the
  warnings file lists each warning line once with its number of occurrences, most frequent first. A
  reference that the runner reports as dangling is reported by the static pass as well (unless it is a
  variable or resolves), but a missing file in a directory that exists is never reported by the runner.
\<close>

theorem audit_run_outcome:
  assumes "\<forall>cmd e. ae_proc E cmd = Inl e \<longrightarrow> e = FileNotFound"
  shows "(case ae_disk E of
       Inl e \<Rightarrow> run_audit E = ([], Some e)
     | Inr _ \<Rightarrow> dict_get (fst (run_audit E)) ''phase0_environment.log'' \<noteq> None) \<and>
    (\<forall>ws. (''phase3_warnings.txt'', ws) \<in> set (fst (run_audit E)) \<longrightarrow>
       (\<forall>req \<in> {''requirements.txt'', ''requirements-dev.txt''}.
          \<exists>r. ae_proc E [ae_pip E, ''install'', ''-r'', req] = Inr r \<and> rr_code r = 0) \<and>
       (\<exists>ls. ws = join_with [CHR 0x0A] (map (\<lambda>(w, c). ae_fmt E (PInt (int c)) @ ''x '' @ w) (warning_counts ls)) \<and>
          distinct (map fst (warning_counts ls)) \<and> sorted (map (\<lambda>wc. - int (snd wc)) (warning_counts ls)) \<and>
          (\<forall>w c. (w, c) \<in> set (warning_counts ls) \<longleftrightarrow> 0 < c \<and> c = count_list (map strip (filter is_warning ls)) w))) \<and>
    (\<forall>ref. audit_dangling (ae_checkout E) ref \<longrightarrow> take 1 ref \<noteq> ''$'' \<longrightarrow> \<not> co_resolved (ae_checkout E) ref \<longrightarrow>
       is_dangling (ae_checkout E) ref) \<and>
    (\<forall>dir file. CHR ''/'' \<notin> set dir \<longrightarrow> co_exists (ae_checkout E) dir \<longrightarrow> \<not> audit_dangling (ae_checkout E) (dir @ ''/'' @ file))"
proof -
  obtain tools where t: "map_res (tool_lines (ae_proc E)) fingerprint_tools = Inr tools" using tools_total [OF assms] by blast
  have 1: "case ae_disk E of
       Inl e \<Rightarrow> run_audit E = ([], Some e)
     | Inr _ \<Rightarrow> dict_get (fst (run_audit E)) ''phase0_environment.log'' \<noteq> None"
    by (auto simp: run_audit_def phase0_def t Let_def split: sum.splits prod.splits)
  have 2: "(\<forall>req \<in> {''requirements.txt'', ''requirements-dev.txt''}. \<exists>r. ae_proc E [ae_pip E, ''install'', ''-r'', req] = Inr r \<and> rr_code r = 0) \<and>
      (\<exists>ls. ws = join_with [CHR 0x0A] (map (\<lambda>(w, c). ae_fmt E (PInt (int c)) @ ''x '' @ w) (warning_counts ls)))"
    if "(''phase3_warnings.txt'', ws) \<in> set (fst (run_audit E))" for ws
  proof -
    from that obtain ls status full where p2: "install (ae_fmt E) (ae_proc E) (ae_pip E) [''requirements.txt'', ''requirements-dev.txt''] = Inr (True, ls)"
      and p3: "phase3 (ae_fmt E) (ae_pytest E) = Inr (status, full, ws)"
      by (auto simp: run_audit_def phase2_def Let_def bind_res_Inr_iff split: sum.splits prod.splits option.splits if_splits)
    show ?thesis using install_ok [OF p2] p3 by (auto simp: phase3_def bind_res_Inr_iff Let_def)
  qed
  have 3: "first_component (dir @ ''/'' @ name) = dir" if "CHR ''/'' \<notin> set dir" for dir name
    using that by (auto simp: first_component_def takeWhile_append)
  show ?thesis
    using 1 2 3 warning_counts_spec by (auto simp: audit_dangling_def is_dangling_def)
qed

text \<open>A machine without any of the programs and without a drive C.\<close>

definition bare_machine :: audit_env where
  "bare_machine = \<lparr>ae_fmt = (\<lambda>_. []), ae_msg = (\<lambda>_. []), ae_now = [], ae_proc = (\<lambda>_. Inl FileNotFound), ae_python = ''python'',
     ae_pip = ''pip'', ae_disk = Inl FileNotFound, ae_checkout = sample_checkout, ae_docker = [], ae_create = None,
     ae_pytest = Inl FileNotFound\<rparr>"

theorem audit_run_outcome_witness: "run_audit bare_machine = ([], Some FileNotFound)"
proof -
  have "\<forall>cmd e. ae_proc bare_machine cmd = Inl e \<longrightarrow> e = FileNotFound" by (simp add: bare_machine_def)
  from audit_run_outcome [OF this, THEN conjunct1] show ?thesis by (simp add: bare_machine_def)
qed

text \<open>
  The smoke test of the gateway cannot pass. Without the lifespan the application has no gateway: the
  first two requests are answered, the third raises an \<^verbatim>\<open>AttributeError\<close>, which ends the script before
  it sends its chat request. This holds for every configuration the application can be created from.
\<close>

theorem gateway_smoke_fails:
  assumes "create_app parse open_file safe_load builtin st path None = Inr a" and "routes_in_order router"
    and "framework_apart builtin ''/health''" and "framework_apart builtin ''/metrics''" and "framework_apart builtin ''/scheduler/stats''"
  shows "gateway_smoke X router a =
    ([(''/health'', Respond 200 (PDict [(''status'', PStr ''ok'')])),
      (''/metrics'', RespondText (su_generate_latest X (gw_metrics (ap_gateway a))))], Some AttributeError)"
proof -
  note u = not_started_app [OF assms(1) disjI1 [OF refl]]
  have h: "app_handle X router (get_request p) a =
      (case map_of fixed_routes (''GET'', p) of Some e \<Rightarrow> serve X e (get_request p) a
       | None \<Rightarrow> if ''GET'' \<in> set proxy_methods then serve X Proxy (get_request p) a else (Refused 405, a))"
    if "plain_path p" "framework_apart builtin p" for p
    using app_routed [OF assms(2) that, of "''GET''"] u(2) by (auto simp: app_handle_def get_request_def split: option.splits)
  have p: "plain_path ''/health''" "plain_path ''/metrics''" "plain_path ''/scheduler/stats''" by (simp_all add: plain_path_def)
  show ?thesis using u(1)
    by (simp add: gateway_smoke_def h [OF p(1) assms(3)] h [OF p(2) assms(4)] h [OF p(3) assms(5)] fixed_routes_def
        handle_stats_def state_gateway_def raise_or_def) (simp add: get_request_def)
qed

theorem gateway_smoke_fails_witness:
  "\<exists>a. sample_app = Inr a \<and> snd (gateway_smoke sample_surroundings first_match a) = Some AttributeError"
proof -
  obtain a where a: "sample_app = Inr a" using sample_app_starts by blast
  from gateway_smoke_fails [OF a [unfolded sample_app_def] first_match_in_order, of sample_surroundings] a show ?thesis
    by (auto simp: framework_apart_def)
qed

end
