(* ===== verification/AuditSmoke.thy ===== *)
theory AuditSmoke
  imports AuditRun
begin

text \<open>
  The driver of the smoke tests, \<^verbatim>\<open>audit_scripts/phase4_6_7.py\<close>: five scripts run one after the other in
  a fresh interpreter, each with a header and its output appended to a log file. The interpreter
  is an argument: what \<^verbatim>\<open>subprocess.run\<close> returns for a script, or the exception when it cannot be started.
\<close>

datatype smoke = Phase4Smollm3 | Phase4Predictor | Phase4Gateway | Phase7NopeRope | Phase6Concurrency

fun smoke_file :: "smoke \<Rightarrow> string" where
  "smoke_file Phase4Smollm3 = ''phase4_smollm3.log''"
| "smoke_file Phase4Predictor = ''phase4_predictor.log''"
| "smoke_file Phase4Gateway = ''phase4_gateway.log''"
| "smoke_file Phase7NopeRope = ''phase7_numerical.log''"
| "smoke_file Phase6Concurrency = ''phase6_concurrency.log''"

fun smoke_title :: "smoke \<Rightarrow> string" where
  "smoke_title Phase4Smollm3 = ''=== Phase 4a SmolLM3 forward ===''"
| "smoke_title Phase4Predictor = ''=== Phase 4b predictor train+onnx ===''"
| "smoke_title Phase4Gateway = ''=== Phase 4c gateway smoke ===''"
| "smoke_title Phase7NopeRope = ''=== Phase 7 NoPE/RoPE + tied embeddings ===''"
| "smoke_title Phase6Concurrency = ''=== Phase 6 concurrency ===''"

text \<open>A file opened for appending: it is created when it does not exist.\<close>

definition append_log :: "string \<Rightarrow> string \<Rightarrow> (string, string) dict \<Rightarrow> (string, string) dict" where
  "append_log name txt logs =
     dict_set name ((case dict_get logs name of None \<Rightarrow> [] | Some old \<Rightarrow> old) @ txt @ [CHR 0x0A]) logs"

definition smoke_header :: "(smoke \<Rightarrow> string) \<Rightarrow> smoke \<Rightarrow> string" where
  "smoke_header now s = smoke_title s @ [CHR 0x0A] @ now s"

definition smoke_result :: "(pyval \<Rightarrow> string) \<Rightarrow> run_result \<Rightarrow> string" where
  "smoke_result fmt r = ''exit='' @ fmt (PInt (rr_code r)) @ [CHR 0x0A] @ rr_out r @ [CHR 0x0A] @ rr_err r"

text \<open>One phase, and the phases in order up to the first exception; the logs, and that exception.\<close>

definition smoke_phase ::
  "(pyval \<Rightarrow> string) \<Rightarrow> (smoke \<Rightarrow> string) \<Rightarrow> (smoke \<Rightarrow> run_result pyres) \<Rightarrow> smoke \<Rightarrow> (string, string) dict \<Rightarrow>
   pyexn option \<times> (string, string) dict" where
  "smoke_phase fmt now python s logs =
     (let logs = append_log (smoke_file s) (smoke_header now s) logs
      in case python s of
           Inl e \<Rightarrow> (Some e, logs)
         | Inr r \<Rightarrow> (None, append_log (smoke_file s) (smoke_result fmt r) logs))"

fun smoke_phases ::
  "(pyval \<Rightarrow> string) \<Rightarrow> (smoke \<Rightarrow> string) \<Rightarrow> (smoke \<Rightarrow> run_result pyres) \<Rightarrow> smoke list \<Rightarrow> (string, string) dict \<Rightarrow>
   pyexn option \<times> (string, string) dict" where
  "smoke_phases fmt now python [] logs = (None, logs)"
| "smoke_phases fmt now python (s # ss) logs =
     (case smoke_phase fmt now python s logs of
        (Some e, logs') \<Rightarrow> (Some e, logs')
      | (None, logs') \<Rightarrow> smoke_phases fmt now python ss logs')"

definition smoke_main ::
  "(pyval \<Rightarrow> string) \<Rightarrow> (smoke \<Rightarrow> string) \<Rightarrow> (smoke \<Rightarrow> run_result pyres) \<Rightarrow> (string, string) dict \<Rightarrow>
   pyexn option \<times> (string, string) dict" where
  "smoke_main fmt now python logs =
     smoke_phases fmt now python [Phase4Smollm3, Phase4Predictor, Phase4Gateway, Phase7NopeRope, Phase6Concurrency] logs"

section \<open>Facts\<close>

lemma append_log_get:
  "dict_get (append_log name txt logs) f =
     (if f = name then Some ((case dict_get logs name of None \<Rightarrow> [] | Some old \<Rightarrow> old) @ txt @ [CHR 0x0A]) else dict_get logs f)"
  by (simp add: append_log_def dict_get_set)

text \<open>What a phase that is reached leaves in its log.\<close>

definition smoke_entry :: "(pyval \<Rightarrow> string) \<Rightarrow> (smoke \<Rightarrow> string) \<Rightarrow> (smoke \<Rightarrow> run_result pyres) \<Rightarrow> smoke \<Rightarrow> string" where
  "smoke_entry fmt now python s = smoke_header now s @ [CHR 0x0A] @
     (case python s of Inl e \<Rightarrow> [] | Inr r \<Rightarrow> smoke_result fmt r @ [CHR 0x0A])"

lemma smoke_phase_spec:
  "fst (smoke_phase fmt now python s logs) = (case python s of Inl e \<Rightarrow> Some e | Inr r \<Rightarrow> None)"
  "dict_get (snd (smoke_phase fmt now python s logs)) f =
     (if f = smoke_file s then Some ((case dict_get logs f of None \<Rightarrow> [] | Some old \<Rightarrow> old) @ smoke_entry fmt now python s)
      else dict_get logs f)"
  by (auto simp: smoke_phase_def smoke_entry_def append_log_get Let_def split: sum.splits option.splits)

definition reached :: "(smoke \<Rightarrow> run_result pyres) \<Rightarrow> smoke list \<Rightarrow> smoke list" where
  "reached python ss = take (Suc (length (takeWhile (\<lambda>s. \<not> isl (python s)) ss))) ss"

lemma reached_simps:
  "reached python [] = []"
  "reached python (s # ss) = s # (case python s of Inl e \<Rightarrow> [] | Inr r \<Rightarrow> reached python ss)"
  by (auto simp: reached_def split: sum.splits)

lemma smoke_phases_error:
  "fst (smoke_phases fmt now python ss logs) = map_option projl (find isl (map python ss))"
  by (induction ss arbitrary: logs)
     (auto simp: smoke_phase_spec(1) [of fmt now python] prod.case_eq_if smoke_phase_def Let_def split: sum.splits)

lemma reached_subset: "s \<in> set (reached python ss) \<Longrightarrow> s \<in> set ss"
  unfolding reached_def by (rule in_set_takeD)

lemma smoke_phases_logs:
  assumes "distinct (map smoke_file ss)"
  shows "dict_get (snd (smoke_phases fmt now python ss logs)) f =
      (case find (\<lambda>s. smoke_file s = f) (reached python ss) of
         Some s \<Rightarrow> Some ((case dict_get logs f of None \<Rightarrow> [] | Some old \<Rightarrow> old) @ smoke_entry fmt now python s)
       | None \<Rightarrow> dict_get logs f)"
  using assms
proof (induction ss arbitrary: logs)
  case (Cons s ss)
  let ?p = "smoke_phase fmt now python s logs"
  have apart: "find (\<lambda>t. smoke_file t = smoke_file s) (reached python ss) = None"
    using Cons.prems by (simp add: find_None_iff) (metis image_eqI reached_subset)
  show ?case
  proof (cases "python s")
    case (Inl e)
    then obtain logs' where "?p = (Some e, logs')" using smoke_phase_spec(1) [of fmt now python s logs] by (cases ?p) auto
    with Inl smoke_phase_spec(2) [of fmt now python s logs f] show ?thesis by (auto simp: reached_simps)
  next
    case (Inr r)
    then obtain logs' where "?p = (None, logs')" using smoke_phase_spec(1) [of fmt now python s logs] by (cases ?p) auto
    with Inr Cons smoke_phase_spec(2) [of fmt now python s logs f] apart show ?thesis
      by (auto simp: reached_simps split: option.splits)
  qed
qed (simp add: reached_simps)

text \<open>
  The outcome of the driver. It ends with an exception exactly when an interpreter cannot be
  started, never because a smoke test fails: the exit codes of the scripts only reach the logs.
  A log holds what it held before, followed by one entry when its phase is reached, that is when
  every script before it could be started; other files keep their contents.
\<close>

theorem smoke_outcome:
  "fst (smoke_main fmt now python logs) = None \<longleftrightarrow> (\<forall>s. \<not> isl (python s))"
  "(\<forall>s. \<not> isl (python s)) \<Longrightarrow> dict_get (snd (smoke_main fmt now python logs)) (smoke_file s) =
     Some ((case dict_get logs (smoke_file s) of None \<Rightarrow> [] | Some old \<Rightarrow> old) @ smoke_entry fmt now python s)"
  "f \<notin> range smoke_file \<Longrightarrow> dict_get (snd (smoke_main fmt now python logs)) f = dict_get logs f"
proof -
  let ?ss = "[Phase4Smollm3, Phase4Predictor, Phase4Gateway, Phase7NopeRope, Phase6Concurrency]"
  have all: "set ?ss = UNIV" by (auto intro: smoke.exhaust)
  have d: "distinct (map smoke_file ?ss)" by simp
  show "fst (smoke_main fmt now python logs) = None \<longleftrightarrow> (\<forall>s. \<not> isl (python s))"
    unfolding smoke_main_def smoke_phases_error using all by (auto simp: find_None_iff simp del: list.map)
  show "dict_get (snd (smoke_main fmt now python logs)) (smoke_file s) =
     Some ((case dict_get logs (smoke_file s) of None \<Rightarrow> [] | Some old \<Rightarrow> old) @ smoke_entry fmt now python s)"
    if "\<forall>s. \<not> isl (python s)"
  proof -
    have "reached python ?ss = ?ss" using that by (simp add: reached_def)
    then show ?thesis unfolding smoke_main_def smoke_phases_logs [OF d] by (cases s) simp_all
  qed
  show "dict_get (snd (smoke_main fmt now python logs)) f = dict_get logs f" if "f \<notin> range smoke_file"
  proof -
    have "find (\<lambda>s. smoke_file s = f) (reached python ?ss) = None" using that by (auto simp: find_None_iff)
    then show ?thesis unfolding smoke_main_def smoke_phases_logs [OF d] by simp
  qed
qed

end
