(* ===== verification/Spec2Isabelle.thy ===== *)
theory Spec2Isabelle
  imports QueueWaiters SjfAging GatewayApp OutputModel SmolLM3Loading PatchScripts Comparison EvaluationReport TrainingScripts
    TrainerLogging AuditSmoke
begin

text \<open>
  Verification of a serving platform for language models that schedules requests by predicted
  output length (\<^verbatim>\<open>python/\<close>, \<^verbatim>\<open>vllm_port/\<close>, \<^verbatim>\<open>scripts/\<close>, \<^verbatim>\<open>benchmarks/\<close>).

  \<^bold>\<open>The program.\<close> Clients send chat requests to a gateway (\<^verbatim>\<open>python/scheduler/gateway.py\<close>). It hands
  them to one of three schedulers: first come first served, shortest job first by
  \<^verbatim>\<open>max_tokens\<close> (the oracle), or shortest job first by a predicted output length, with aging
  against starvation and a fallback when a prediction fails. The prediction extracts forty
  features from the prompt, normalises them and runs a small network. Dispatcher tasks acquire
  requests and forward them to a vLLM server. Beside this path there are the training of the
  network (data, loop, scripts, export), a port of the SmolLM3 model to vLLM with scripts that
  patch it in, and benchmarks with their reports.

  \<^bold>\<open>Theories and sources.\<close>
  \<^item> \<open>Py_Prelude\<close>, \<open>Py_Text\<close>, \<open>Py_Heapq\<close>: Python values, exceptions (\<open>pyres\<close>: \<open>Inl\<close> is a raised
    exception), dictionaries in insertion order, strings and regular expressions, and the binary
    heap of the standard library with its correctness for any strict weak order.
  \<^item> \<open>Py_Argparse\<close>, \<open>Py_Config\<close>: the command lines of the scripts, as \<^verbatim>\<open>argparse\<close> reads them (abbreviated
    options, \<^verbatim>\<open>--name=value\<close>, negative numbers, usage errors), and keys of parsed configuration files.
  \<^item> \<open>QueueSpec\<close>, \<open>PriorityQueue\<close>, \<open>QueueWaiters\<close>: \<^verbatim>\<open>scheduler/priority_queue.py\<close>. The record \<open>pqueue\<close>
    has the fields of \<^verbatim>\<open>PriorityQueue\<close> and each method is one function, as it runs under the lock;
    the tasks that wait on the condition are a step relation.
  \<^item> \<open>Aging\<close>: \<^verbatim>\<open>scheduler/aging.py\<close>, the three policies.
  \<^item> \<open>BaseScheduler\<close>, \<open>FcfsScheduler\<close>, \<open>SjfScheduler\<close>, \<open>SjfAging\<close>, \<open>AnyScheduler\<close>:
    \<^verbatim>\<open>scheduler/base_scheduler.py\<close>, \<^verbatim>\<open>fcfs_scheduler.py\<close>, \<^verbatim>\<open>sjf_scheduler.py\<close>. Requests are mutable
    objects and live in a store; an operation is a function on the store and the state of the
    scheduler. The aging loop is \<open>aging_tick\<close>, one call per turn.
  \<^item> \<open>Gateway\<close>, \<open>GatewaySystem\<close>, \<open>GatewayApp\<close>: \<^verbatim>\<open>scheduler/gateway.py\<close>. A coroutine is cut where it suspends, each
    piece is a function on the record \<open>gateway\<close>; \<open>gw_step\<close> lets clients, dispatchers, replies,
    failures and timeouts act in any order; the last theory has the web application with its
    lifespan, routes and handlers.
  \<^item> \<open>FeatureVec\<close>, \<open>FeatureExtractor\<close>, \<open>Predictor\<close>, \<open>OutputModel\<close>: \<^verbatim>\<open>predictor/features.py\<close>,
    \<^verbatim>\<open>feature_extractor.py\<close>, \<^verbatim>\<open>predictor.py\<close>, \<^verbatim>\<open>inference.py\<close> and \<^verbatim>\<open>model.py\<close>.
  \<^item> \<open>Dataset\<close>, \<open>Trainer\<close>, \<open>TrainerLogging\<close>, \<open>TrainingPipeline\<close>, \<open>TrainingScripts\<close>: \<^verbatim>\<open>predictor/dataset.py\<close>,
    \<^verbatim>\<open>trainer.py\<close>, \<^verbatim>\<open>export.py\<close> and the scripts of \<^verbatim>\<open>python/training\<close>, first on typed configurations and then with
    their command lines and configuration files. Calls of the experiment loggers are a trace.
  \<^item> \<open>SmolLM3\<close>, \<open>SmolLM3Modules\<close>, \<open>SmolLM3Loading\<close>, \<open>VllmPatch\<close>, \<open>PatchScripts\<close>: \<^verbatim>\<open>vllm_port/smollm3.py\<close> and
    \<^verbatim>\<open>scripts/patch_*.py\<close>.
  \<^item> \<open>Benchmark\<close>, \<open>BenchSim\<close>, \<open>BenchmarkReport\<close>, \<open>Plots\<close>, \<open>BenchScripts\<close>, \<open>Comparison\<close>, \<open>EvaluationReport\<close>:
    \<^verbatim>\<open>python/benchmark\<close>, \<^verbatim>\<open>benchmarks/run_benchmark.py\<close>, \<^verbatim>\<open>scripts/generate_benchmark_report.py\<close> and
    \<^verbatim>\<open>python/evaluation/generate_report.py\<close>. The simulation is a step relation on its tasks;
    \<open>Comparison\<close> joins it with the reports.
  \<^item> \<open>AuditStatic\<close>, \<open>AuditRun\<close>, \<open>AuditSmoke\<close>: \<^verbatim>\<open>audit_scripts/phase1_static.py\<close>, \<^verbatim>\<open>run_audit.py\<close>, and of
    \<^verbatim>\<open>phase4_6_7.py\<close> the driver and the smoke test of the gateway. A step is a function from the log to its result and the new log.

  \<^bold>\<open>Interfaces.\<close> \<open>weak_order\<close> is what the heap needs of a comparison, interpreted by the order of the
  queue's items. \<open>drainable\<close> and \<open>job_queue\<close> are what the schedulers need of a queue, interpreted by
  the priority queue. \<open>scheduler\<close> is what the gateway needs of a scheduler, interpreted by all
  three classes and by their dynamic dispatch, so the facts on the gateway hold for each.

  \<^bold>\<open>What is shown.\<close>
  \<^item> Scheduling: dequeues return a live entry of least predicted length, draining sorts, no
    entry is lost or handed out twice without priority updates, the counters are exact, no task
    sleeps beside work; the predicted scheduler refines this queue, aging lowers a waiting
    request in every turn, and the deployed pipeline below never falls back. Some facts show
    where the code falls short: a priority update duplicates a request, a fallback strands the
    queue, a failed stream never ends.
  \<^item> The gateway: an invariant over all reachable states ties metrics, scheduler counters and
    open requests together; a client is answered once, every reply has its HTTP form, and the
    application routes each request to its handler.
  \<^item> Prediction: extraction is total with values in their ranges, normalisation is
    invertible, the backends agree, a loaded network accepts exactly rows of its width.
  \<^item> Training: deduplication and split do not leak, the statistics standardise the training
    data, training stops and keeps the best checkpoint, with and without experiment loggers, the exported statistics give
    serving the rows of training; the scripts implement the typed pipeline on every complete
    configuration; and the cases in which the scripts fail.
  \<^item> SmolLM3: the decoder stack is the pre-norm transformer in both forms, the standalone
    attention is grouped-query attention, which layers rotate, and which parameters a published
    checkpoint reaches. The patch scripts: what a second run does, and what the image build leaves in each layout of vLLM.
  \<^item> Benchmarks: the simulation ends, its figures depend on the drawn lengths and the measured
    times only and not on the scheduler, what the plots show, and the outcome of the reports on
    every command line. The audit: what decides its exit code and what it misses.

  \<^bold>\<open>Bounds and fuel.\<close> All loops of the model are structural recursions or have a termination proof.
  \<open>drain n\<close> takes the number of dequeues, and every entry is returned once \<open>n\<close> reaches the
  number of live entries. The matcher for regular expressions recurses on the expression and
  bounds a repetition by the rest of the text, which suffices as each turn of a star consumes a
  character. The generator of synthetic data has the loop bound \<open>3 n\<close> of the code.

  \<^bold>\<open>Abstractions.\<close> Floats are reals, so rounding and NaN are not covered; integers are unbounded as
  in Python. Text is Latin-1. Clock readings, \<^verbatim>\<open>uuid4\<close>, random numbers, the HTTP client, file
  contents, JSON and CSV codecs, hashes, PyTorch's optimiser, vLLM's kernels and optional packages
  are arguments; what is assumed of them is written in each statement. Operations of one event
  loop interleave only where the code awaits.

  \<^bold>\<open>Not modelled.\<close> Printing, configuration values of types that the training pipeline does not expect (such a
  run is \<open>None\<close> in the theories of the scripts), the router of the web framework and the Prometheus text
  format, drawing and PDF libraries (all arguments where they matter), the string constants of
  \<^verbatim>\<open>vllm_port/registry_patch.py\<close>, the embedded smoke scripts of \<^verbatim>\<open>audit_scripts/phase4_6_7.py\<close> other than
  the one of the gateway (they call PyTorch, or end before they do anything), deployment files, the tests, and the Go and
  C++ companions, which are other implementations.
\<close>

section \<open>The deployed pipeline\<close>

text \<open>
  The predictor as the gateway loads it: a state dictionary that the default network accepts,
  with its metadata, and the default feature extractor; \<open>t0\<close> and \<open>t1\<close> are clock readings around an
  extraction.
\<close>

definition deployed_predictor :: "mlp_state \<Rightarrow> real \<Rightarrow> real \<Rightarrow> real list \<Rightarrow> real list \<Rightarrow> predictor pyres" where
  "deployed_predictor state t0 t1 mean std =
     bind_res (load_state_dict default_model_config state) (\<lambda>net.
       Inr (from_checkpoint net (\<lambda>s. extract_prompt default_extractor t0 t1 (Some s)) (Some (Some mean, Some std))))"

text \<open>The predictor is installed, no fallback is in charge, and exactly the requests in \<open>D\<close> have a prediction.\<close>

definition prediction_ok :: "bool \<Rightarrow> scheduled_request \<Rightarrow> bool" where
  "prediction_ok done req \<longleftrightarrow>
     (if done then 1 \<le> sr_predicted_tokens req \<and> sr_predicted_tokens req \<le> 4096 \<and>
                   sr_priority req = sr_predicted_tokens req
      else sr_predicted_tokens req = 0)"

definition predicted_world :: "predictor \<Rightarrow> oref set \<Rightarrow> sjf world \<Rightarrow> bool" where
  "predicted_world p D w \<longleftrightarrow> \<not> sjf_use_fallback (snd w) \<and> sjf_predictor (snd w) = p \<and>
     (\<forall>r. prediction_ok (r \<in> D) (fst w r))"

lemma deployed_predicts:
  assumes "deployed_predictor state e0 e1 mean std = Inr p" and "length mean = 40" and "length std = 40"
  shows "\<exists>r. predict p t0 t1 prompt = Inr r \<and> 1 \<le> pr_predicted_tokens r \<and> pr_predicted_tokens r \<le> 4096"
proof -
  have sh: "mlp_shape default_model_config state"
    and pd: "p = from_checkpoint (net_forward state) (\<lambda>s. extract_prompt default_extractor e0 e1 (Some s)) (Some (Some mean, Some std))"
    using assms(1) by (auto simp: deployed_predictor_def load_state_dict_def bind_res_Inr_iff split: if_splits)
  have ne: "mean \<noteq> []" using assms(2) by auto
  have p: "op_mean p = Some mean" "op_std p = Some std" "op_net p = net_forward state" "op_config p = default_model_config"
    unfolding pd using ne by (simp_all add: from_checkpoint_def checkpoint_norm_def or_empty_def)
  have e: "op_extract p prompt = Inr \<lparr>er_features = \<lparr>fv_values = feature_values default_extractor prompt\<rparr>,
      er_latency_ms = (e1 - e0) * 1000, er_prompt = prompt\<rparr>"
    unfolding pd by (simp add: from_checkpoint_def split_beta extract_prompt_eq)
  obtain x where x: "normalise mean std (feature_values default_extractor prompt) = Inr x" "length x = 40"
    using normalise_same_length [of mean "feature_values default_extractor prompt" std] assms(2,3)
    by (auto simp: length_feature_values)
  obtain y where "net_forward state x = Inr y"
    using net_forward_outcome [OF sh, of x] x(2) by (auto simp: default_model_config_def NUM_FEATURES_eq)
  with x p e clamp_bounds [of 1 4096 y] show ?thesis
    by (simp add: predict_Inr_iff to_tensor_def as_list_def default_model_config_def)
qed

lemma predicted_world_step:
  assumes "\<And>t0 t1 prompt. \<exists>r. predict p t0 t1 prompt = Inr r \<and> 1 \<le> pr_predicted_tokens r \<and> pr_predicted_tokens r \<le> 4096"
    and "predicted_world p D w" and "sched_step sjf_iface x w = (rs, w')"
  shows "predicted_world p (D \<union> set (submitted [x])) w'"
proof -
  obtain st s where w: "w = (st, s)" by force
  have pw: "\<not> sjf_use_fallback s" "sjf_predictor s = p" and req: "\<And>r. prediction_ok (r \<in> D) (st r)"
    using assms(2) by (simp_all add: predicted_world_def w)
  show ?thesis
  proof (cases x)
    case (Submit ck r)
    have "\<exists>toks s1. sjf_predict ck (st r) s = (toks, s1) \<and> 1 \<le> toks \<and> toks \<le> 4096 \<and>
        \<not> sjf_use_fallback s1 \<and> sjf_predictor s1 = p"
      using pw req [of r] assms(1) [of "ck_infer0 ck" "ck_infer1 ck" "sr_prompt (st r)"]
      by (cases "sr_predicted_tokens (st r) = 0") (auto simp: sjf_predict_def record_timing_def prediction_ok_def split: if_splits)
    then obtain toks s1 where t: "sjf_predict ck (st r) s = (toks, s1)" "1 \<le> toks" "toks \<le> 4096"
      "\<not> sjf_use_fallback s1" "sjf_predictor s1 = p" by blast
    then have w': "w' = (st(r := fst w' r), snd w')" and "\<not> sjf_use_fallback (snd w')" "sjf_predictor (snd w') = p"
      and "sr_predicted_tokens (fst w' r) = toks" "sr_priority (fst w' r) = toks"
      using assms(3) Submit by (auto simp: w sjf_iface_def sjf_submit_def Let_def)
    moreover from this t have "prediction_ok True (fst w' r)" by (simp add: prediction_ok_def)
    moreover have "fst w' r' = st r'" if "r' \<noteq> r" for r' using w' that by (metis fst_conv fun_upd_apply)
    ultimately show ?thesis
      using req Submit by (auto simp: predicted_world_def) (metis (full_types))+
  next
    case (Acquire ck)
    with pw req assms(3) show ?thesis
      by (auto simp: w sjf_iface_def sjf_acquire_def predicted_world_def split: prod.splits acq.splits)
  next
    case (Complete k b)
    with pw req assms(3) show ?thesis
      by (auto simp: w sjf_iface_def sjf_complete_def count_completion_def predicted_world_def split: if_splits)
  next
    case (CancelReq k)
    with pw req assms(3) show ?thesis
      by (auto simp: w sjf_iface_def sjf_cancel_def Let_def predicted_world_def split: prod.splits)
  qed
qed

lemma predicted_world_run:
  assumes "\<And>t0 t1 prompt. \<exists>r. predict p t0 t1 prompt = Inr r \<and> 1 \<le> pr_predicted_tokens r \<and> pr_predicted_tokens r \<le> 4096"
  shows "predicted_world p D w \<Longrightarrow> sched_run sjf_iface ops w = (rs, w') \<Longrightarrow> predicted_world p (D \<union> set (submitted ops)) w'"
proof (induction ops arbitrary: D w rs)
  case (Cons x xs)
  obtain r1 w1 where 1: "sched_step sjf_iface x w = (r1, w1)" by (metis prod.collapse)
  obtain r2 where 2: "sched_run sjf_iface xs w1 = (r2, w')" using Cons.prems(2) 1 by (auto split: prod.splits)
  have "predicted_world p ((D \<union> set (submitted [x])) \<union> set (submitted xs)) w'"
    by (rule Cons.IH [OF predicted_world_step [OF assms Cons.prems(1) 1] 2])
  then show ?case by (cases x) (simp_all add: Un_assoc insert_commute)
qed simp

text \<open>
  C5: the deployed pipeline never falls back. Load a state dictionary that the default network
  accepts, with metadata of forty means and deviations, build the predicted scheduler with it,
  and let it serve requests that carry no prediction, as the gateway makes them. After any
  history of calls (ids may even repeat) the scheduler has not switched to its FCFS fallback,
  and every submitted request is queued under a prediction between 1 and 4096. Feature
  extraction, normalisation, the network, clamping and scheduling compose without an error path.
\<close>

theorem pipeline_never_falls_back:
  assumes "deployed_predictor state e0 e1 mean std = Inr p" and "length mean = 40" and "length std = 40"
    and "mk_sjf p config fallback interval retries timeout = Inr s0"
    and "\<And>r. sr_predicted_tokens (st0 r) = 0"
    and "sched_run sjf_iface ops (st0, s0) = (rs, (st, s))"
  shows "\<not> sjf_use_fallback s \<and>
    (\<forall>r \<in> set (submitted ops). 1 \<le> sr_predicted_tokens (st r) \<and> sr_predicted_tokens (st r) \<le> 4096 \<and>
       sr_priority (st r) = sr_predicted_tokens (st r))"
proof -
  have "predicted_world p {} (st0, s0)"
    using mk_sjf_fields [OF assms(4)] assms(5) by (simp add: predicted_world_def prediction_ok_def)
  from predicted_world_run [OF deployed_predicts [OF assms(1-3)] this assms(6)] show ?thesis
    by (auto simp: predicted_world_def prediction_ok_def)
qed

theorem pipeline_never_falls_back_witness:
  "\<exists>p s0 rs st s. deployed_predictor (constant_state default_model_config 7) 0 1 (replicate 40 0) (replicate 40 1) = Inr p \<and>
     mk_sjf p None (PBool True) (PFloat (1 / 2)) 3 (PFloat 300) = Inr s0 \<and>
     sched_run sjf_iface [Submit some_clocks 0, Submit some_clocks 1] (\<lambda>r. sample_request ''hello'' 64, s0) = (rs, (st, s)) \<and>
     \<not> sjf_use_fallback s \<and> 1 \<le> sr_priority (st 1)"
proof -
  obtain p where p: "deployed_predictor (constant_state default_model_config 7) 0 1 (replicate 40 0) (replicate 40 1) = Inr p"
    by (simp add: deployed_predictor_def load_state_dict_def constant_state_shape)
  obtain s0 where s0: "mk_sjf p None (PBool True) (PFloat (1 / 2)) 3 (PFloat 300) = Inr s0"
    by (simp add: mk_sjf_def create_aging_def default_aging_config_def Let_def)
  obtain rs st s where r: "sched_run sjf_iface [Submit some_clocks 0, Submit some_clocks 1]
      (\<lambda>r. sample_request ''hello'' 64, s0) = (rs, (st, s))" by (metis prod.collapse)
  have "sr_predicted_tokens (sample_request ''hello'' 64) = 0" by (simp add: sample_request_def)
  from pipeline_never_falls_back [OF p _ _ s0 this r] p s0 r show ?thesis by auto
qed

end
